(* ===== verification/Prelude.thy ===== *)
theory Prelude
  imports Main "HOL-Library.Word"
begin

text \<open>
  Shared vocabulary of the development: bytes and the fixed-width integers of the wire
  format, run-time panics of Go as values of a sum type, loops over an index range that may
  panic, and the generic list and word lemmas the components share.
\<close>

unbundle bit_operations_syntax

section \<open>Machine integers and bytes\<close>

type_synonym byte = "8 word"
type_synonym u16 = "16 word"
type_synonym u32 = "32 word"
type_synonym bytes = "8 word list"

section \<open>Panics as values\<close>

text \<open>
  A Go function that can panic returns \<open>Inl\<close> of the panic or \<open>Inr\<close> of its
  result; \<open>sbind\<close> runs the rest of a body only after a statement that did not panic.
  \<open>CloseChan\<close> is closing a channel that is nil or closed, \<open>Raised\<close> is the code's own
  \<^verbatim>\<open>panic(err)\<close>, \<open>MuxTwice\<close> the panic of \<^verbatim>\<open>net/http\<close> when a pattern is registered a second time.
\<close>

datatype gopanic =
    IndexOutOfRange
  | SliceBounds
  | TypeAssertion
  | NilDeref
  | SendOnClosed
  | MakeChan
  | CloseChan
  | MuxTwice
  | Raised

named_theorems panic_simps \<open>evaluation of bodies that may panic\<close>

fun sbind :: "'e + 'a \<Rightarrow> ('a \<Rightarrow> 'e + 'b) \<Rightarrow> 'e + 'b" where
  "sbind (Inl e) f = Inl e"
| "sbind (Inr x) f = f x"

lemma sbind_Inr_iff:
  "sbind m f = Inr y \<longleftrightarrow> (\<exists>x. m = Inr x \<and> f x = Inr y)"
  by (cases m) auto

lemma sbind_cong: "m = n \<Longrightarrow> (\<And>x. f x = g x) \<Longrightarrow> sbind m f = sbind n g"
  by (cases n) auto

lemma sbind_Inr [simp]: "sbind m Inr = m"
  by (cases m) auto

lemma sbind_assoc: "sbind (sbind m f) g = sbind m (\<lambda>x. sbind (f x) g)"
  by (cases m) auto

text \<open>Reading and writing one element of a slice, with the bounds check of the run-time.\<close>

definition idx :: "'a list \<Rightarrow> nat \<Rightarrow> gopanic + 'a" where
  "idx b i = (if i < length b then Inr (b ! i) else Inl IndexOutOfRange)"

definition upd :: "'a list \<Rightarrow> nat \<Rightarrow> 'a \<Rightarrow> gopanic + 'a list" where
  "upd b i x = (if i < length b then Inr (b[i := x]) else Inl IndexOutOfRange)"

lemma idx_in [simp, panic_simps]: "i < length b \<Longrightarrow> idx b i = Inr (b ! i)"
  by (simp add: idx_def)

lemma idx_out [panic_simps]: "length b \<le> i \<Longrightarrow> idx b i = Inl IndexOutOfRange"
  by (simp add: idx_def)

lemma upd_in [simp, panic_simps]: "i < length b \<Longrightarrow> upd b i x = Inr (b[i := x])"
  by (simp add: upd_def)

lemma upd_out [panic_simps]: "length b \<le> i \<Longrightarrow> upd b i x = Inl IndexOutOfRange"
  by (simp add: upd_def)

section \<open>Loops that may panic\<close>

text \<open>
  \<open>forM body is s\<close> runs a loop body for each index of \<open>is\<close> in turn and stops at
  the first panic. A Go loop from \<open>a\<close> below \<open>b\<close> runs over \<open>[a..<b]\<close>, a loop
  that counts down runs over the reversed range.
\<close>

fun forM :: "('i \<Rightarrow> 's \<Rightarrow> 'e + 's) \<Rightarrow> 'i list \<Rightarrow> 's \<Rightarrow> 'e + 's" where
  "forM body [] s = Inr s"
| "forM body (i # is) s = sbind (body i s) (forM body is)"

lemma forM_Nil_eta [simp]: "forM body [] = Inr"
  by (rule ext) simp

lemma forM_append: "forM body (is @ js) s = sbind (forM body is s) (forM body js)"
  by (induction "is" arbitrary: s) (auto simp: sbind_assoc intro!: sbind_cong)

lemma forM_snoc: "forM body (is @ [i]) s = sbind (forM body is s) (body i)"
  by (auto simp: forM_append intro!: sbind_cong)

text \<open>A loop whose body never panics on the states it meets computes a fold.\<close>

lemma forM_fold:
  assumes "\<And>i s. i \<in> set is \<Longrightarrow> P s \<Longrightarrow> body i s = Inr (g i s) \<and> P (g i s)"
    and "P s"
  shows "forM body is s = Inr (fold g is s) \<and> P (fold g is s)"
  using assms by (induction "is" arbitrary: s) auto

section \<open>Procedures on a state\<close>

text \<open>
  A handler reads and changes the state of its process and may panic; what it did before the
  panic stays done. \<open>pbind\<close> runs two statements in sequence.
\<close>

type_synonym ('c, 'a) pcd = "'c \<Rightarrow> (gopanic + 'a) \<times> 'c"

definition pret :: "'a \<Rightarrow> ('c, 'a) pcd" where
  "pret x c = (Inr x, c)"

definition pbind :: "('c, 'a) pcd \<Rightarrow> ('a \<Rightarrow> ('c, 'b) pcd) \<Rightarrow> ('c, 'b) pcd" where
  "pbind m f c = (case m c of (Inl e, c) \<Rightarrow> (Inl e, c) | (Inr x, c) \<Rightarrow> f x c)"

definition plift :: "gopanic + 'a \<Rightarrow> ('c, 'a) pcd" where
  "plift r c = (r, c)"

definition pget :: "('c \<Rightarrow> 'a) \<Rightarrow> ('c, 'a) pcd" where
  "pget f c = (Inr (f c), c)"

definition pmod :: "('c \<Rightarrow> 'c) \<Rightarrow> ('c, unit) pcd" where
  "pmod f c = (Inr (), f c)"

text \<open>\<open>pforeach\<close> runs a body for every element of a range.\<close>

fun pforeach :: "'i list \<Rightarrow> ('i \<Rightarrow> ('c, unit) pcd) \<Rightarrow> ('c, unit) pcd" where
  "pforeach [] body = pret ()"
| "pforeach (i # is) body = pbind (body i) (\<lambda>_. pforeach is body)"

lemma pcd_simps [simp, panic_simps]:
  "pret x c = (Inr x, c)" "plift r c = (r, c)" "pget g c = (Inr (g c), c)"
  "pmod h c = (Inr (), h c)"
  by (simp_all add: pret_def plift_def pget_def pmod_def)

lemma pbind_simps [panic_simps]:
  "m c = (Inr x, c') \<Longrightarrow> pbind m f c = f x c'"
  "m c = (Inl e, c') \<Longrightarrow> pbind m f c = (Inl e, c')"
  by (simp_all add: pbind_def)

lemma pbind_pure [simp]:
  "pbind (pret x) f = f x" "pbind (plift (Inr x)) f = f x" "pbind (pget g) f c = f (g c) c"
  "pbind (pmod h) k c = k () (h c)" "pbind (plift (Inl e)) f c = (Inl e, c)"
  by (simp_all add: pbind_def fun_eq_iff)

lemma pbind_assoc: "pbind (pbind m f) g = pbind m (\<lambda>x. pbind (f x) g)"
  by (rule ext) (auto simp: pbind_def split: prod.splits sum.splits)

text \<open>A procedure keeps a property of the state, whether it panics or not.\<close>

definition pkeeps :: "('c \<Rightarrow> bool) \<Rightarrow> ('c, 'a) pcd \<Rightarrow> bool" where
  "pkeeps I f \<longleftrightarrow> (\<forall>c. I c \<longrightarrow> I (snd (f c)))"

named_theorems keeps_rules \<open>what keeps a property\<close>

lemma pkeepsD: "pkeeps I f \<Longrightarrow> I c \<Longrightarrow> f c = (r, c') \<Longrightarrow> I c'"
  unfolding pkeeps_def by (metis snd_conv)

lemma pkeeps_pure [keeps_rules, simp]:
  "pkeeps I (pret x)" "pkeeps I (plift r)" "pkeeps I (pget g)"
  by (simp_all add: pkeeps_def)

lemma pkeeps_pbind [keeps_rules]: "pkeeps I m \<Longrightarrow> (\<And>x. pkeeps I (f x)) \<Longrightarrow> pkeeps I (pbind m f)"
  unfolding pkeeps_def pbind_def by (fastforce split: prod.splits sum.splits)

lemma pkeeps_pforeach [keeps_rules]: "(\<And>i. pkeeps I (body i)) \<Longrightarrow> pkeeps I (pforeach is body)"
  by (induction "is") (auto intro: pkeeps_pbind)

section \<open>Words\<close>

lemma xor_cancel [simp]:
  fixes a b :: "'a::len word"
  shows "a XOR (a XOR b) = b" "(a XOR b) XOR a = b" "(b XOR a) XOR a = b" "a XOR (b XOR a) = b"
  by (simp_all add: xor.assoc xor.left_commute xor.commute)

section \<open>Lists\<close>

lemma nth_equality_prefix:
  assumes "length xs = length ys" "\<And>i. i < n \<Longrightarrow> i < length xs \<Longrightarrow> xs ! i = ys ! i"
    "drop n xs = drop n ys"
  shows "xs = ys"
proof -
  have "take n xs = take n ys"
    using assms(1,2) by (intro nth_equalityI) auto
  with assms(3) show ?thesis by (metis append_take_drop_id)
qed

lemma take_Suc_update: "n < length b \<Longrightarrow> take (Suc n) (b[n := x]) = take n b @ [x]"
  by (simp add: take_Suc_conv_app_nth)

lemma find_append: "find P (xs @ ys) = (case find P xs of None \<Rightarrow> find P ys | Some x \<Rightarrow> Some x)"
  by (induction xs) auto

end
