(* ===== verification/Protocol.thy ===== *)
theory Protocol
  imports Prelude
begin

text \<open>
  \<^verbatim>\<open>src/internal/protocol/protocol.go\<close> and the bit fields of the fixed header in
  \<^verbatim>\<open>binary.go\<close>: constants, wire structs, the tagged union of the messages that travel
  as \<^verbatim>\<open>interface{}\<close>, and the accessors of the first header byte.
\<close>

section \<open>Constants\<close>

definition PROTOCOL_TYPE_DEFAULT :: int where [simp]: "PROTOCOL_TYPE_DEFAULT = 0"
definition PROTOCOL_TYPE_BINARY :: int where [simp]: "PROTOCOL_TYPE_BINARY = 1"
definition PROTOCOL_TYPE_JSON :: int where [simp]: "PROTOCOL_TYPE_JSON = 2"

definition MSGTYPE_DEFAULT :: int where [simp]: "MSGTYPE_DEFAULT = 0"
definition MSGTYPE_REGISTER :: int where [simp]: "MSGTYPE_REGISTER = 1"
definition MSGTYPE_REGRESP :: int where [simp]: "MSGTYPE_REGRESP = 2"
definition MSGTYPE_HEARTBEAT :: int where [simp]: "MSGTYPE_HEARTBEAT = 3"
definition MSGTYPE_HBRESP :: int where [simp]: "MSGTYPE_HBRESP = 4"
definition MSGTYPE_PUSH :: int where [simp]: "MSGTYPE_PUSH = 5"
definition MSGTYPE_PUSHRESP :: int where [simp]: "MSGTYPE_PUSHRESP = 6"
definition MSGTYPE_CALLBACK :: int where [simp]: "MSGTYPE_CALLBACK = 7"
definition MSGTYPE_CBRESP :: int where [simp]: "MSGTYPE_CBRESP = 8"
definition MSGTYPE_MESSAGE :: int where [simp]: "MSGTYPE_MESSAGE = 9"
definition MSGTYPE_MSGRESP :: int where [simp]: "MSGTYPE_MSGRESP = 10"
definition MSGTYPE_KICK :: int where [simp]: "MSGTYPE_KICK = 11"
definition MSGTYPE_KICKRESP :: int where [simp]: "MSGTYPE_KICKRESP = 12"
definition MSGTYPE_MAX :: int where [simp]: "MSGTYPE_MAX = 64"

definition PLAT_DEFAULT :: int where [simp]: "PLAT_DEFAULT = 0"
definition PLAT_ANDROID :: int where [simp]: "PLAT_ANDROID = 1"
definition PLAT_IOS :: int where [simp]: "PLAT_IOS = 2"
definition PLAT_WINPHONE :: int where [simp]: "PLAT_WINPHONE = 4"
definition PLAT_WEB :: int where [simp]: "PLAT_WEB = 8"
definition PLAT_PC :: int where [simp]: "PLAT_PC = 16"
definition PLAT_ALL :: int where [simp]: "PLAT_ALL = 31"

definition ENCODE_DEFAULT :: int where [simp]: "ENCODE_DEFAULT = 0"
definition ENCODE_BIT_NOT :: int where [simp]: "ENCODE_BIT_NOT = 1"
definition ENCODE_BYTE_RVS :: int where [simp]: "ENCODE_BYTE_RVS = 2"
definition ENCODE_LOOP_XOR :: int where [simp]: "ENCODE_LOOP_XOR = 3"

definition FIX_HEADER_LEN :: nat where [simp]: "FIX_HEADER_LEN = 5"
definition ADD_HEADER_LEN :: nat where [simp]: "ADD_HEADER_LEN = 4"
definition HEADER_LEN :: nat where [simp]: "HEADER_LEN = FIX_HEADER_LEN + ADD_HEADER_LEN"

definition KICK_REASON_REPEAT :: int where [simp]: "KICK_REASON_REPEAT = 1"
definition KICK_REASON_MUTEX :: int where [simp]: "KICK_REASON_MUTEX = 2"
definition KICK_REASON_TIMEOUT :: int where [simp]: "KICK_REASON_TIMEOUT = 3"

section \<open>Wire structs\<close>

record Header =
  Line :: byte
  Tid :: u32

record AddHeader =
  Len :: u32

record ParamResp =
  Code :: byte

text \<open>The two \<^verbatim>\<open>[32]byte\<close> arrays are lists; \<open>wf_ParamReg\<close> is their length.\<close>

record ParamReg =
  Version :: byte
  TerminalType :: byte
  RegId :: bytes
  RegToken :: bytes

definition wf_ParamReg :: "ParamReg \<Rightarrow> bool" where
  "wf_ParamReg p \<longleftrightarrow> length (RegId p) = 32 \<and> length (RegToken p) = 32"

record ParamPush =
  Offline :: u16
  Flag :: byte

text \<open>
  The messages: one constructor per struct that embeds \<open>Header\<close> and \<open>AddHeader\<close>,
  and \<open>MHeader\<close> for the heartbeat, which is a bare fixed header.
\<close>

datatype message =
    MResp Header AddHeader ParamResp
  | MRegister Header AddHeader ParamReg
  | MPush Header AddHeader ParamPush bytes
  | MKick Header AddHeader byte
  | MCallback Header AddHeader bytes
  | MImUp Header AddHeader bytes
  | MImDown Header AddHeader byte bytes
  | MHeader Header

section \<open>The first header byte\<close>

definition GetMsgType :: "Header \<Rightarrow> int" where
  "GetMsgType head = uint (Line head AND 0x3F)"

definition SetMsgType :: "Header \<Rightarrow> int \<Rightarrow> Header" where
  "SetMsgType head msgType =
     head\<lparr>Line := push_bit 6 (drop_bit 6 (Line head)) OR word_of_int msgType\<rparr>"

definition GetEncode :: "Header \<Rightarrow> int" where
  "GetEncode head = uint (drop_bit 6 (Line head AND 0xC0))"

definition SetEncode :: "Header \<Rightarrow> int \<Rightarrow> Header" where
  "SetEncode head encode =
     head\<lparr>Line := drop_bit 2 (push_bit 2 (Line head)) OR push_bit 6 (word_of_int encode)\<rparr>"

text \<open>
  Each accessor reads back what its setter wrote and leaves the other field alone, for the
  message types below 64 and the four encodings that fit their bits.
\<close>

lemma Tid_SetMsgType [simp]: "Tid (SetMsgType h t) = Tid h"
  by (simp add: SetMsgType_def)

lemma Tid_SetEncode [simp]: "Tid (SetEncode h e) = Tid h"
  by (simp add: SetEncode_def)

lemma header_masks: "(0x3F :: byte) = mask 6" "(0xC0 :: byte) = push_bit 6 (mask 2)"
  by (simp_all add: mask_numeral)

text \<open>The bit-level facts behind the accessors, for an operand that fits its field.\<close>

lemma type_bits:
  fixes w x :: byte
  assumes "take_bit 6 x = x"
  shows "(push_bit 6 (drop_bit 6 w) OR x) AND 0x3F = x"
    and "drop_bit 6 ((push_bit 6 (drop_bit 6 w) OR x) AND 0xC0) = drop_bit 6 (w AND 0xC0)"
proof -
  have "(push_bit 6 (drop_bit 6 w) OR take_bit 6 x) AND 0x3F = take_bit 6 x"
    "drop_bit 6 ((push_bit 6 (drop_bit 6 w) OR take_bit 6 x) AND 0xC0) = drop_bit 6 (w AND 0xC0)"
    unfolding header_masks by (rule bit_word_eqI; auto simp: bit_simps)+
  then show "(push_bit 6 (drop_bit 6 w) OR x) AND 0x3F = x"
    and "drop_bit 6 ((push_bit 6 (drop_bit 6 w) OR x) AND 0xC0) = drop_bit 6 (w AND 0xC0)"
    by (simp_all only: assms)
qed

lemma encode_bits:
  fixes w y :: byte
  assumes "take_bit 2 y = y"
  shows "(drop_bit 2 (push_bit 2 w) OR push_bit 6 y) AND 0x3F = w AND 0x3F"
    and "drop_bit 6 ((drop_bit 2 (push_bit 2 w) OR push_bit 6 y) AND 0xC0) = y"
proof -
  have "(drop_bit 2 (push_bit 2 w) OR push_bit 6 (take_bit 2 y)) AND 0x3F = w AND 0x3F"
    "drop_bit 6 ((drop_bit 2 (push_bit 2 w) OR push_bit 6 (take_bit 2 y)) AND 0xC0) = take_bit 2 y"
    unfolding header_masks by (rule bit_word_eqI; auto simp: bit_simps)+
  then show "(drop_bit 2 (push_bit 2 w) OR push_bit 6 y) AND 0x3F = w AND 0x3F"
    and "drop_bit 6 ((drop_bit 2 (push_bit 2 w) OR push_bit 6 y) AND 0xC0) = y"
    by (simp_all only: assms)
qed

lemma byte_of_small_int:
  assumes "0 \<le> t" "t < 2 ^ n" "n \<le> 8"
  shows "take_bit n (word_of_int t :: byte) = word_of_int t"
    and "uint (word_of_int t :: byte) = t"
proof -
  have "t < 2 ^ 8"
    using assms(2,3) by (meson order_less_le_trans one_le_numeral power_increasing)
  then have t8: "take_bit 8 t = t" and tn: "take_bit n t = t"
    using assms(1,2) by (auto simp only: take_bit_int_eq_self_iff)
  from tn show "take_bit n (word_of_int t :: byte) = word_of_int t"
    by (metis take_bit_of_int)
  have "uint (word_of_int t :: byte) = take_bit 8 t"
    using unsigned_of_int [where 'b = 8 and 'a = int, of t] by (simp only: len_num1 len_bit0) simp
  with t8 show "uint (word_of_int t :: byte) = t"
    by simp
qed

lemma type_byte:
  assumes "0 \<le> t" "t < 64"
  shows "take_bit 6 (word_of_int t :: byte) = word_of_int t" "uint (word_of_int t :: byte) = t"
  using assms by (intro byte_of_small_int [where n = 6]; simp)+

lemma encode_byte:
  assumes "0 \<le> e" "e < 4"
  shows "take_bit 2 (word_of_int e :: byte) = word_of_int e" "uint (word_of_int e :: byte) = e"
  using assms by (intro byte_of_small_int [where n = 2]; simp)+

lemma Line_SetMsgType:
  "Line (SetMsgType h t) = push_bit 6 (drop_bit 6 (Line h)) OR word_of_int t"
  by (simp add: SetMsgType_def)

lemma Line_SetEncode:
  "Line (SetEncode h e) = drop_bit 2 (push_bit 2 (Line h)) OR push_bit 6 (word_of_int e)"
  by (simp add: SetEncode_def)

lemma GetMsgType_SetMsgType:
  assumes "0 \<le> t" "t < 64"
  shows "GetMsgType (SetMsgType h t) = t"
  unfolding GetMsgType_def Line_SetMsgType type_bits(1) [OF type_byte(1) [OF assms]]
  by (rule type_byte(2) [OF assms])

lemma GetEncode_SetMsgType:
  assumes "0 \<le> t" "t < 64"
  shows "GetEncode (SetMsgType h t) = GetEncode h"
  unfolding GetEncode_def Line_SetMsgType type_bits(2) [OF type_byte(1) [OF assms]] ..

lemma GetMsgType_SetEncode:
  assumes "0 \<le> e" "e < 4"
  shows "GetMsgType (SetEncode h e) = GetMsgType h"
  unfolding GetMsgType_def Line_SetEncode encode_bits(1) [OF encode_byte(1) [OF assms]] ..

lemma GetEncode_SetEncode:
  assumes "0 \<le> e" "e < 4"
  shows "GetEncode (SetEncode h e) = e"
  unfolding GetEncode_def Line_SetEncode encode_bits(2) [OF encode_byte(1) [OF assms]]
  by (rule encode_byte(2) [OF assms])

lemma GetMsgType_range: "0 \<le> GetMsgType h" "GetMsgType h < 64"
proof -
  have "uint (Line h AND 0x3F) = take_bit 6 (uint (Line h))"
    by (simp only: header_masks flip: take_bit_eq_mask) (simp only: unsigned_take_bit_eq)
  then show "0 \<le> GetMsgType h" "GetMsgType h < 64"
    using take_bit_int_less_exp [of 6 "uint (Line h)"] by (simp_all add: GetMsgType_def)
qed

lemma GetEncode_range: "0 \<le> GetEncode h" "GetEncode h < 4"
proof -
  have "drop_bit 6 (w AND 0xC0) = take_bit 2 (drop_bit 6 w)" for w :: byte
    unfolding header_masks by (rule bit_word_eqI) (auto simp: bit_simps)
  then have "GetEncode h = take_bit 2 (uint (drop_bit 6 (Line h)))"
    by (simp only: GetEncode_def unsigned_take_bit_eq)
  then show "0 \<le> GetEncode h" "GetEncode h < 4"
    using take_bit_int_less_exp [of 2 "uint (drop_bit 6 (Line h))"] by simp_all
qed

lemma GetEncode_cases:
  obtains "GetEncode h = 0" | "GetEncode h = 1" | "GetEncode h = 2" | "GetEncode h = 3"
proof -
  have "GetEncode h \<in> {0..3}" using GetEncode_range [of h] by simp
  moreover have "{0..3::int} = {0, 1, 2, 3}" by auto
  ultimately show thesis using that by auto
qed

lemmas header_simps =
  GetMsgType_SetMsgType GetEncode_SetMsgType GetMsgType_SetEncode GetEncode_SetEncode

section \<open>Properties\<close>

text \<open>The two setters and getters of the fixed header are a pair of independent bit fields: after
  setting a message type below 64 and one of the four encodings, in either order and whatever
  the header held before, each getter returns what was set, the transaction id is untouched,
  and a getter never leaves its range.\<close>

theorem header_fields:
  assumes "0 \<le> t" "t < 64" "0 \<le> e" "e < 4"
  shows "GetMsgType (SetEncode (SetMsgType h t) e) = t \<and>
    GetEncode (SetEncode (SetMsgType h t) e) = e \<and>
    GetMsgType (SetMsgType (SetEncode h e) t) = t \<and>
    GetEncode (SetMsgType (SetEncode h e) t) = e \<and>
    Tid (SetEncode (SetMsgType h t) e) = Tid h \<and>
    GetMsgType g \<in> {0..<64} \<and> GetEncode g \<in> {0..<4}"
  using assms GetMsgType_range [of g] GetEncode_range [of g] by (simp_all add: header_simps)

theorem header_fields_witness:
  "GetMsgType (SetEncode (SetMsgType \<lparr>Line = 0xFF, Tid = 7\<rparr> 5) 3) = 5 \<and>
   GetEncode (SetEncode (SetMsgType \<lparr>Line = 0xFF, Tid = 7\<rparr> 5) 3) = 3"
  using header_fields [of 5 3 "\<lparr>Line = 0xFF, Tid = 7\<rparr>"] by simp

end
