(* ===== verification/Codec.thy ===== *)
theory Codec
  imports Protocol
begin

text \<open>
  \<^verbatim>\<open>CodecEncode\<close> and \<^verbatim>\<open>CodecDecode\<close> of
  \<^verbatim>\<open>src/internal/protocol/code.go\<close>: the four in-place body encodings, as index
  loops with the bounds checks of the run-time. Each loop is shown equal to a reference
  function on lists, and the pair satisfies the interface \<open>body_codec\<close>, from which the
  framing components take everything they need.

  Both functions update their slice in place and return nothing; the model returns the
  updated slice. The length argument is a body length (\<^verbatim>\<open>uint32\<close> or \<^verbatim>\<open>len\<close>), so it is
  a \<open>nat\<close>; the length 0, for which \<^verbatim>\<open>length-1\<close> is the negative index -1, is written
  out.
\<close>

section \<open>The loops\<close>

definition bit_not_step :: "nat \<Rightarrow> bytes \<Rightarrow> gopanic + bytes" where
  "bit_not_step i b = sbind (idx b i) (\<lambda>x. upd b i (NOT x))"

definition byte_rvs_step :: "nat \<Rightarrow> bytes \<Rightarrow> gopanic + bytes" where
  "byte_rvs_step i b =
     sbind (idx b (i + 1)) (\<lambda>x. sbind (idx b i) (\<lambda>y.
       sbind (upd b i x) (\<lambda>b. upd b (i + 1) y)))"

definition xor_step :: "nat \<Rightarrow> bytes \<Rightarrow> gopanic + bytes" where
  "xor_step i b = sbind (idx b (i + 1)) (\<lambda>x. sbind (idx b i) (\<lambda>y. upd b (i + 1) (x XOR y)))"

text \<open>The statement \<^verbatim>\<open>b[0] ^= b[length-1]\<close>.\<close>

definition xor_ends :: "bytes \<Rightarrow> nat \<Rightarrow> gopanic + bytes" where
  "xor_ends b n =
     (if n = 0 then Inl IndexOutOfRange
      else sbind (idx b 0) (\<lambda>x. sbind (idx b (n - 1)) (\<lambda>y. upd b 0 (x XOR y))))"

text \<open>The indices of a loop that starts at 0, stays below \<open>n\<close> and steps by 2.\<close>

definition evens :: "nat \<Rightarrow> nat list" where
  "evens n = filter even [0..<n]"

definition CodecEncode :: "bytes \<Rightarrow> nat \<Rightarrow> int \<Rightarrow> gopanic + bytes" where
  "CodecEncode b n encode =
     (if encode = ENCODE_DEFAULT then Inr b
      else if encode = ENCODE_BIT_NOT then forM bit_not_step [0..<n] b
      else if encode = ENCODE_BYTE_RVS then
        (let n' = (if n mod 2 \<noteq> 0 then n - 1 else n) in forM byte_rvs_step (evens n') b)
      else if encode = ENCODE_LOOP_XOR then
        (if n = 1 then Inr b
         else sbind (forM xor_step [0..<n - 1] b) (\<lambda>b. xor_ends b n))
      else Inr b)"

definition CodecDecode :: "bytes \<Rightarrow> nat \<Rightarrow> int \<Rightarrow> gopanic + bytes" where
  "CodecDecode b n encode =
     (if encode = ENCODE_DEFAULT then Inr b
      else if encode = ENCODE_BIT_NOT then forM bit_not_step [0..<n] b
      else if encode = ENCODE_BYTE_RVS then
        (let n' = (if n mod 2 \<noteq> 0 then n - 1 else n) in forM byte_rvs_step (evens n') b)
      else if encode = ENCODE_LOOP_XOR then
        (if n = 1 then Inr b
         else sbind (xor_ends b n) (\<lambda>b. forM (\<lambda>i. xor_step (i - 1)) (rev [1..<n]) b))
      else Inr b)"

section \<open>Reference functions\<close>

fun swap2 :: "bytes \<Rightarrow> bytes" where
  "swap2 (x # y # xs) = y # x # swap2 xs"
| "swap2 xs = xs"

text \<open>\<open>scan a xs\<close> is the running exclusive or of \<open>xs\<close> started at \<open>a\<close>; \<open>unscan\<close> undoes it.\<close>

fun scan :: "byte \<Rightarrow> bytes \<Rightarrow> bytes" where
  "scan a [] = []"
| "scan a (x # xs) = (x XOR a) # scan (x XOR a) xs"

fun unscan :: "byte \<Rightarrow> bytes \<Rightarrow> bytes" where
  "unscan a [] = []"
| "unscan a (x # xs) = (x XOR a) # unscan x xs"

fun loop_xor :: "bytes \<Rightarrow> bytes" where
  "loop_xor (x # y # xs) =
     (let ys = scan x (y # xs) in (x XOR last ys) # ys)"
| "loop_xor xs = xs"

fun unloop_xor :: "bytes \<Rightarrow> bytes" where
  "unloop_xor (x # y # xs) =
     (let a = x XOR last (y # xs) in a # unscan a (y # xs))"
| "unloop_xor xs = xs"

definition enc_ref :: "int \<Rightarrow> bytes \<Rightarrow> bytes" where
  "enc_ref e xs = (if e = 1 then map NOT xs else if e = 2 then swap2 xs
     else if e = 3 then loop_xor xs else xs)"

definition dec_ref :: "int \<Rightarrow> bytes \<Rightarrow> bytes" where
  "dec_ref e xs = (if e = 1 then map NOT xs else if e = 2 then swap2 xs
     else if e = 3 then unloop_xor xs else xs)"

lemma length_scan [simp]: "length (scan a xs) = length xs"
  by (induction a xs rule: scan.induct) auto

lemma length_unscan [simp]: "length (unscan a xs) = length xs"
  by (induction a xs rule: unscan.induct) auto

lemma scan_eq_Nil [simp]: "scan a xs = [] \<longleftrightarrow> xs = []"
  by (cases xs) auto

lemma length_swap2 [simp]: "length (swap2 xs) = length xs"
  by (induction xs rule: swap2.induct) auto

lemma length_enc_ref [simp]: "length (enc_ref e xs) = length xs"
  by (cases xs rule: loop_xor.cases) (auto simp: enc_ref_def Let_def)

lemma length_dec_ref [simp]: "length (dec_ref e xs) = length xs"
  by (cases xs rule: unloop_xor.cases) (auto simp: dec_ref_def Let_def)

lemma swap2_swap2 [simp]: "swap2 (swap2 xs) = xs"
  by (induction xs rule: swap2.induct) auto

lemma unscan_scan [simp]: "unscan a (scan a xs) = xs"
  by (induction a xs rule: scan.induct) auto

lemma scan_unscan [simp]: "scan a (unscan a xs) = xs"
  by (induction a xs rule: unscan.induct) auto

lemma unloop_loop_xor: "unloop_xor (loop_xor xs) = xs"
  by (cases xs rule: loop_xor.cases) (auto simp: Let_def)

lemma loop_unloop_xor: "loop_xor (unloop_xor xs) = xs"
proof (cases xs rule: unloop_xor.cases)
  case (1 x y zs)
  have "scan a ((y XOR a) # unscan y zs) = y # zs" for a
    using scan_unscan [of a "y # zs"] by simp
  with 1 show ?thesis by (simp add: Let_def)
qed auto

lemma dec_enc_ref: "dec_ref e (enc_ref e xs) = xs"
  by (simp add: dec_ref_def enc_ref_def unloop_loop_xor comp_def)

lemma enc_dec_ref: "enc_ref e (dec_ref e xs) = xs"
  by (simp add: dec_ref_def enc_ref_def loop_unloop_xor comp_def)

section \<open>The loops compute the reference functions\<close>

text \<open>
  A body that works on the tail at shifted indices leaves the head alone: this turns an index
  loop into a recursion on the list.
\<close>

lemma forM_shift:
  assumes "\<And>i s. body (Suc i) (x # s) = sbind (body' i s) (\<lambda>s. Inr (x # s))"
  shows "forM body (map Suc is) (x # s) = sbind (forM body' is s) (\<lambda>s. Inr (x # s))"
  by (induction "is" arbitrary: s) (auto simp: assms sbind_assoc intro!: sbind_cong)

lemma upt_Suc_shift: "[0..<Suc n] = 0 # map Suc [0..<n]"
  by (simp add: upt_conv_Cons map_Suc_upt del: upt_Suc)

lemma bit_not_shift: "bit_not_step (Suc i) (x # s) = sbind (bit_not_step i s) (\<lambda>s. Inr (x # s))"
  by (simp add: bit_not_step_def idx_def upd_def)

lemma xor_shift: "xor_step (Suc i) (x # s) = sbind (xor_step i s) (\<lambda>s. Inr (x # s))"
  by (simp add: xor_step_def idx_def upd_def)

lemma rvs_shift: "byte_rvs_step (Suc i) (x # s) = sbind (byte_rvs_step i s) (\<lambda>s. Inr (x # s))"
  by (simp add: byte_rvs_step_def idx_def upd_def)

lemma bit_not_loop:
  "n \<le> length b \<Longrightarrow> forM bit_not_step [0..<n] b = Inr (map NOT (take n b) @ drop n b)"
proof (induction n arbitrary: b)
  case (Suc n)
  then obtain x xs where b: "b = x # xs" "n \<le> length xs" by (cases b) auto
  have "forM bit_not_step [0..<Suc n] b = forM bit_not_step (map Suc [0..<n]) (NOT x # xs)"
    unfolding upt_Suc_shift using b by (simp add: bit_not_step_def del: upt_Suc)
  also have "\<dots> = Inr (map NOT (take (Suc n) b) @ drop (Suc n) b)"
    using Suc.IH [OF b(2)] b by (subst forM_shift [where body' = bit_not_step]) (auto simp: bit_not_shift)
  finally show ?case .
qed simp

lemma xor_loop:
  "n \<le> length xs \<Longrightarrow>
     forM xor_step [0..<n] (x # xs) = Inr (x # scan x (take n xs) @ drop n xs)"
proof (induction n arbitrary: x xs)
  case (Suc n)
  then obtain y ys where xs: "xs = y # ys" "n \<le> length ys" by (cases xs) auto
  have "forM xor_step [0..<Suc n] (x # xs) = forM xor_step (map Suc [0..<n]) (x # (y XOR x) # ys)"
    unfolding upt_Suc_shift using xs by (simp add: xor_step_def del: upt_Suc)
  also have "\<dots> = Inr (x # scan x (take (Suc n) xs) @ drop (Suc n) xs)"
    using Suc.IH [OF xs(2), of "y XOR x"] xs
    by (subst forM_shift [where body' = xor_step]) (auto simp: xor_shift)
  finally show ?case .
qed simp

lemma xor_down_loop:
  "n \<le> length xs \<Longrightarrow>
     forM xor_step (rev [0..<n]) (x # xs) = Inr (x # unscan x (take n xs) @ drop n xs)"
proof (induction n arbitrary: x xs)
  case (Suc n)
  then obtain y ys where xs: "xs = y # ys" "n \<le> length ys" by (cases xs) auto
  have "rev [0..<Suc n] = map Suc (rev [0..<n]) @ [0]"
    by (simp add: upt_Suc_shift rev_map del: upt_Suc)
  then have "forM xor_step (rev [0..<Suc n]) (x # xs)
      = sbind (forM xor_step (map Suc (rev [0..<n])) (x # xs)) (xor_step 0)"
    by (simp only: forM_snoc)
  also have "\<dots> = xor_step 0 (x # y # unscan y (take n ys) @ drop n ys)"
    using Suc.IH [OF xs(2), of y] xs
    by (subst forM_shift [where body' = xor_step]) (auto simp: xor_shift)
  also have "\<dots> = Inr (x # unscan x (take (Suc n) xs) @ drop (Suc n) xs)"
    using xs by (simp add: xor_step_def)
  finally show ?case .
qed simp

lemma evens_Suc_Suc: "evens (Suc (Suc n)) = 0 # map Suc (map Suc (evens n))"
proof -
  have "evens (Suc (Suc n)) = filter even (0 # map Suc (0 # map Suc [0..<n]))"
    by (simp add: evens_def upt_Suc_shift del: upt_Suc)
  also have "\<dots> = 0 # map (\<lambda>i. Suc (Suc i)) (filter even [0..<n])"
    by (simp add: filter_map comp_def)
  finally show ?thesis by (simp add: evens_def comp_def)
qed

lemma rvs_loop_even:
  "2 * k \<le> length b \<Longrightarrow>
     forM byte_rvs_step (evens (2 * k)) b = Inr (swap2 (take (2 * k) b) @ drop (2 * k) b)"
proof (induction k arbitrary: b)
  case 0
  then show ?case by (simp add: evens_def)
next
  case (Suc k)
  then obtain x y xs where b: "b = x # y # xs" "2 * k \<le> length xs"
    by (cases b rule: swap2.cases) auto
  have "forM byte_rvs_step (evens (2 * Suc k)) b
      = forM byte_rvs_step (map Suc (map Suc (evens (2 * k)))) (y # x # xs)"
    using b by (simp add: evens_Suc_Suc byte_rvs_step_def)
  also have "\<dots> = sbind (forM byte_rvs_step (map Suc (evens (2 * k))) (x # xs)) (\<lambda>s. Inr (y # s))"
    by (rule forM_shift) (rule rvs_shift)
  also have "\<dots> = sbind (sbind (forM byte_rvs_step (evens (2 * k)) xs) (\<lambda>s. Inr (x # s)))
      (\<lambda>s. Inr (y # s))"
    by (subst forM_shift [where body' = byte_rvs_step]) (auto simp: rvs_shift)
  finally show ?case using Suc.IH [OF b(2)] b by simp
qed

lemma swap2_odd_tail: "swap2 (take (2 * k) b) @ drop (2 * k) b = swap2 (take (Suc (2 * k)) b) @ drop (Suc (2 * k)) b"
proof (induction k arbitrary: b)
  case 0
  then show ?case by (cases b) auto
next
  case (Suc k)
  then show ?case by (cases b rule: swap2.cases) auto
qed

lemma rvs_loop:
  assumes "n \<le> length b"
  shows "forM byte_rvs_step (evens (if n mod 2 \<noteq> 0 then n - 1 else n)) b
    = Inr (swap2 (take n b) @ drop n b)"
proof (cases "even n")
  case True
  then obtain k where "n = 2 * k" by (rule evenE)
  with assms show ?thesis using rvs_loop_even [of k b] by simp
next
  case False
  then obtain k where "n = Suc (2 * k)" by (auto elim: oddE)
  with assms show ?thesis using rvs_loop_even [of k b] swap2_odd_tail [of k b] by simp
qed

section \<open>The routines compute the reference functions\<close>

text \<open>
  The lengths a call is made with: within the buffer, and not 0 for the exclusive-or ring,
  whose last statement reads index -1 of an empty body.
\<close>

definition codec_ok :: "bytes \<Rightarrow> nat \<Rightarrow> int \<Rightarrow> bool" where
  "codec_ok b n e \<longleftrightarrow> n \<le> length b \<and> (e = ENCODE_LOOP_XOR \<longrightarrow> n \<noteq> 0)"

lemma take_drop_cons2:
  assumes "n \<le> length b" "n \<noteq> 0" "n \<noteq> 1"
  obtains x y ys m where "b = x # y # ys" "n = Suc (Suc m)" "m \<le> length ys"
  using assms by (metis One_nat_def Suc_le_length_iff le_SucE less_Suc0 nat.exhaust not0_implies_Suc
      not_less_eq_eq)

lemma xor_encode_ref:
  assumes "n \<le> length b" "n \<noteq> 0" "n \<noteq> 1"
  shows "sbind (forM xor_step [0..<n - 1] b) (\<lambda>b. xor_ends b n)
    = Inr (loop_xor (take n b) @ drop n b)"
proof -
  obtain x y ys m where b: "b = x # y # ys" "n = Suc (Suc m)" "m \<le> length ys"
    using assms by (rule take_drop_cons2)
  let ?s = "scan x (y # take m ys)"
  have "forM xor_step [0..<n - 1] b = Inr (x # ?s @ drop m ys)"
    using xor_loop [of "Suc m" "y # ys" x] b by (simp del: upt_Suc)
  moreover have "(x # ?s @ drop m ys) ! Suc m = last ?s"
    using b(3) by (simp add: last_conv_nth nth_append del: scan.simps)
  ultimately show ?thesis
    using b by (simp add: xor_ends_def Let_def del: scan.simps upt_Suc)
qed

lemma xor_decode_ref:
  assumes "n \<le> length b" "n \<noteq> 0" "n \<noteq> 1"
  shows "sbind (xor_ends b n) (\<lambda>b. forM (\<lambda>i. xor_step (i - 1)) (rev [1..<n]) b)
    = Inr (unloop_xor (take n b) @ drop n b)"
proof -
  obtain x y ys m where b: "b = x # y # ys" "n = Suc (Suc m)" "m \<le> length ys"
    using assms by (rule take_drop_cons2)
  let ?a = "x XOR last (y # take m ys)"
  have "last (y # take m ys) = (y # ys) ! m"
    using b(3) by (cases m) (auto simp: last_conv_nth min_def)
  then have ends: "xor_ends b n = Inr (?a # y # ys)"
    using b by (simp add: xor_ends_def)
  have shift: "forM (\<lambda>i. xor_step (i - 1)) (map Suc is) s = forM xor_step is s" for "is" s
    by (induction "is" arbitrary: s) (auto intro!: sbind_cong)
  have "rev [1..<n] = map Suc (rev [0..<Suc m])"
    by (simp only: b(2) One_nat_def rev_map flip: map_Suc_upt)
  then have loop: "forM (\<lambda>i. xor_step (i - 1)) (rev [1..<n]) (?a # y # ys)
      = Inr (?a # unscan ?a (y # take m ys) @ drop m ys)"
    using xor_down_loop [of "Suc m" "y # ys" ?a] b by (simp only: shift) simp
  have "sbind (xor_ends b n) (\<lambda>b. forM (\<lambda>i. xor_step (i - 1)) (rev [1..<n]) b)
      = Inr (?a # unscan ?a (y # take m ys) @ drop m ys)"
    by (simp only: ends sbind.simps loop)
  also have "\<dots> = Inr (unloop_xor (take n b) @ drop n b)"
    using b by (simp add: Let_def)
  finally show ?thesis .
qed

lemma CodecEncode_eq:
  "codec_ok b n e \<Longrightarrow> CodecEncode b n e = Inr (enc_ref e (take n b) @ drop n b)"
  using bit_not_loop [of n b] rvs_loop [of n b] xor_encode_ref [of n b]
  by (cases b) (auto simp: CodecEncode_def enc_ref_def codec_ok_def Let_def)

lemma CodecDecode_eq:
  "codec_ok b n e \<Longrightarrow> CodecDecode b n e = Inr (dec_ref e (take n b) @ drop n b)"
  using bit_not_loop [of n b] rvs_loop [of n b] xor_decode_ref [of n b]
  by (cases b) (auto simp: CodecDecode_def dec_ref_def codec_ok_def Let_def)

text \<open>Outside \<open>codec_ok\<close> the exclusive-or ring panics on an empty body.\<close>

lemma CodecEncode_xor_0 [panic_simps]: "CodecEncode b 0 ENCODE_LOOP_XOR = Inl IndexOutOfRange"
  by (simp add: CodecEncode_def xor_ends_def)

lemma CodecDecode_xor_0 [panic_simps]: "CodecDecode b 0 ENCODE_LOOP_XOR = Inl IndexOutOfRange"
  by (simp add: CodecDecode_def xor_ends_def)

section \<open>The interface the framing uses\<close>

text \<open>
  What \<^verbatim>\<open>binary.go\<close>, \<^verbatim>\<open>json.go\<close> and the read loop of the comet need of the pair: on an
  admissible body the encoder and the decoder return, change the first \<open>n\<close> bytes only, and
  the decoder undoes the encoder.
\<close>

locale body_codec =
  fixes enc dec :: "bytes \<Rightarrow> nat \<Rightarrow> int \<Rightarrow> gopanic + bytes"
    and ok :: "bytes \<Rightarrow> nat \<Rightarrow> int \<Rightarrow> bool"
  assumes enc_returns: "ok b n e \<Longrightarrow> \<exists>b'. enc b n e = Inr b' \<and> length b' = length b \<and> drop n b' = drop n b"
    and dec_enc: "ok b n e \<Longrightarrow> enc b n e = Inr b' \<Longrightarrow> dec b' n e = Inr b"
    and ok_extend: "ok b (length b) e \<Longrightarrow> enc b (length b) e = Inr b' \<Longrightarrow> enc (b @ c) (length b) e = Inr (b' @ c)"
begin

lemma enc_obtain:
  assumes "ok b n e"
  obtains b' where "enc b n e = Inr b'" "length b' = length b" "dec b' n e = Inr b"
  using enc_returns [OF assms] dec_enc [OF assms] by blast

lemma enc_inj:
  assumes "ok b n e" "ok c n e" "enc b n e = enc c n e"
  shows "b = c"
  using assms by (metis enc_obtain sum.inject(2))

end

interpretation body: body_codec CodecEncode CodecDecode codec_ok
proof unfold_locales
  fix b n e b'
  assume ok: "codec_ok b n e"
  then show "\<exists>b'. CodecEncode b n e = Inr b' \<and> length b' = length b \<and> drop n b' = drop n b"
    by (auto simp: CodecEncode_eq codec_ok_def)
  assume "CodecEncode b n e = Inr b'"
  with ok have "b' = enc_ref e (take n b) @ drop n b" by (simp add: CodecEncode_eq)
  moreover from this ok have "codec_ok b' n e" by (auto simp: codec_ok_def)
  ultimately show "CodecDecode b' n e = Inr b"
    using ok by (simp add: CodecDecode_eq dec_enc_ref codec_ok_def)
next
  fix b e b' c
  assume "codec_ok b (length b) e" "CodecEncode b (length b) e = Inr b'"
  then show "CodecEncode (b @ c) (length b) e = Inr (b' @ c)"
    by (subst CodecEncode_eq) (auto simp: CodecEncode_eq codec_ok_def)
qed

section \<open>Properties\<close>

text \<open>C1: on a body of n bytes inside its buffer, not empty when the encoding is the exclusive-or
  ring, \<^verbatim>\<open>CodecEncode\<close> returns, keeps the length and every byte after the body, and
  \<^verbatim>\<open>CodecDecode\<close> restores the whole buffer, for each of the encodings and for values that
  are no encoding.\<close>

theorem codec_roundtrip:
  assumes "n \<le> length b" "e = ENCODE_LOOP_XOR \<Longrightarrow> n \<noteq> 0"
  shows "\<exists>b'. CodecEncode b n e = Inr b' \<and> length b' = length b \<and> drop n b' = drop n b \<and>
    CodecDecode b' n e = Inr b"
proof -
  have "codec_ok b n e" using assms by (simp add: codec_ok_def)
  then show ?thesis using body.enc_returns body.dec_enc by blast
qed

theorem codec_roundtrip_witness:
  "\<exists>b'. CodecEncode [1, 2, 3, 9] 3 ENCODE_LOOP_XOR = Inr b' \<and> length b' = length [1, 2, 3, 9::byte] \<and>
    drop 3 b' = drop 3 [1, 2, 3, 9] \<and> CodecDecode b' 3 ENCODE_LOOP_XOR = Inr [1, 2, 3, 9]"
  by (rule codec_roundtrip) simp_all

text \<open>C2: the index loops of \<^verbatim>\<open>CodecEncode\<close> and \<^verbatim>\<open>CodecDecode\<close> compute, on the first n
  bytes, the list functions one would write down as the meaning of the encodings (complement,
  swap of neighbours, running exclusive or closed into a ring and its inverse), and nothing
  else in the buffer. The only call within the buffer that panics is the ring on an empty body:
  its last, respectively first, statement reads index -1.\<close>

theorem codec_loops_compute_reference:
  assumes "n \<le> length b"
  shows "CodecEncode b n e =
      (if e = ENCODE_LOOP_XOR \<and> n = 0 then Inl IndexOutOfRange else Inr (enc_ref e (take n b) @ drop n b)) \<and>
    CodecDecode b n e =
      (if e = ENCODE_LOOP_XOR \<and> n = 0 then Inl IndexOutOfRange else Inr (dec_ref e (take n b) @ drop n b))"
proof (cases "e = ENCODE_LOOP_XOR \<and> n = 0")
  case False
  then have "codec_ok b n e" using assms by (auto simp: codec_ok_def)
  with False show ?thesis by (simp add: CodecEncode_eq CodecDecode_eq)
qed (use CodecEncode_xor_0 [of b] CodecDecode_xor_0 [of b] in auto)

theorem codec_loops_compute_reference_witness:
  "CodecEncode [1, 2, 3] 3 2 = Inr (enc_ref 2 (take 3 [1, 2, 3]) @ drop 3 [1, 2, 3]) \<and>
   CodecDecode [1, 2, 3] 0 3 = Inl IndexOutOfRange"
  using codec_loops_compute_reference [of 3 "[1, 2, 3]" 2] codec_loops_compute_reference [of 0 "[1, 2, 3]" 3]
  by simp

end
