(* ===== verification/Binary.thy ===== *)
theory Binary
  imports Codec
begin

text \<open>
  \<^verbatim>\<open>src/internal/protocol/binary.go\<close>: big-endian serialisation of the wire structs
  (\<^verbatim>\<open>encoding/binary\<close> with \<^verbatim>\<open>BigEndian\<close>), the decoders, and \<^verbatim>\<open>packBinary\<close>, which
  frames a message: fixed header, length, encoded body. \<^verbatim>\<open>binary.Read\<close> fills a value of
  fixed size or fails with \<open>EOF\<close> (no input) or \<open>UnexpectedEOF\<close> (too little input), and
  ignores what follows.
\<close>

section \<open>Big-endian integers\<close>

definition be16 :: "u16 \<Rightarrow> bytes" where
  "be16 w = [ucast (drop_bit 8 w), ucast w]"

definition be32 :: "u32 \<Rightarrow> bytes" where
  "be32 w = [ucast (drop_bit 24 w), ucast (drop_bit 16 w), ucast (drop_bit 8 w), ucast w]"

fun rd16 :: "bytes \<Rightarrow> u16" where
  "rd16 [a, b] = push_bit 8 (ucast a) OR ucast b"
| "rd16 _ = 0"

fun rd32 :: "bytes \<Rightarrow> u32" where
  "rd32 [a, b, c, d] =
     push_bit 24 (ucast a) OR push_bit 16 (ucast b) OR push_bit 8 (ucast c) OR ucast d"
| "rd32 _ = 0"

lemma length_be [simp]: "length (be16 w) = 2" "length (be32 v) = 4"
  by (simp_all add: be16_def be32_def)

lemma rd16_be16 [simp]: "rd16 (be16 w) = w"
  by (rule bit_word_eqI) (auto simp: be16_def bit_simps)

lemma rd32_be32 [simp]: "rd32 (be32 w) = w"
proof (rule bit_word_eqI)
  fix n
  assume "n < LENGTH(32)"
  then consider "n < 8" | "8 \<le> n" "n < 16" | "16 \<le> n" "n < 24" | "24 \<le> n" "n < 32"
    by fastforce
  then show "bit (rd32 (be32 w)) n = bit w n"
    by cases (auto simp: be32_def bit_simps)
qed

section \<open>Encoders\<close>

definition EncodeHeader :: "Header \<Rightarrow> bytes" where
  "EncodeHeader head = Line head # be32 (Tid head)"

definition EncodeAddHeader :: "AddHeader \<Rightarrow> bytes" where
  "EncodeAddHeader addhead = be32 (Len addhead)"

definition EncodeParamReg :: "ParamReg \<Rightarrow> bytes" where
  "EncodeParamReg reg = Version reg # TerminalType reg # RegId reg @ RegToken reg"

definition EncodeParamPush :: "ParamPush \<Rightarrow> bytes" where
  "EncodeParamPush msg = be16 (Offline msg) @ [Flag msg]"

definition EncodeParamResp :: "ParamResp \<Rightarrow> bytes" where
  "EncodeParamResp msg = [Code msg]"

lemma length_Encode [simp]:
  "length (EncodeHeader h) = 5" "length (EncodeAddHeader ah) = 4"
  "length (EncodeParamPush pp) = 3" "length (EncodeParamResp pr) = 1"
  by (simp_all add: EncodeHeader_def EncodeAddHeader_def EncodeParamPush_def EncodeParamResp_def)

lemma length_EncodeParamReg [simp]: "wf_ParamReg r \<Longrightarrow> length (EncodeParamReg r) = 66"
  by (simp add: EncodeParamReg_def wf_ParamReg_def)

section \<open>Decoders\<close>

datatype ioerr = EOF | UnexpectedEOF

definition readFixed :: "nat \<Rightarrow> bytes \<Rightarrow> (bytes \<Rightarrow> 'a) \<Rightarrow> ioerr + 'a" where
  "readFixed n data f =
     (if data = [] then Inl EOF
      else if length data < n then Inl UnexpectedEOF
      else Inr (f (take n data)))"

definition DecodeHeader :: "bytes \<Rightarrow> ioerr + Header" where
  "DecodeHeader data = readFixed 5 data (\<lambda>b. \<lparr>Line = b ! 0, Tid = rd32 (drop 1 b)\<rparr>)"

definition DecodeAddHeader :: "bytes \<Rightarrow> ioerr + AddHeader" where
  "DecodeAddHeader data = readFixed 4 data (\<lambda>b. \<lparr>Len = rd32 b\<rparr>)"

definition DecodeParamReg :: "bytes \<Rightarrow> ioerr + ParamReg" where
  "DecodeParamReg data = readFixed 66 data
     (\<lambda>b. \<lparr>Version = b ! 0, TerminalType = b ! 1, RegId = take 32 (drop 2 b), RegToken = drop 34 b\<rparr>)"

definition DecodeParamPush :: "bytes \<Rightarrow> ioerr + ParamPush" where
  "DecodeParamPush data = readFixed 3 data (\<lambda>b. \<lparr>Offline = rd16 (take 2 b), Flag = b ! 2\<rparr>)"

definition DecodeParamResp :: "bytes \<Rightarrow> ioerr + ParamResp" where
  "DecodeParamResp data = readFixed 1 data (\<lambda>b. \<lparr>Code = b ! 0\<rparr>)"

lemma readFixed_append:
  "length b = n \<Longrightarrow> n \<noteq> 0 \<Longrightarrow> readFixed n (b @ c) f = Inr (f b)"
  by (auto simp: readFixed_def)

lemma DecodeHeader_Encode [simp]: "DecodeHeader (EncodeHeader h @ c) = Inr h"
  unfolding DecodeHeader_def by (subst readFixed_append) (auto simp: EncodeHeader_def)

lemma DecodeAddHeader_Encode [simp]: "DecodeAddHeader (EncodeAddHeader ah @ c) = Inr ah"
  unfolding DecodeAddHeader_def by (subst readFixed_append) (auto simp: EncodeAddHeader_def)

lemma DecodeParamReg_Encode [simp]:
  "wf_ParamReg r \<Longrightarrow> DecodeParamReg (EncodeParamReg r @ c) = Inr r"
  unfolding DecodeParamReg_def
  by (subst readFixed_append) (auto simp: EncodeParamReg_def wf_ParamReg_def)

lemma DecodeParamPush_Encode [simp]: "DecodeParamPush (EncodeParamPush pp @ c) = Inr pp"
  unfolding DecodeParamPush_def
  by (subst readFixed_append) (auto simp: EncodeParamPush_def nth_append)

lemma DecodeParamResp_Encode [simp]: "DecodeParamResp (EncodeParamResp pr @ c) = Inr pr"
  unfolding DecodeParamResp_def by (subst readFixed_append) (auto simp: EncodeParamResp_def)

lemmas Decode_Encode_full [simp] =
  DecodeHeader_Encode [where c = "[]", simplified]
  DecodeAddHeader_Encode [where c = "[]", simplified]
  DecodeParamReg_Encode [where c = "[]", simplified]
  DecodeParamPush_Encode [where c = "[]", simplified]
  DecodeParamResp_Encode [where c = "[]", simplified]

text \<open>Decoders of a struct with arrays produce arrays of the declared length.\<close>

lemma DecodeParamReg_wf: "DecodeParamReg data = Inr r \<Longrightarrow> wf_ParamReg r"
  by (auto simp: DecodeParamReg_def readFixed_def wf_ParamReg_def split: if_splits)

section \<open>Buffer helpers\<close>

definition CheckBuffer :: "bytes \<Rightarrow> int \<Rightarrow> string + unit" where
  "CheckBuffer buffer m =
     (if int (length buffer) < m then Inl ''NOT RIGHT FORMAT'' else Inr ())"

definition ShiftBuffer :: "bytes \<Rightarrow> int \<Rightarrow> gopanic + bytes" where
  "ShiftBuffer buffer n =
     (if n < 0 \<or> int (length buffer) < n then Inl SliceBounds else Inr (drop (nat n) buffer))"

text \<open>A successful check is what makes the shift safe.\<close>

lemma CheckBuffer_ShiftBuffer:
  "0 \<le> n \<Longrightarrow> CheckBuffer b n = Inr u \<Longrightarrow> \<exists>c. ShiftBuffer b n = Inr c \<and> int (length c) = int (length b) - n"
  by (auto simp: CheckBuffer_def ShiftBuffer_def split: if_splits)

section \<open>packBinary\<close>

text \<open>
  Every branch appends the serialised parts and then runs
  \<^verbatim>\<open>CodecEncode(buf[HEADER_LEN:], int(msg.Len), GetEncode(&msg.Header))\<close>, which updates
  the tail of \<^verbatim>\<open>buf\<close> in place.
\<close>

definition encodeTail :: "bytes \<Rightarrow> AddHeader \<Rightarrow> Header \<Rightarrow> gopanic + bytes" where
  "encodeTail buf ah h =
     sbind (CodecEncode (drop HEADER_LEN buf) (unat (Len ah)) (GetEncode h))
       (\<lambda>b. Inr (take HEADER_LEN buf @ b))"

fun packBinary :: "message \<Rightarrow> gopanic + bytes" where
  "packBinary (MRegister h ah r) =
     encodeTail (EncodeHeader h @ EncodeAddHeader ah @ EncodeParamReg r) ah h"
| "packBinary (MPush h ah p msg) =
     encodeTail (EncodeHeader h @ EncodeAddHeader ah @ EncodeParamPush p @ msg) ah h"
| "packBinary (MCallback h ah msg) =
     encodeTail (EncodeHeader h @ EncodeAddHeader ah @ msg) ah h"
| "packBinary (MImDown h ah flag msg) =
     encodeTail (EncodeHeader h @ EncodeAddHeader ah @ [flag] @ msg) ah h"
| "packBinary (MImUp h ah msg) =
     encodeTail (EncodeHeader h @ EncodeAddHeader ah @ msg) ah h"
| "packBinary (MResp h ah p) =
     encodeTail (EncodeHeader h @ EncodeAddHeader ah @ EncodeParamResp p) ah h"
| "packBinary (MKick h ah reason) =
     encodeTail (EncodeHeader h @ EncodeAddHeader ah @ [reason]) ah h"
| "packBinary (MHeader h) = Inr (EncodeHeader h)"

text \<open>Header and body of a message, the body as it is before encoding.\<close>

fun msg_header :: "message \<Rightarrow> Header" where
  "msg_header (MRegister h ah r) = h"
| "msg_header (MPush h ah p msg) = h"
| "msg_header (MCallback h ah msg) = h"
| "msg_header (MImDown h ah flag msg) = h"
| "msg_header (MImUp h ah msg) = h"
| "msg_header (MResp h ah p) = h"
| "msg_header (MKick h ah reason) = h"
| "msg_header (MHeader h) = h"

fun msg_body :: "message \<Rightarrow> (AddHeader \<times> bytes) option" where
  "msg_body (MRegister h ah r) = Some (ah, EncodeParamReg r)"
| "msg_body (MPush h ah p msg) = Some (ah, EncodeParamPush p @ msg)"
| "msg_body (MCallback h ah msg) = Some (ah, msg)"
| "msg_body (MImDown h ah flag msg) = Some (ah, [flag] @ msg)"
| "msg_body (MImUp h ah msg) = Some (ah, msg)"
| "msg_body (MResp h ah p) = Some (ah, EncodeParamResp p)"
| "msg_body (MKick h ah reason) = Some (ah, [reason])"
| "msg_body (MHeader h) = None"

text \<open>
  A message is framed correctly when its length field is the length of its body, arrays have
  their size, and the body is not empty under the exclusive-or ring.
\<close>

definition wf_message :: "message \<Rightarrow> bool" where
  "wf_message m \<longleftrightarrow>
     (case msg_body m of None \<Rightarrow> True
      | Some (ah, body) \<Rightarrow> unat (Len ah) = length body \<and>
          codec_ok body (length body) (GetEncode (msg_header m))) \<and>
     (case m of MRegister _ _ r \<Rightarrow> wf_ParamReg r | _ \<Rightarrow> True)"

lemma encodeTail_frame:
  "encodeTail (EncodeHeader h @ EncodeAddHeader ah @ body) ah h =
     sbind (CodecEncode body (unat (Len ah)) (GetEncode h))
       (\<lambda>b. Inr (EncodeHeader h @ EncodeAddHeader ah @ b))"
  by (simp add: encodeTail_def)

lemma packBinary_body:
  "msg_body m = Some (ah, body) \<Longrightarrow>
     packBinary m = sbind (CodecEncode body (unat (Len ah)) (GetEncode (msg_header m)))
       (\<lambda>b. Inr (EncodeHeader (msg_header m) @ EncodeAddHeader ah @ b))"
  by (cases m) (auto simp: encodeTail_frame)

text \<open>A framed message: 9 bytes of header, then a body that decodes to the original body.\<close>

lemma packBinary_frame:
  assumes "wf_message m" "msg_body m = Some (ah, body)"
  obtains b where
    "packBinary m = Inr (EncodeHeader (msg_header m) @ EncodeAddHeader ah @ b)"
    "length b = length body" "unat (Len ah) = length body"
    "CodecDecode b (length body) (GetEncode (msg_header m)) = Inr body"
proof -
  from assms have len: "unat (Len ah) = length body"
    and ok: "codec_ok body (length body) (GetEncode (msg_header m))"
    by (auto simp: wf_message_def)
  from ok obtain b where "CodecEncode body (length body) (GetEncode (msg_header m)) = Inr b"
      "length b = length body" "CodecDecode b (length body) (GetEncode (msg_header m)) = Inr body"
    by (rule body.enc_obtain)
  with len packBinary_body [OF assms(2)] that show thesis by simp
qed

section \<open>Properties\<close>

text \<open>C3: \<^verbatim>\<open>packBinary\<close> frames a well-formed message as fixed header, length and encoded body, and
  the three decoding steps of a reader recover header, length field and body from the bytes,
  for every message type and every encoding.\<close>

theorem packBinary_roundtrip:
  assumes "wf_message m" "msg_body m = Some (ah, body)"
  shows "\<exists>w. packBinary m = Inr w \<and> length w = HEADER_LEN + length body \<and>
    DecodeHeader (take 5 w) = Inr (msg_header m) \<and> DecodeAddHeader (take 4 (drop 5 w)) = Inr ah \<and>
    CodecDecode (drop HEADER_LEN w) (unat (Len ah)) (GetEncode (msg_header m)) = Inr body"
proof -
  from assms obtain b where
    "packBinary m = Inr (EncodeHeader (msg_header m) @ EncodeAddHeader ah @ b)"
    "length b = length body" "unat (Len ah) = length body"
    "CodecDecode b (length body) (GetEncode (msg_header m)) = Inr body"
    by (rule packBinary_frame)
  then show ?thesis by auto
qed

theorem packBinary_roundtrip_witness:
  "\<exists>w. packBinary (MCallback \<lparr>Line = 0x47, Tid = 258\<rparr> \<lparr>Len = 2\<rparr> [1, 2]) = Inr w \<and>
    length w = HEADER_LEN + length [1, 2::byte] \<and>
    DecodeHeader (take 5 w) = Inr (msg_header (MCallback \<lparr>Line = 0x47, Tid = 258\<rparr> \<lparr>Len = 2\<rparr> [1, 2])) \<and>
    DecodeAddHeader (take 4 (drop 5 w)) = Inr \<lparr>Len = 2\<rparr> \<and>
    CodecDecode (drop HEADER_LEN w) (unat (Len \<lparr>Len = 2\<rparr>))
      (GetEncode (msg_header (MCallback \<lparr>Line = 0x47, Tid = 258\<rparr> \<lparr>Len = 2\<rparr> [1, 2]))) = Inr [1, 2]"
  by (rule packBinary_roundtrip) (simp_all add: wf_message_def codec_ok_def)

text \<open>The five decoders fail exactly on input shorter than their struct, with \<^verbatim>\<open>EOF\<close> when
  there is none at all and \<^verbatim>\<open>ErrUnexpectedEOF\<close> otherwise; extra input is ignored.\<close>

theorem decoders_fail_on_short_input:
  "(DecodeHeader d = Inl err \<longleftrightarrow> length d < 5 \<and> err = (if d = [] then EOF else UnexpectedEOF)) \<and>
   (DecodeAddHeader d = Inl err \<longleftrightarrow> length d < 4 \<and> err = (if d = [] then EOF else UnexpectedEOF)) \<and>
   (DecodeParamReg d = Inl err \<longleftrightarrow> length d < 66 \<and> err = (if d = [] then EOF else UnexpectedEOF)) \<and>
   (DecodeParamPush d = Inl err \<longleftrightarrow> length d < 3 \<and> err = (if d = [] then EOF else UnexpectedEOF)) \<and>
   (DecodeParamResp d = Inl err \<longleftrightarrow> length d < 1 \<and> err = (if d = [] then EOF else UnexpectedEOF))"
  by (auto simp: DecodeHeader_def DecodeAddHeader_def DecodeParamReg_def DecodeParamPush_def
      DecodeParamResp_def readFixed_def)

text \<open>\<^verbatim>\<open>ShiftBuffer\<close> panics exactly when the shift is negative or longer than the buffer, and
  \<^verbatim>\<open>CheckBuffer\<close> is the guard for it: after a check that passes, a non-negative shift drops
  exactly that many bytes, and the parts it separates make up the buffer.\<close>

theorem checked_shift_is_safe:
  assumes "CheckBuffer b n = Inr u" "0 \<le> n"
  shows "\<exists>c. ShiftBuffer b n = Inr c \<and> b = take (nat n) b @ c \<and> int (length c) = int (length b) - n"
  using assms by (auto simp: CheckBuffer_def ShiftBuffer_def split: if_splits)

theorem checked_shift_is_safe_witness:
  "\<exists>c. ShiftBuffer [1, 2, 3] 2 = Inr c \<and> [1, 2, 3] = take (nat 2) [1, 2, 3] @ c \<and>
    int (length c) = int (length [1, 2, 3::byte]) - 2"
  by (rule checked_shift_is_safe [where u = "()"]) (simp_all add: CheckBuffer_def)

end
