(* ===== verification/Tcp.thy ===== *)
theory Tcp
  imports Binary
begin

text \<open>
  The read loop of a TCP client, \<^verbatim>\<open>handleTcpConn\<close> of \<^verbatim>\<open>src/comet/tcp.go\<close>, and
  \<^verbatim>\<open>readTimeout\<close> of \<^verbatim>\<open>util.go\<close>.

  What the network delivers is a list of events: a chunk of bytes that one \<^verbatim>\<open>Read\<close> can
  see, or an error (end of stream, reset, deadline). \<^verbatim>\<open>conn.Read\<close> fills at most the buffer
  and at most what has arrived, and the caller does not look at the count: a short read leaves
  zeros at the end of the buffer.
\<close>

datatype netev = Data bytes | ReadErr

definition MAX_MSG_LEN :: nat where [simp]: "MAX_MSG_LEN = 1024 * 1024 * 10"

fun readTimeout :: "nat \<Rightarrow> netev list \<Rightarrow> bytes option \<times> netev list" where
  "readTimeout 0 ns = (Some [], ns)"
| "readTimeout (Suc n) [] = (None, [])"
| "readTimeout (Suc n) (ReadErr # ns) = (None, ns)"
| "readTimeout (Suc n) (Data b # ns) =
     (if length b \<le> Suc n then (Some (b @ replicate (Suc n - length b) 0), ns)
      else (Some (take (Suc n) b), Data (drop (Suc n) b) # ns))"

text \<open>Why the loop ended: the causes for which \<^verbatim>\<open>handleTcpConn\<close> returns, or a panic.\<close>

datatype stop = ReadFailed | BadHeader | BadMsgType | BadLen | BadBody | Panicked gopanic

fun evsize :: "netev \<Rightarrow> nat" where
  "evsize (Data b) = Suc (length b)"
| "evsize ReadErr = 1"

definition insize :: "netev list \<Rightarrow> nat" where
  "insize ns = sum_list (map evsize ns)"

lemma readTimeout_insize:
  "insize (snd (readTimeout n ns)) \<le> insize ns"
  "fst (readTimeout (Suc n) ns) = Some b \<Longrightarrow> insize (snd (readTimeout (Suc n) ns)) < insize ns"
proof -
  show "insize (snd (readTimeout n ns)) \<le> insize ns"
    by (cases "(n, ns)" rule: readTimeout.cases) (auto simp: insize_def)
  show "fst (readTimeout (Suc n) ns) = Some b \<Longrightarrow> insize (snd (readTimeout (Suc n) ns)) < insize ns"
    by (cases "(Suc n, ns)" rule: readTimeout.cases) (auto simp: insize_def split: if_splits)
qed

text \<open>
  The body of a message, read and decrypted, with the branches that share the same steps; a
  \<open>None\<close> inside is a message type whose body is thrown away.
\<close>

definition readBody :: "Header \<Rightarrow> AddHeader \<Rightarrow> netev list \<Rightarrow>
    (stop + message option) \<times> netev list" where
  "readBody h ah ns =
     (let msgType = GetMsgType h in
      if msgType = MSGTYPE_KICKRESP then
        (case readTimeout (unat (Len ah)) ns of
           (None, ns) \<Rightarrow> (Inl ReadFailed, ns) | (Some _, ns) \<Rightarrow> (Inr None, ns))
      else if msgType \<in> {MSGTYPE_PUSHRESP, MSGTYPE_CBRESP, MSGTYPE_MSGRESP, MSGTYPE_REGISTER,
          MSGTYPE_MESSAGE} then
        (case readTimeout (unat (Len ah)) ns of
           (None, ns) \<Rightarrow> (Inl ReadFailed, ns)
         | (Some buffer, ns) \<Rightarrow>
             (case CodecDecode buffer (unat (Len ah)) (GetEncode h) of
                Inl panic \<Rightarrow> (Inl (Panicked panic), ns)
              | Inr buffer \<Rightarrow>
                  if msgType = MSGTYPE_REGISTER then
                    (case DecodeParamReg buffer of
                       Inl err \<Rightarrow> (Inl BadBody, ns)
                     | Inr param \<Rightarrow> (Inr (Some (MRegister h ah param)), ns))
                  else if msgType = MSGTYPE_MESSAGE then (Inr (Some (MImUp h ah buffer)), ns)
                  else
                    (case DecodeParamResp buffer of
                       Inl err \<Rightarrow> (Inl BadBody, ns)
                     | Inr param \<Rightarrow> (Inr (Some (MResp h ah param)), ns))))
      else (Inl BadMsgType, ns))"

text \<open>
  \<^verbatim>\<open>handleTcpConn\<close>: the messages it hands to \<^verbatim>\<open>Cache\<close>, in order, and why it stops.
\<close>

lemma readBody_insize: "insize (snd (readBody h ah ns)) \<le> insize ns"
  using readTimeout_insize(1) [of "unat (Len ah)" ns]
  by (auto simp: readBody_def Let_def split: prod.splits option.splits sum.splits)

function handleTcpConn :: "netev list \<Rightarrow> message list \<times> stop" where
  "handleTcpConn ns =
     (case readTimeout FIX_HEADER_LEN ns of
        (None, ns1) \<Rightarrow> ([], ReadFailed)
      | (Some buffer, ns1) \<Rightarrow>
          (case DecodeHeader buffer of
             Inl err \<Rightarrow> ([], BadHeader)
           | Inr h \<Rightarrow>
               if GetMsgType h = MSGTYPE_DEFAULT \<or> GetMsgType h \<ge> MSGTYPE_MAX then ([], BadMsgType)
               else if GetMsgType h = MSGTYPE_HEARTBEAT then
                 (let (ms, why) = handleTcpConn ns1 in (MHeader h # ms, why))
               else
                 (case readTimeout ADD_HEADER_LEN ns1 of
                    (None, ns2) \<Rightarrow> ([], ReadFailed)
                  | (Some buffer, ns2) \<Rightarrow>
                      (case DecodeAddHeader buffer of
                         Inl err \<Rightarrow> ([], BadHeader)
                       | Inr ah \<Rightarrow>
                           if unat (Len ah) > MAX_MSG_LEN then ([], BadLen)
                           else
                             (case readBody h ah ns2 of
                                (Inl why, ns3) \<Rightarrow> ([], why)
                              | (Inr None, ns3) \<Rightarrow> handleTcpConn ns3
                              | (Inr (Some m), ns3) \<Rightarrow>
                                  (let (ms, why) = handleTcpConn ns3 in (m # ms, why)))))))"
  by pat_completeness auto

lemma five_four: "FIX_HEADER_LEN = Suc 4" "ADD_HEADER_LEN = Suc 3"
  by simp_all

lemma header_progress:
  assumes "readTimeout FIX_HEADER_LEN ns = (Some b, ns1)"
  shows "insize ns1 < insize ns"
  using readTimeout_insize(2) [of 4 ns b] assms by (simp add: five_four)

lemma rest_progress:
  assumes "readTimeout FIX_HEADER_LEN ns = (Some b, ns1)"
    and "readTimeout ADD_HEADER_LEN ns1 = (a, ns2)" and "readBody h ah ns2 = (m, ns3)"
  shows "insize ns3 < insize ns"
  using header_progress [OF assms(1)] readTimeout_insize(1) [of ADD_HEADER_LEN ns1]
    readBody_insize [of h ah ns2] assms(2,3) by simp

termination handleTcpConn
  by (relation "measure insize")
    (simp, metis header_progress in_measure, (metis rest_progress in_measure)+)

declare handleTcpConn.simps [simp del]

section \<open>Whole frames\<close>

text \<open>
  The messages a client may send: the types the loop accepts, each with its own struct,
  framed correctly and within the size limit. Of these the answer to a kick is read and
  dropped.
\<close>

fun uplinkType :: "message \<Rightarrow> bool" where
  "uplinkType (MHeader h) \<longleftrightarrow> GetMsgType h = MSGTYPE_HEARTBEAT"
| "uplinkType (MRegister h ah r) \<longleftrightarrow> GetMsgType h = MSGTYPE_REGISTER"
| "uplinkType (MImUp h ah msg) \<longleftrightarrow> GetMsgType h = MSGTYPE_MESSAGE"
| "uplinkType (MResp h ah p) \<longleftrightarrow>
     GetMsgType h \<in> {MSGTYPE_PUSHRESP, MSGTYPE_CBRESP, MSGTYPE_MSGRESP, MSGTYPE_KICKRESP}"
| "uplinkType m \<longleftrightarrow> False"

definition uplink :: "message \<Rightarrow> bool" where
  "uplink m \<longleftrightarrow> uplinkType m \<and> wf_message m \<and>
     (case msg_body m of None \<Rightarrow> True | Some (ah, body) \<Rightarrow> length body \<le> MAX_MSG_LEN)"

definition delivered :: "message \<Rightarrow> bool" where
  "delivered m \<longleftrightarrow> GetMsgType (msg_header m) \<noteq> MSGTYPE_KICKRESP"

definition frame :: "message \<Rightarrow> bytes" where
  "frame m = (case packBinary m of Inl p \<Rightarrow> [] | Inr w \<Rightarrow> w)"

definition wire :: "message list \<Rightarrow> bytes" where
  "wire ms = concat (map frame ms)"

text \<open>What is left of a chunk, in front of the later events.\<close>

definition left :: "bytes \<Rightarrow> netev list \<Rightarrow> netev list" where
  "left c ns = (if c = [] then ns else Data c # ns)"

lemma readTimeout_left:
  "length a = n \<Longrightarrow> readTimeout n (left (a @ c) ns) = (Some a, left c ns)"
  by (cases n) (auto simp: left_def)

lemma fixed_header_read:
  "readTimeout FIX_HEADER_LEN (left (EncodeHeader h @ c) ns) = (Some (EncodeHeader h), left c ns)"
  by (rule readTimeout_left) simp

lemma add_header_read:
  "readTimeout ADD_HEADER_LEN (left (EncodeAddHeader ah @ c) ns) = (Some (EncodeAddHeader ah), left c ns)"
  by (rule readTimeout_left) simp

lemma frame_body:
  assumes "wf_message m" "msg_body m = Some (ah, body)"
  obtains b where "frame m = EncodeHeader (msg_header m) @ EncodeAddHeader ah @ b"
    "unat (Len ah) = length b" "length b = length body"
    "CodecDecode b (length b) (GetEncode (msg_header m)) = Inr body"
proof -
  obtain b where "packBinary m = Inr (EncodeHeader (msg_header m) @ EncodeAddHeader ah @ b)"
    "length b = length body" "unat (Len ah) = length body"
    "CodecDecode b (length body) (GetEncode (msg_header m)) = Inr body"
    using packBinary_frame [OF assms] .
  then show thesis using that [of b] by (simp add: frame_def)
qed

lemma readBody_frame:
  assumes "uplink m" "msg_body m = Some (ah, body)" "unat (Len ah) = length b"
    and "CodecDecode b (length b) (GetEncode (msg_header m)) = Inr body"
  shows "readBody (msg_header m) ah (left (b @ c) ns)
    = (Inr (if delivered m then Some m else None), left c ns)"
proof -
  have read: "readTimeout (unat (Len ah)) (left (b @ c) ns) = (Some b, left c ns)"
    by (rule readTimeout_left) (simp add: assms(3))
  have dec: "CodecDecode b (unat (Len ah)) (GetEncode (msg_header m)) = Inr body"
    using assms(3,4) by simp
  have wf: "wf_ParamReg r" if "m = MRegister h ah r" for h r
    using assms(1) that by (simp add: uplink_def wf_message_def)
  from assms(1) have "uplinkType m" by (simp add: uplink_def)
  with assms(2) read dec wf show ?thesis
    by (cases m rule: uplinkType.cases) (auto simp: readBody_def Let_def delivered_def)
qed

lemma uplink_types:
  assumes "uplink m"
  shows "GetMsgType (msg_header m) \<noteq> MSGTYPE_DEFAULT" "\<not> GetMsgType (msg_header m) \<ge> MSGTYPE_MAX"
    "GetMsgType (msg_header m) = MSGTYPE_HEARTBEAT \<longleftrightarrow> msg_body m = None"
  using assms by (cases m rule: uplinkType.cases; auto simp: uplink_def)+

text \<open>One turn of the loop, for a message with a body and on a whole frame.\<close>

lemma handleTcpConn_turn:
  assumes "readTimeout FIX_HEADER_LEN ns = (Some buf, ns1)" "DecodeHeader buf = Inr h"
    and "GetMsgType h \<noteq> MSGTYPE_DEFAULT" "\<not> GetMsgType h \<ge> MSGTYPE_MAX"
    and "GetMsgType h \<noteq> MSGTYPE_HEARTBEAT"
    and "readTimeout ADD_HEADER_LEN ns1 = (Some buf', ns2)" "DecodeAddHeader buf' = Inr ah"
    and "\<not> unat (Len ah) > MAX_MSG_LEN" "readBody h ah ns2 = (Inr r, ns3)"
  shows "handleTcpConn ns =
    (let (ms, why) = handleTcpConn ns3 in ((case r of None \<Rightarrow> ms | Some m \<Rightarrow> m # ms), why))"
proof -
  have "handleTcpConn ns = (case r of None \<Rightarrow> handleTcpConn ns3
      | Some m \<Rightarrow> let (ms, why) = handleTcpConn ns3 in (m # ms, why))"
    by (subst handleTcpConn.simps)
      (simp only: assms prod.case option.case sum.case if_False simp_thms split: option.split)
  then show ?thesis by (cases r) (auto split: prod.split)
qed

lemma handleTcpConn_frame:
  assumes "uplink m"
  shows "handleTcpConn (left (frame m @ c) ns) =
    (let (ms, why) = handleTcpConn (left c ns) in (if delivered m then m # ms else ms, why))"
proof (cases "msg_body m")
  case None
  then obtain h where m: "m = MHeader h" by (cases m) auto
  with assms have t: "GetMsgType h = MSGTYPE_HEARTBEAT" by (simp add: uplink_def)
  have "readTimeout FIX_HEADER_LEN (left (frame m @ c) ns) = (Some (EncodeHeader h), left c ns)"
    using fixed_header_read by (simp add: m frame_def)
  then show ?thesis
    using t by (subst handleTcpConn.simps) (simp add: m delivered_def del: FIX_HEADER_LEN_def)
next
  case (Some ab)
  then obtain ah body where body: "msg_body m = Some (ah, body)" by (cases ab) auto
  from assms have wf: "wf_message m" by (simp add: uplink_def)
  obtain b where b: "frame m = EncodeHeader (msg_header m) @ EncodeAddHeader ah @ b"
    "unat (Len ah) = length b" "length b = length body"
    "CodecDecode b (length b) (GetEncode (msg_header m)) = Inr body"
    by (rule frame_body [OF wf body])
  note types = uplink_types [OF assms]
  have len: "\<not> unat (Len ah) > MAX_MSG_LEN"
    using assms body b(2,3) by (simp add: uplink_def)
  note steps = fixed_header_read [of "msg_header m" "EncodeAddHeader ah @ b @ c"]
    add_header_read [of ah "b @ c"] readBody_frame [OF assms body b(2,4)]
  have "GetMsgType (msg_header m) \<noteq> MSGTYPE_HEARTBEAT" using types(3) body by simp
  note turn = handleTcpConn_turn [OF steps(1) _ types(1,2) this steps(2) _ len steps(3)]
  have "handleTcpConn (left (frame m @ c) ns) = (let (ms, why) = handleTcpConn (left c ns)
      in ((case if delivered m then Some m else None of None \<Rightarrow> ms | Some m \<Rightarrow> m # ms), why))"
    unfolding b(1) append_assoc by (rule turn) simp_all
  then show ?thesis by (simp split: prod.split)
qed

lemma handleTcpConn_wire:
  "\<forall>m \<in> set ms. uplink m \<Longrightarrow> handleTcpConn (left (wire ms) ns) =
     (let (ms', why) = handleTcpConn ns in (filter delivered ms @ ms', why))"
proof (induction ms)
  case Nil
  then show ?case by (simp add: wire_def left_def split: prod.split)
next
  case (Cons m ms)
  then have "uplink m" by simp
  from handleTcpConn_frame [OF this, of "wire ms" ns] Cons show ?case
    by (simp add: wire_def split: prod.split)
qed

lemma wire_not_Nil:
  assumes "cs \<noteq> []" "\<forall>m \<in> set cs. uplink m"
  shows "wire cs \<noteq> []"
proof -
  obtain m ms where cs: "cs = m # ms" using assms(1) by (cases cs) auto
  have "frame m \<noteq> []"
  proof (cases "msg_body m")
    case None
    then obtain h where "m = MHeader h" by (cases m) auto
    then show ?thesis by (simp add: frame_def EncodeHeader_def)
  next
    case (Some ab)
    then have body: "msg_body m = Some (fst ab, snd ab)" by simp
    have "wf_message m" using assms(2) cs by (simp add: uplink_def)
    from frame_body [OF this body] obtain b
      where "frame m = EncodeHeader (msg_header m) @ EncodeAddHeader (fst ab) @ b" by metis
    then show ?thesis by (simp add: EncodeHeader_def)
  qed
  with cs show ?thesis by (simp add: wire_def)
qed

lemma handleTcpConn_segments:
  assumes "\<forall>cs \<in> set css. cs \<noteq> [] \<and> (\<forall>m \<in> set cs. uplink m)"
  shows "handleTcpConn (map (\<lambda>cs. Data (wire cs)) css) = (filter delivered (concat css), ReadFailed)"
  using assms
proof (induction css)
  case Nil
  have "readTimeout FIX_HEADER_LEN [] = (None, [])" by (simp only: five_four readTimeout.simps)
  then show ?case by (subst handleTcpConn.simps) (simp del: FIX_HEADER_LEN_def)
next
  case (Cons cs css)
  then have "wire cs \<noteq> []" by (simp add: wire_not_Nil)
  then have "Data (wire cs) # map (\<lambda>cs. Data (wire cs)) css = left (wire cs) (map (\<lambda>cs. Data (wire cs)) css)"
    by (simp add: left_def)
  with Cons handleTcpConn_wire [of cs "map (\<lambda>cs. Data (wire cs)) css"] show ?case by simp
qed

section \<open>What the loop can deliver\<close>

text \<open>The messages that can come out, whatever goes in.\<close>

definition acceptable :: "message \<Rightarrow> bool" where
  "acceptable m \<longleftrightarrow> uplinkType m \<and> delivered m \<and>
     (case m of MRegister h ah r \<Rightarrow> wf_ParamReg r
      | MImUp h ah msg \<Rightarrow> length msg = unat (Len ah) \<and> length msg \<le> MAX_MSG_LEN | _ \<Rightarrow> True)"

lemma readTimeout_length:
  "readTimeout n ns = (Some b, ns') \<Longrightarrow> length b = n"
  by (cases "(n, ns)" rule: readTimeout.cases) (auto split: if_splits)

lemma CodecDecode_length:
  assumes "CodecDecode b (length b) e = Inr b'"
  shows "length b' = length b"
proof (cases "codec_ok b (length b) e")
  case True
  then show ?thesis using assms by (auto simp: CodecDecode_eq)
next
  case False
  then have "b = []" "e = ENCODE_LOOP_XOR" by (auto simp: codec_ok_def)
  then show ?thesis using assms CodecDecode_xor_0 [of "[]"] by simp
qed

lemma readBody_acceptable:
  assumes "readBody h ah ns = (Inr (Some m), ns')" "unat (Len ah) \<le> MAX_MSG_LEN"
  shows "acceptable m"
proof -
  have len: "length b' = unat (Len ah)"
    if "readTimeout (unat (Len ah)) ns = (Some b, ns1)" "CodecDecode b (unat (Len ah)) e = Inr b'"
    for b b' e ns1
    using readTimeout_length [OF that(1)] that(2) CodecDecode_length [of b e b'] by simp
  show ?thesis
    using assms len
    by (auto simp: readBody_def Let_def acceptable_def delivered_def split: if_splits option.splits
        sum.splits prod.splits dest: DecodeParamReg_wf)
qed

lemma readBody_panic:
  assumes "readBody h ah ns = (Inl (Panicked p), ns')"
  shows "p = IndexOutOfRange \<and> GetEncode h = ENCODE_LOOP_XOR \<and> Len ah = 0"
proof -
  obtain b ns1 where "readTimeout (unat (Len ah)) ns = (Some b, ns1)"
      "CodecDecode b (unat (Len ah)) (GetEncode h) = Inl p"
    using assms by (auto simp: readBody_def Let_def split: if_splits option.splits sum.splits prod.splits)
  moreover from this have "length b = unat (Len ah)" by (simp add: readTimeout_length)
  ultimately have "\<not> codec_ok b (unat (Len ah)) (GetEncode h)" by (auto simp: CodecDecode_eq)
  with \<open>length b = unat (Len ah)\<close> have *: "GetEncode h = ENCODE_LOOP_XOR" "unat (Len ah) = 0"
    by (auto simp: codec_ok_def)
  with \<open>CodecDecode b (unat (Len ah)) (GetEncode h) = Inl p\<close> CodecDecode_xor_0 [of b]
  have "p = IndexOutOfRange" by simp
  with * show ?thesis by (simp add: unat_eq_0)
qed

lemma header_read:
  assumes "readTimeout FIX_HEADER_LEN ns = (Some buf, ns1)"
  shows "\<exists>h. DecodeHeader buf = Inr h"
proof -
  have "length buf = 5" using assms readTimeout_length by fastforce
  then have "buf \<noteq> []" "\<not> length buf < 5" by auto
  then show ?thesis by (auto simp: DecodeHeader_def readFixed_def)
qed

lemma addHeader_read:
  assumes "readTimeout ADD_HEADER_LEN ns = (Some buf, ns1)"
  shows "\<exists>ah. DecodeAddHeader buf = Inr ah"
proof -
  have "length buf = 4" using assms readTimeout_length by fastforce
  then have "buf \<noteq> []" "\<not> length buf < 4" by auto
  then show ?thesis by (auto simp: DecodeAddHeader_def readFixed_def)
qed

text \<open>The two outcomes of one turn of the loop, first for a message with a body.\<close>

lemma long_message_cases:
  assumes read: "readTimeout FIX_HEADER_LEN ns = (Some buf, ns1)" and h: "DecodeHeader buf = Inr h"
    and tp: "GetMsgType h \<noteq> MSGTYPE_DEFAULT" "\<not> GetMsgType h \<ge> MSGTYPE_MAX" "GetMsgType h \<noteq> MSGTYPE_HEARTBEAT"
  obtains (stop) why where "handleTcpConn ns = ([], why)" "\<And>p. why = Panicked p \<Longrightarrow> p = IndexOutOfRange"
  | (more) r ns' where "handleTcpConn ns =
        (let (ms, why) = handleTcpConn ns' in ((case r of None \<Rightarrow> ms | Some m \<Rightarrow> m # ms), why))"
      "insize ns' < insize ns" "\<And>m. r = Some m \<Longrightarrow> acceptable m"
proof -
  note step = handleTcpConn.simps [of ns, unfolded read h prod.case option.case sum.case]
  obtain ob ns2 where read2: "readTimeout ADD_HEADER_LEN ns1 = (ob, ns2)" by fastforce
  show thesis
  proof (cases ob)
    case None
    then show thesis using step tp read2 by (intro stop [of ReadFailed]) simp_all
  next
    case (Some buf2)
    with read2 have read2: "readTimeout ADD_HEADER_LEN ns1 = (Some buf2, ns2)" by simp
    obtain ah where ah: "DecodeAddHeader buf2 = Inr ah" using addHeader_read [OF read2] by blast
    note step = step [unfolded read2 ah prod.case option.case sum.case]
    obtain res ns3 where body: "readBody h ah ns2 = (res, ns3)" by fastforce
    consider "unat (Len ah) > MAX_MSG_LEN" | why where "\<not> unat (Len ah) > MAX_MSG_LEN" "res = Inl why"
      | r where "\<not> unat (Len ah) > MAX_MSG_LEN" "res = Inr r" by (cases res) auto
    then show thesis
    proof cases
      case 1
      then show thesis using step tp by (intro stop [of BadLen]) simp_all
    next
      case 2
      with step tp body have "handleTcpConn ns = ([], why)" by simp
      then show thesis using readBody_panic body 2(2) by (intro stop [of why]) blast+
    next
      case 3
      with body have body: "readBody h ah ns2 = (Inr r, ns3)" by simp
      show thesis
        using handleTcpConn_turn [OF read h tp read2 ah 3(1) body] rest_progress [OF read read2 body]
          readBody_acceptable body 3(1) by (intro more [of ns3 r]) auto
    qed
  qed
qed

lemma handleTcpConn_cases:
  obtains (stop) why where "handleTcpConn ns = ([], why)" "\<And>p. why = Panicked p \<Longrightarrow> p = IndexOutOfRange"
  | (more) r ns' where "handleTcpConn ns =
        (let (ms, why) = handleTcpConn ns' in ((case r of None \<Rightarrow> ms | Some m \<Rightarrow> m # ms), why))"
      "insize ns' < insize ns" "\<And>m. r = Some m \<Longrightarrow> acceptable m"
proof (cases "readTimeout FIX_HEADER_LEN ns")
  case (Pair ob ns1)
  note step = handleTcpConn.simps [of ns]
  show thesis
  proof (cases ob)
    case None
    then show thesis using step Pair by (intro stop [of ReadFailed]) simp_all
  next
    case (Some buf)
    with Pair have read: "readTimeout FIX_HEADER_LEN ns = (Some buf, ns1)" by simp
    obtain h where h: "DecodeHeader buf = Inr h" using header_read [OF read] by blast
    note step = step [unfolded read h prod.case option.case sum.case]
    consider "GetMsgType h = MSGTYPE_DEFAULT \<or> GetMsgType h \<ge> MSGTYPE_MAX"
      | "GetMsgType h = MSGTYPE_HEARTBEAT"
      | "GetMsgType h \<noteq> MSGTYPE_DEFAULT" "\<not> GetMsgType h \<ge> MSGTYPE_MAX"
        "GetMsgType h \<noteq> MSGTYPE_HEARTBEAT" by blast
    then show thesis
    proof cases
      case 1
      then show thesis using step by (intro stop [of BadMsgType]) simp_all
    next
      case 2
      have "handleTcpConn ns = (let (ms, why) = handleTcpConn ns1 in (MHeader h # ms, why))"
        using step 2 by simp
      moreover have "acceptable (MHeader h)" using 2 by (simp add: acceptable_def delivered_def)
      ultimately show thesis using header_progress [OF read]
        by (intro more [of ns1 "Some (MHeader h)"]) simp_all
    next
      case 3
      show thesis by (rule long_message_cases [OF read h 3]) (rule that; assumption)+
    qed
  qed
qed

section \<open>Short reads\<close>

lemma rd32_padded:
  fixes w :: u32
  shows "rd32 [ucast (drop_bit 24 w), 0, 0, 0] = w AND NOT (mask 24)"
    "rd32 [ucast (drop_bit 24 w), ucast (drop_bit 16 w), 0, 0] = w AND NOT (mask 16)"
    "rd32 [ucast (drop_bit 24 w), ucast (drop_bit 16 w), ucast (drop_bit 8 w), 0] = w AND NOT (mask 8)"
    "rd32 [0, 0, 0, 0] = 0"
proof -
  have bits: "n < 8 \<or> 8 \<le> n \<and> n < 16 \<or> 16 \<le> n \<and> n < 24 \<or> 24 \<le> n" for n :: nat by auto
  show "rd32 [ucast (drop_bit 24 w), 0, 0, 0] = w AND NOT (mask 24)"
    by (rule bit_word_eqI) (auto simp: bit_simps)
  show "rd32 [ucast (drop_bit 24 w), ucast (drop_bit 16 w), 0, 0] = w AND NOT (mask 16)"
    by (rule bit_word_eqI, insert bits) (fastforce simp: bit_simps)
  show "rd32 [ucast (drop_bit 24 w), ucast (drop_bit 16 w), ucast (drop_bit 8 w), 0] = w AND NOT (mask 8)"
  proof (rule bit_word_eqI)
    fix n
    assume "n < LENGTH(32)"
    with bits [of n] consider "n < 8" | "8 \<le> n" "n < 16" | "16 \<le> n" "n < 24" | "24 \<le> n" "n < 32"
      by fastforce
    then show "bit (rd32 [ucast (drop_bit 24 w), ucast (drop_bit 16 w), ucast (drop_bit 8 w), 0]) n
        = bit (w AND NOT (mask 8)) n"
      by cases (auto simp: bit_simps)
  qed
  show "rd32 [0, 0, 0, 0] = 0" by simp
qed

lemma no_bits_left: "w AND NOT (mask 32) = 0" for w :: u32
  by (rule bit_word_eqI) (auto simp: bit_simps)

lemma DecodeHeader_list: "DecodeHeader [x, a, b, c, d] = Inr \<lparr>Line = x, Tid = rd32 [a, b, c, d]\<rparr>"
  by (simp add: DecodeHeader_def readFixed_def del: rd32.simps)

lemma padded_lists:
  "take 1 [x, a, b, c, d] @ replicate (5 - 1) y = [x, y, y, y, y]"
  "take 2 [x, a, b, c, d] @ replicate (5 - 2) y = [x, a, y, y, y]"
  "take 3 [x, a, b, c, d] @ replicate (5 - 3) y = [x, a, b, y, y]"
  "take 4 [x, a, b, c, d] @ replicate (5 - 4) y = [x, a, b, c, y]"
  by (simp_all add: eval_nat_numeral)

section \<open>Properties\<close>

text \<open>C5: a client whose segments arrive as runs of whole frames is read exactly: \<^verbatim>\<open>handleTcpConn\<close>
  hands on every message, in order, with header, length and decrypted body as sent, except the
  answers to a kick, which it drops, and ends when the connection does.\<close>

theorem tcp_reads_whole_frames:
  assumes "\<forall>cs \<in> set css. cs \<noteq> [] \<and> (\<forall>m \<in> set cs. uplink m)"
  shows "handleTcpConn (map (\<lambda>cs. Data (wire cs)) css) = (filter delivered (concat css), ReadFailed)"
  by (rule handleTcpConn_segments [OF assms])

theorem tcp_reads_whole_frames_witness:
  "handleTcpConn (map (\<lambda>cs. Data (wire cs))
      [[MHeader \<lparr>Line = 3, Tid = 1\<rparr>, MImUp \<lparr>Line = 0xC9, Tid = 2\<rparr> \<lparr>Len = 2\<rparr> [5, 6]],
       [MResp \<lparr>Line = 12, Tid = 3\<rparr> \<lparr>Len = 1\<rparr> \<lparr>Code = 0\<rparr>]])
   = (filter delivered (concat
      [[MHeader \<lparr>Line = 3, Tid = 1\<rparr>, MImUp \<lparr>Line = 0xC9, Tid = 2\<rparr> \<lparr>Len = 2\<rparr> [5, 6]],
       [MResp \<lparr>Line = 12, Tid = 3\<rparr> \<lparr>Len = 1\<rparr> \<lparr>Code = 0\<rparr>]]), ReadFailed)"
  by (rule tcp_reads_whole_frames)
    (simp add: uplink_def wf_message_def codec_ok_def GetMsgType_def EncodeParamResp_def)

text \<open>C6: whatever arrives, in whatever pieces, the read loop ends when the input does (the function
  is total) and hands on only messages of the accepted types whose struct fits their type, with
  arrays of the right size and an upward message of exactly the announced length, at most
  \<^verbatim>\<open>MAX_MSG_LEN\<close>; and the only panic it can end with is the index error of the exclusive-or
  ring.\<close>

theorem tcp_delivers_only_acceptable:
  "(\<forall>m \<in> set (fst (handleTcpConn ns)). acceptable m) \<and>
   (snd (handleTcpConn ns) = Panicked p \<longrightarrow> p = IndexOutOfRange)"
proof (induction ns rule: measure_induct_rule [where f = insize])
  case (less ns)
  show ?case
  proof (cases ns rule: handleTcpConn_cases)
    case (stop why)
    then show ?thesis by simp
  next
    case (more r ns')
    with less [OF more(2)] show ?thesis
      by (cases r) (auto split: prod.split_asm)
  qed
qed

theorem tcp_delivers_only_acceptable_witness:
  "acceptable (MHeader \<lparr>Line = 3, Tid = 1\<rparr>) \<and> snd (handleTcpConn []) \<noteq> Panicked NilDeref"
proof -
  let ?m = "MHeader \<lparr>Line = 3, Tid = 1\<rparr>"
  have "handleTcpConn (left (wire [?m]) []) =
      (let (ms', why) = handleTcpConn [] in (filter delivered [?m] @ ms', why))"
    by (rule handleTcpConn_wire) (simp add: uplink_def wf_message_def GetMsgType_def)
  then have "?m \<in> set (fst (handleTcpConn (left (wire [?m]) [])))"
    by (simp add: delivered_def GetMsgType_def split: prod.split)
  then show ?thesis
    using tcp_delivers_only_acceptable [of "left (wire [?m]) []"]
      tcp_delivers_only_acceptable [of "[]" NilDeref] by blast
qed

text \<open>C7: \<^verbatim>\<open>readTimeout\<close> ignores how many bytes a read returned, so a heartbeat that arrives in two
  segments is answered under a transaction id whose low bytes are zero, and its second part is
  read as the start of the next header.\<close>

theorem tcp_short_read_misparses:
  assumes "GetMsgType h = MSGTYPE_HEARTBEAT" "0 < k" "k < 5"
  shows "fst (handleTcpConn (Data (take k (EncodeHeader h)) # Data (drop k (EncodeHeader h)) # ns)) =
    MHeader (h\<lparr>Tid := Tid h AND NOT (mask (8 * (5 - k)))\<rparr>)
      # fst (handleTcpConn (Data (drop k (EncodeHeader h)) # ns))"
proof -
  let ?w = "EncodeHeader h" let ?ns = "Data (drop k ?w) # ns"
  let ?h = "h\<lparr>Tid := Tid h AND NOT (mask (8 * (5 - k)))\<rparr>"
  have "readTimeout (Suc 4) (Data (take k ?w) # ?ns) = (Some (take k ?w @ replicate (5 - k) 0), ?ns)"
    using assms(3) by (simp only: readTimeout.simps length_take length_Encode) simp
  then have read: "readTimeout FIX_HEADER_LEN (Data (take k ?w) # ?ns)
      = (Some (take k ?w @ replicate (5 - k) 0), ?ns)"
    by (simp only: five_four)
  have w: "?w = [Line h, ucast (drop_bit 24 (Tid h)), ucast (drop_bit 16 (Tid h)),
      ucast (drop_bit 8 (Tid h)), ucast (Tid h)]"
    by (simp add: EncodeHeader_def be32_def)
  have "k = 1 \<or> k = 2 \<or> k = 3 \<or> k = 4" using assms(2,3) by auto
  then have dec: "DecodeHeader (take k ?w @ replicate (5 - k) 0) = Inr ?h"
    unfolding w
    by (elim disjE; simp only: padded_lists DecodeHeader_list rd32_padded; cases h;
        simp add: no_bits_left)
  have "GetMsgType ?h = MSGTYPE_HEARTBEAT" using assms(1) by (simp add: GetMsgType_def)
  then have "handleTcpConn (Data (take k ?w) # ?ns)
      = (let (ms, why) = handleTcpConn ?ns in (MHeader ?h # ms, why))"
    by (subst handleTcpConn.simps) (simp only: read dec prod.case option.case sum.case, simp)
  then show ?thesis by (simp split: prod.split)
qed

theorem tcp_short_read_misparses_witness:
  "fst (handleTcpConn (Data (take 2 (EncodeHeader \<lparr>Line = 3, Tid = 258\<rparr>))
      # Data (drop 2 (EncodeHeader \<lparr>Line = 3, Tid = 258\<rparr>)) # [])) =
    MHeader (\<lparr>Line = 3, Tid = 258\<rparr>\<lparr>Tid := Tid \<lparr>Line = 3, Tid = 258\<rparr> AND NOT (mask (8 * (5 - 2)))\<rparr>)
      # fst (handleTcpConn (Data (drop 2 (EncodeHeader \<lparr>Line = 3, Tid = 258\<rparr>)) # []))"
  by (rule tcp_short_read_misparses) (simp_all add: GetMsgType_def)

end
