(* ===== verification/RdsStore.thy ===== *)
theory RdsStore
  imports Prelude
begin

text \<open>
  The session store of \<^verbatim>\<open>src/internal/rds\<close> (\<^verbatim>\<open>def.go\<close>, \<^verbatim>\<open>rds.go\<close>): a write-through
  memory cache over redis that keeps, per user, the list of terminals and their queued
  offline messages.

  \<^verbatim>\<open>FindSessions\<close> copies the \<^verbatim>\<open>Sessions\<close> struct but not what it points to, so a caller
  that changes a \<^verbatim>\<open>Session\<close> through the copy changes the cached one, whether or not it saves.
  The model therefore keeps the pointers: objects live in a heap of the store, addressed by
  references, and a slice of session pointers is a backing array and a length. The zero value
  of a type stands for an address that was never allocated.

  Redis is a third-party service: \<open>rget\<close> and \<open>rset\<close> of the environment stand for the
  client calls on a server state of any type, either may fail at any call, and a failed set
  may still have changed the server. The text form of a stored value is that of
  \<^verbatim>\<open>encoding/json\<close>; \<open>jenc\<close> and \<open>jdec\<close> stand for \<^verbatim>\<open>Marshal\<close> and \<^verbatim>\<open>Unmarshal\<close> of a
  \<^verbatim>\<open>Sessions\<close> value.
\<close>

section \<open>Data\<close>

record Item =
  WebOnline :: bool
  Msg :: bytes

record Push =
  OffCnt :: u16
  PushMsg :: bytes

record Body =
  BodyPush :: Push
  CB :: "Item list"
  Im :: "Item list"

record Session =
  SessId :: string
  Plat :: int
  Online :: bool
  Login :: bool
  AuthCode :: string
  IOSToken :: string
  OffMsg :: Body

type_synonym ref = nat

text \<open>
  A slice of session pointers: the reference of its backing array, 0 for none, and its length.
\<close>

record slice =
  arr :: ref
  slen :: nat

record Sessions =
  SsId :: string
  CometId :: string
  Sess :: slice

definition zeroPush :: Push where
  "zeroPush = \<lparr>OffCnt = 0, PushMsg = []\<rparr>"

definition zeroBody :: Body where
  "zeroBody = \<lparr>BodyPush = zeroPush, CB = [], Im = []\<rparr>"

definition zeroSession :: Session where
  "zeroSession = \<lparr>SessId = [], Plat = 0, Online = False, Login = False, AuthCode = [],
     IOSToken = [], OffMsg = zeroBody\<rparr>"

definition zeroSessions :: Sessions where
  "zeroSessions = \<lparr>SsId = [], CometId = [], Sess = \<lparr>arr = 0, slen = 0\<rparr>\<rparr>"

text \<open>The value \<^verbatim>\<open>json.Marshal\<close> writes for a \<^verbatim>\<open>Sessions\<close>: the same fields, pointers followed.\<close>

record SessionsDoc =
  DocId :: string
  DocComet :: string
  DocSess :: "Session list"

record 'r env =
  rget :: "'r \<Rightarrow> string \<Rightarrow> bytes option \<times> 'r"
  rset :: "'r \<Rightarrow> string \<Rightarrow> bytes \<Rightarrow> bool \<times> 'r"
  jenc :: "SessionsDoc \<Rightarrow> bytes option"
  jdec :: "bytes \<Rightarrow> SessionsDoc option"

record 'r Storager =
  cli :: 'r
  memStore :: "string \<rightharpoonup> ref"
  sessHeap :: "ref \<Rightarrow> Session"
  arrHeap :: "ref \<Rightarrow> ref list"
  sssHeap :: "ref \<Rightarrow> Sessions"
  fresh :: ref

definition NewStorager :: "'r \<Rightarrow> 'r Storager" where
  "NewStorager r = \<lparr>cli = r, memStore = Map.empty, sessHeap = (\<lambda>_. zeroSession),
     arrHeap = (\<lambda>_. []), sssHeap = (\<lambda>_. zeroSessions), fresh = 1\<rparr>"

section \<open>Heap access\<close>

definition elems :: "'r Storager \<Rightarrow> slice \<Rightarrow> ref list" where
  "elems st s = take (slen s) (arrHeap st (arr s))"

definition sessRefs :: "'r Storager \<Rightarrow> ref \<Rightarrow> ref list" where
  "sessRefs st p = elems st (Sess (sssHeap st p))"

definition docOf :: "'r Storager \<Rightarrow> ref \<Rightarrow> SessionsDoc" where
  "docOf st p = \<lparr>DocId = SsId (sssHeap st p), DocComet = CometId (sssHeap st p),
     DocSess = map (sessHeap st) (sessRefs st p)\<rparr>"

definition modSess :: "ref \<Rightarrow> (Session \<Rightarrow> Session) \<Rightarrow> 'r Storager \<Rightarrow> 'r Storager" where
  "modSess a f st = st\<lparr>sessHeap := (sessHeap st)(a := f (sessHeap st a))\<rparr>"

definition modSessions :: "ref \<Rightarrow> (Sessions \<Rightarrow> Sessions) \<Rightarrow> 'r Storager \<Rightarrow> 'r Storager" where
  "modSessions p f st = st\<lparr>sssHeap := (sssHeap st)(p := f (sssHeap st p))\<rparr>"

definition newSessions :: "Sessions \<Rightarrow> 'r Storager \<Rightarrow> ref \<times> 'r Storager" where
  "newSessions v st =
     (fresh st, st\<lparr>sssHeap := (sssHeap st)(fresh st := v), fresh := fresh st + 1\<rparr>)"

definition newSession :: "Session \<Rightarrow> 'r Storager \<Rightarrow> ref \<times> 'r Storager" where
  "newSession v st =
     (fresh st, st\<lparr>sessHeap := (sessHeap st)(fresh st := v), fresh := fresh st + 1\<rparr>)"

definition newArray :: "ref list \<Rightarrow> 'r Storager \<Rightarrow> slice \<times> 'r Storager" where
  "newArray xs st =
     (\<lparr>arr = fresh st, slen = length xs\<rparr>,
      st\<lparr>arrHeap := (arrHeap st)(fresh st := xs), fresh := fresh st + 1\<rparr>)"

text \<open>
  \<^verbatim>\<open>append(s, x)\<close> writes into the backing array where that reaches beyond the slice, as it
  does after a removal, and every longer slice of the array sees the new element; else it
  moves to a new array, which is what happens to a nil slice. A backing array of the model is as long as the longest slice there has
  been of it: room that the run-time adds beyond that is seen by no slice.
\<close>

definition appendSlice :: "slice \<Rightarrow> ref \<Rightarrow> 'r Storager \<Rightarrow> slice \<times> 'r Storager" where
  "appendSlice s x st =
     (if arr s \<noteq> 0 \<and> slen s < length (arrHeap st (arr s))
      then (s\<lparr>slen := slen s + 1\<rparr>,
            st\<lparr>arrHeap := (arrHeap st)(arr s := (arrHeap st (arr s))[slen s := x])\<rparr>)
      else newArray (elems st s @ [x]) st)"

text \<open>
  \<^verbatim>\<open>append(s[:i], s[i+1:]...)\<close>: the elements after \<open>i\<close> move down in the same backing
  array, which every other slice of that array sees; \<^verbatim>\<open>s[i+1:]\<close> panics beyond the length.
\<close>

definition deleteAt :: "slice \<Rightarrow> nat \<Rightarrow> 'r Storager \<Rightarrow> gopanic + slice \<times> 'r Storager" where
  "deleteAt s i st =
     (if slen s < i + 1 then Inl SliceBounds
      else
        (let xs = arrHeap st (arr s);
             moved = drop (i + 1) (take (slen s) xs)
         in Inr (s\<lparr>slen := slen s - 1\<rparr>,
              st\<lparr>arrHeap := (arrHeap st)(arr s := take i xs @ moved @ drop (slen s - 1) xs)\<rparr>)))"

text \<open>\<^verbatim>\<open>json.Unmarshal\<close> into a \<^verbatim>\<open>Sessions\<close>: every session and the array are new objects.\<close>

fun allocSess :: "Session list \<Rightarrow> 'r Storager \<Rightarrow> ref list \<times> 'r Storager" where
  "allocSess [] st = ([], st)"
| "allocSess (v # vs) st =
     (let (a, st) = newSession v st; (as, st) = allocSess vs st in (a # as, st))"

definition allocDoc :: "SessionsDoc \<Rightarrow> 'r Storager \<Rightarrow> ref \<times> 'r Storager" where
  "allocDoc d st =
     (let (as, st) = allocSess (DocSess d) st; (s, st) = newArray as st
      in newSessions \<lparr>SsId = DocId d, CometId = DocComet d, Sess = s\<rparr> st)"

section \<open>Find and save\<close>

definition FindSessions :: "'r env \<Rightarrow> string \<Rightarrow> 'r Storager \<Rightarrow> ref option \<times> 'r Storager" where
  "FindSessions e uid st =
     (case memStore st uid of
        Some p \<Rightarrow> (let (q, st) = newSessions (sssHeap st p) st in (Some q, st))
      | None \<Rightarrow>
          (let (b, r) = rget e (cli st) uid; st = st\<lparr>cli := r\<rparr> in
           case b of None \<Rightarrow> (None, st)
           | Some b \<Rightarrow>
               (case jdec e b of None \<Rightarrow> (None, st)
                | Some d \<Rightarrow>
                    (let (q, st) = allocDoc d st
                     in (Some q, st\<lparr>memStore := (memStore st)(uid \<mapsto> q)\<rparr>)))))"

definition SaveSessions :: "'r env \<Rightarrow> ref \<Rightarrow> 'r Storager \<Rightarrow> bool \<times> 'r Storager" where
  "SaveSessions e p st =
     (case jenc e (docOf st p) of None \<Rightarrow> (False, st)
      | Some b \<Rightarrow>
          (let (ok, r) = rset e (cli st) (SsId (sssHeap st p)) b; st = st\<lparr>cli := r\<rparr> in
           if \<not> ok then (False, st)
           else (True, st\<lparr>memStore := (memStore st)(SsId (sssHeap st p) \<mapsto> p)\<rparr>)))"

definition SessionOnline :: "'r env \<Rightarrow> string \<Rightarrow> int \<Rightarrow> 'r Storager \<Rightarrow> bool \<times> 'r Storager" where
  "SessionOnline e uid plat st =
     (let (s, st) = FindSessions e uid st in
      case s of None \<Rightarrow> (False, st)
      | Some p \<Rightarrow>
          (\<exists>a \<in> set (sessRefs st p). Plat (sessHeap st a) = plat \<and> Online (sessHeap st a), st))"

definition SessionComet :: "'r env \<Rightarrow> string \<Rightarrow> 'r Storager \<Rightarrow> string \<times> 'r Storager" where
  "SessionComet e uid st =
     (let (s, st) = FindSessions e uid st in
      case s of None \<Rightarrow> ([], st) | Some p \<Rightarrow> (CometId (sssHeap st p), st))"

definition SessionCount :: "'r Storager \<Rightarrow> nat" where
  "SessionCount st = card (dom (memStore st))"

text \<open>
  \<^verbatim>\<open>OfflineComet\<close> visits the cache in the iteration order of a Go map, which is an argument.
\<close>

definition offlineEntry :: "'r env \<Rightarrow> string \<Rightarrow> string \<Rightarrow> 'r Storager \<Rightarrow> 'r Storager" where
  "offlineEntry e comet uid st =
     (case memStore st uid of None \<Rightarrow> st
      | Some p \<Rightarrow>
          if CometId (sssHeap st p) = comet then
            (let st = fold (\<lambda>a. modSess a (\<lambda>s. s\<lparr>Online := False\<rparr>)) (sessRefs st p) st in
             case jenc e (docOf st p) of None \<Rightarrow> st\<lparr>cli := snd (rset e (cli st) (SsId (sssHeap st p)) [])\<rparr>
             | Some b \<Rightarrow> st\<lparr>cli := snd (rset e (cli st) (SsId (sssHeap st p)) b)\<rparr>)
          else st)"

definition OfflineComet :: "'r env \<Rightarrow> string \<Rightarrow> string list \<Rightarrow> 'r Storager \<Rightarrow> 'r Storager" where
  "OfflineComet e comet order st = fold (offlineEntry e comet) order st"

section \<open>Offline messages\<close>

text \<open>The loops \<^verbatim>\<open>for _, it := range sess.Sess { if it.Plat == plat { ... break } }\<close>.\<close>

definition firstPlat :: "int \<Rightarrow> 'r Storager \<Rightarrow> ref \<Rightarrow> ref option" where
  "firstPlat plat st p = find (\<lambda>a. Plat (sessHeap st a) = plat) (sessRefs st p)"

definition modOff :: "(Body \<Rightarrow> Body) \<Rightarrow> Session \<Rightarrow> Session" where
  "modOff f s = s\<lparr>OffMsg := f (OffMsg s)\<rparr>"

definition savePushBody :: "bytes \<Rightarrow> Body \<Rightarrow> Body" where
  "savePushBody msg b = b\<lparr>BodyPush := \<lparr>OffCnt = OffCnt (BodyPush b) + 1, PushMsg = msg\<rparr>\<rparr>"

definition SavePushMsg :: "'r env \<Rightarrow> string \<Rightarrow> int \<Rightarrow> bytes \<Rightarrow> 'r Storager \<Rightarrow> 'r Storager" where
  "SavePushMsg e uid plat msg st =
     (let (s, st) = FindSessions e uid st in
      case s of None \<Rightarrow> st
      | Some p \<Rightarrow>
          (let st = (case firstPlat plat st p of None \<Rightarrow> st
                     | Some a \<Rightarrow> modSess a (modOff (savePushBody msg)) st)
           in snd (SaveSessions e p st)))"

definition saveCbBody :: "bytes \<Rightarrow> Body \<Rightarrow> Body" where
  "saveCbBody msg b = b\<lparr>CB := CB b @ [\<lparr>WebOnline = False, Msg = msg\<rparr>]\<rparr>"

definition SaveCallbackMsg :: "'r env \<Rightarrow> string \<Rightarrow> int \<Rightarrow> bytes \<Rightarrow> 'r Storager \<Rightarrow> 'r Storager" where
  "SaveCallbackMsg e uid plat msg st =
     (let (s, st) = FindSessions e uid st in
      case s of None \<Rightarrow> st
      | Some p \<Rightarrow>
          (case firstPlat plat st p of None \<Rightarrow> snd (SaveSessions e p st)
           | Some a \<Rightarrow>
               if \<exists>v \<in> set (CB (OffMsg (sessHeap st a))). Msg v = msg then st
               else snd (SaveSessions e p (modSess a (modOff (saveCbBody msg)) st))))"

text \<open>\<^verbatim>\<open>it.OffMsg.Im[1:50]\<close> of a queue longer than 50 keeps the elements 1 to 49.\<close>

definition saveImBody :: "bool \<Rightarrow> bytes \<Rightarrow> Body \<Rightarrow> Body" where
  "saveImBody web msg b =
     (let im = (if length (Im b) > 50 then drop 1 (take 50 (Im b)) else Im b)
      in b\<lparr>Im := im @ [\<lparr>WebOnline = web, Msg = msg\<rparr>]\<rparr>)"

definition webOnline :: "'r Storager \<Rightarrow> ref \<Rightarrow> bool" where
  "webOnline st p =
     (case firstPlat 8 st p of None \<Rightarrow> False | Some a \<Rightarrow> Online (sessHeap st a))"

definition SaveImMsg :: "'r env \<Rightarrow> string \<Rightarrow> int \<Rightarrow> bytes \<Rightarrow> 'r Storager \<Rightarrow> 'r Storager" where
  "SaveImMsg e uid plat msg st =
     (let (s, st) = FindSessions e uid st in
      case s of None \<Rightarrow> st
      | Some p \<Rightarrow>
          (let web = webOnline st p;
               st = (case firstPlat plat st p of None \<Rightarrow> st
                     | Some a \<Rightarrow> modSess a (modOff (saveImBody web msg)) st)
           in snd (SaveSessions e p st)))"

text \<open>
  \<^verbatim>\<open>GetPushMsg\<close> returns \<^verbatim>\<open>&it.OffMsg.Push\<close>, a pointer into the cached session: the model
  returns the reference of that session, and \<open>derefPush\<close> is what a caller reads through
  the pointer.
\<close>

definition clearPush :: "Body \<Rightarrow> Body" where
  "clearPush b = b\<lparr>BodyPush := \<lparr>OffCnt = 0, PushMsg = []\<rparr>\<rparr>"

definition derefPush :: "'r Storager \<Rightarrow> ref \<Rightarrow> Push" where
  "derefPush st a = BodyPush (OffMsg (sessHeap st a))"

definition GetPushMsg :: "'r env \<Rightarrow> string \<Rightarrow> int \<Rightarrow> 'r Storager \<Rightarrow> ref option \<times> 'r Storager" where
  "GetPushMsg e uid plat st =
     (let (s, st) = FindSessions e uid st in
      case s of None \<Rightarrow> (None, st)
      | Some p \<Rightarrow>
          (case firstPlat plat st p of None \<Rightarrow> (None, snd (SaveSessions e p st))
           | Some a \<Rightarrow>
               (let st = modSess a (modOff clearPush) st
                in (Some a, snd (SaveSessions e p st)))))"

definition GetCallbackMsg :: "'r env \<Rightarrow> string \<Rightarrow> int \<Rightarrow> 'r Storager \<Rightarrow> Item list \<times> 'r Storager" where
  "GetCallbackMsg e uid plat st =
     (let (s, st) = FindSessions e uid st in
      case s of None \<Rightarrow> ([], st)
      | Some p \<Rightarrow>
          (case firstPlat plat st p of None \<Rightarrow> ([], snd (SaveSessions e p st))
           | Some a \<Rightarrow>
               (CB (OffMsg (sessHeap st a)),
                snd (SaveSessions e p (modSess a (modOff (\<lambda>b. b\<lparr>CB := []\<rparr>)) st)))))"

definition GetImMsg :: "'r env \<Rightarrow> string \<Rightarrow> int \<Rightarrow> 'r Storager \<Rightarrow> Item list \<times> 'r Storager" where
  "GetImMsg e uid plat st =
     (let (s, st) = FindSessions e uid st in
      case s of None \<Rightarrow> ([], st)
      | Some p \<Rightarrow>
          (case firstPlat plat st p of None \<Rightarrow> ([], snd (SaveSessions e p st))
           | Some a \<Rightarrow>
               (Im (OffMsg (sessHeap st a)),
                snd (SaveSessions e p (modSess a (modOff (\<lambda>b. b\<lparr>Im := []\<rparr>)) st)))))"

end
