(* ===== verification/RdsSpec.thy ===== *)
theory RdsSpec
  imports RdsStore
begin

text \<open>
  The contract of the session store: a well-formedness invariant of its heap, the abstract
  state (per user, the document the cache holds), and the refinement of the operations of
  \<^verbatim>\<open>rds.go\<close> by functions on documents.
\<close>

section \<open>Invariant and abstract state\<close>

definition wfp :: "'r Storager \<Rightarrow> ref \<Rightarrow> bool" where
  "wfp st p \<longleftrightarrow> p < fresh st \<and> arr (Sess (sssHeap st p)) < fresh st \<and>
     slen (Sess (sssHeap st p)) \<le> length (arrHeap st (arr (Sess (sssHeap st p)))) \<and>
     distinct (sessRefs st p) \<and> (\<forall>a \<in> set (sessRefs st p). a < fresh st) \<and>
     (arr (Sess (sssHeap st p)) = 0 \<longrightarrow> slen (Sess (sssHeap st p)) = 0)"

text \<open>No session object and no backing array is shared between two users.\<close>

definition separate :: "'r Storager \<Rightarrow> ref \<Rightarrow> ref \<Rightarrow> bool" where
  "separate st p p' \<longleftrightarrow> set (sessRefs st p) \<inter> set (sessRefs st p') = {} \<and>
     arr (Sess (sssHeap st p)) \<noteq> arr (Sess (sssHeap st p'))"

definition st_wf :: "'r Storager \<Rightarrow> bool" where
  "st_wf st \<longleftrightarrow>
     (\<forall>uid p. memStore st uid = Some p \<longrightarrow> wfp st p \<and> SsId (sssHeap st p) = uid) \<and>
     (\<forall>uid uid' p p'. memStore st uid = Some p \<longrightarrow> memStore st uid' = Some p' \<longrightarrow>
        uid \<noteq> uid' \<longrightarrow> separate st p p')"

definition cached :: "'r Storager \<Rightarrow> string \<rightharpoonup> SessionsDoc" where
  "cached st uid = map_option (docOf st) (memStore st uid)"

text \<open>The document a lookup finds: the cached one, or what redis holds.\<close>

definition lookupDoc :: "'r env \<Rightarrow> 'r Storager \<Rightarrow> string \<Rightarrow> SessionsDoc option" where
  "lookupDoc e st uid =
     (case memStore st uid of
        Some p \<Rightarrow> Some (docOf st p)
      | None \<Rightarrow> (case fst (rget e (cli st) uid) of None \<Rightarrow> None | Some b \<Rightarrow> jdec e b))"

text \<open>What redis holds under a user's key is a document of that user.\<close>

definition key_ok :: "'r env \<Rightarrow> 'r \<Rightarrow> string \<Rightarrow> bool" where
  "key_ok e r uid \<longleftrightarrow> (\<forall>b d. fst (rget e r uid) = Some b \<longrightarrow> jdec e b = Some d \<longrightarrow> DocId d = uid)"

text \<open>A lookup of a cached user needs nothing of redis.\<close>

definition loads :: "'r env \<Rightarrow> 'r Storager \<Rightarrow> string \<Rightarrow> bool" where
  "loads e st uid \<longleftrightarrow> memStore st uid \<noteq> None \<or> key_ok e (cli st) uid"

text \<open>
  \<open>handle st uid q\<close>: \<open>q\<close> is the working copy a caller got for \<open>uid\<close>, sharing the
  sessions of the cached entry.
\<close>

definition handle :: "'r Storager \<Rightarrow> string \<Rightarrow> ref \<Rightarrow> bool" where
  "handle st uid q \<longleftrightarrow> wfp st q \<and> SsId (sssHeap st q) = uid \<and>
     (\<exists>p. memStore st uid = Some p \<and> Sess (sssHeap st p) = Sess (sssHeap st q) \<and>
        CometId (sssHeap st p) = CometId (sssHeap st q))"

lemma wf_NewStorager: "st_wf (NewStorager r)"
  by (simp add: st_wf_def NewStorager_def)

lemma wfD:
  assumes "st_wf st" "memStore st uid = Some p"
  shows "wfp st p" "SsId (sssHeap st p) = uid"
  using assms by (auto simp: st_wf_def)

lemma wf_separate:
  "st_wf st \<Longrightarrow> memStore st uid = Some p \<Longrightarrow> memStore st uid' = Some p' \<Longrightarrow> uid \<noteq> uid' \<Longrightarrow> separate st p p'"
  by (auto simp: st_wf_def)

lemma sessRefs_cong:
  "Sess (sssHeap st p) = Sess (sssHeap st q) \<Longrightarrow> sessRefs st p = sessRefs st q"
  by (simp add: sessRefs_def)

lemma handle_doc: "handle st uid q \<Longrightarrow> st_wf st \<Longrightarrow> cached st uid = Some (docOf st q)"
  by (auto simp: handle_def cached_def docOf_def wfD dest: sessRefs_cong)

section \<open>Allocation does not disturb what is allocated\<close>

definition extends :: "'r Storager \<Rightarrow> 'r Storager \<Rightarrow> bool" where
  "extends st st' \<longleftrightarrow> fresh st \<le> fresh st' \<and> memStore st' = memStore st \<and>
     (\<forall>a < fresh st. sessHeap st' a = sessHeap st a \<and> arrHeap st' a = arrHeap st a \<and>
        sssHeap st' a = sssHeap st a)"

lemma extends_refl [simp]: "extends st st"
  by (simp add: extends_def)

lemma extends_trans: "extends st st' \<Longrightarrow> extends st' st'' \<Longrightarrow> extends st st''"
  by (auto simp: extends_def)

lemma extends_new:
  "newSessions v st = (q, st') \<Longrightarrow> extends st st'"
  "newSession s st = (q, st') \<Longrightarrow> extends st st'"
  "newArray xs st = (sl, st') \<Longrightarrow> extends st st'"
  by (auto simp: newSessions_def newSession_def newArray_def extends_def)

lemma extends_cli [simp]: "extends st (st\<lparr>cli := r\<rparr>)"
  by (simp add: extends_def)

lemma extends_wfp:
  assumes "extends st st'" "wfp st p"
  shows "sssHeap st' p = sssHeap st p" "sessRefs st' p = sessRefs st p" "wfp st' p"
    "docOf st' p = docOf st p"
proof -
  show s: "sssHeap st' p = sssHeap st p" using assms by (auto simp: extends_def wfp_def)
  then show r: "sessRefs st' p = sessRefs st p"
    using assms by (auto simp: extends_def wfp_def sessRefs_def elems_def)
  show "wfp st' p" using assms s r unfolding wfp_def by (auto simp: extends_def)
  have "map (sessHeap st') (sessRefs st p) = map (sessHeap st) (sessRefs st p)"
    using assms by (auto simp: extends_def wfp_def)
  then show "docOf st' p = docOf st p" by (simp add: docOf_def s r)
qed

lemma extends_wf:
  assumes "extends st st'" "st_wf st"
  shows "st_wf st'" "cached st' = cached st"
proof -
  have m: "memStore st' = memStore st" using assms(1) by (simp add: extends_def)
  have sep: "separate st' p p'" if "separate st p p'" "wfp st p" "wfp st p'" for p p'
    using that extends_wfp [OF assms(1)] by (simp add: separate_def)
  show "st_wf st'"
    unfolding st_wf_def m
  proof (intro conjI allI impI)
    fix uid p
    assume p: "memStore st uid = Some p"
    show "wfp st' p" "SsId (sssHeap st' p) = uid"
      using extends_wfp [OF assms(1) wfD(1) [OF assms(2) p]] wfD(2) [OF assms(2) p] by simp_all
  next
    fix uid uid' p p'
    assume "memStore st uid = Some p" "memStore st uid' = Some p'" "uid \<noteq> uid'"
    note * = this
    have "separate st p p'" by (rule wf_separate [OF assms(2) *])
    then show "separate st' p p'"
      using sep wfD(1) [OF assms(2) *(1)] wfD(1) [OF assms(2) *(2)] by simp
  qed
  have "map_option (docOf st') (memStore st uid) = map_option (docOf st) (memStore st uid)" for uid
    using extends_wfp(4) [OF assms(1) wfD(1) [OF assms(2)]] by (cases "memStore st uid") auto
  then show "cached st' = cached st" by (simp add: cached_def m fun_eq_iff)
qed

lemma allocSess_spec:
  "allocSess vs st = (as, st') \<Longrightarrow>
     extends st st' \<and> as = [fresh st..<fresh st'] \<and> map (sessHeap st') as = vs \<and>
     arrHeap st' = arrHeap st \<and> sssHeap st' = sssHeap st \<and> cli st' = cli st"
proof (induction vs arbitrary: st as st')
  case (Cons v vs)
  obtain a st1 where 1: "newSession v st = (a, st1)" by fastforce
  obtain bs st2 where 2: "allocSess vs st1 = (bs, st2)" by fastforce
  from Cons.prems 1 2 have eq: "as = a # bs" "st' = st2" by auto
  from 1 have a: "a = fresh st" "fresh st1 = Suc (fresh st)" "sessHeap st1 a = v"
    "arrHeap st1 = arrHeap st" "sssHeap st1 = sssHeap st" "cli st1 = cli st"
    by (auto simp: newSession_def)
  note IH = Cons.IH [OF 2]
  from IH a have "sessHeap st2 a = v" by (auto simp: extends_def)
  moreover have "extends st st2" using extends_new(2) [OF 1] IH extends_trans by blast
  moreover have "fresh st1 \<le> fresh st2" using IH by (simp add: extends_def)
  ultimately show ?case using IH a eq by (auto simp: upt_conv_Cons)
qed simp

lemma allocDoc_spec:
  assumes "allocDoc d st = (q, st')"
  shows "extends st st'" "wfp st' q" "docOf st' q = d" "fresh st \<le> q"
    "fresh st \<le> arr (Sess (sssHeap st' q))" "\<forall>a \<in> set (sessRefs st' q). fresh st \<le> a"
    "SsId (sssHeap st' q) = DocId d" "cli st' = cli st"
proof -
  obtain as st1 where 1: "allocSess (DocSess d) st = (as, st1)" by fastforce
  obtain s st2 where 2: "newArray as st1 = (s, st2)" by fastforce
  from assms 1 2 have 3: "newSessions \<lparr>SsId = DocId d, CometId = DocComet d, Sess = s\<rparr> st2 = (q, st')"
    by (simp add: allocDoc_def)
  note A = allocSess_spec [OF 1]
  from A extends_new 2 3 show ext: "extends st st'" by (meson extends_trans)
  have s: "s = \<lparr>arr = fresh st1, slen = length as\<rparr>" "arrHeap st2 (fresh st1) = as"
    "fresh st2 = Suc (fresh st1)" "sessHeap st2 = sessHeap st1" "cli st2 = cli st1"
    using 2 by (auto simp: newArray_def)
  have q: "q = fresh st2" "sssHeap st' q = \<lparr>SsId = DocId d, CometId = DocComet d, Sess = s\<rparr>"
    "fresh st' = Suc (fresh st2)" "sessHeap st' = sessHeap st2" "arrHeap st' = arrHeap st2"
    "cli st' = cli st2"
    using 3 by (auto simp: newSessions_def)
  have refs: "sessRefs st' q = as" using s q by (simp add: sessRefs_def elems_def)
  show "docOf st' q = d" using refs A s q by (cases d) (simp add: docOf_def)
  show "wfp st' q" using refs A s q by (auto simp: wfp_def extends_def)
  show "fresh st \<le> q" "fresh st \<le> arr (Sess (sssHeap st' q))"
    using A s q by (auto simp: extends_def)
  show "\<forall>a \<in> set (sessRefs st' q). fresh st \<le> a" using refs A by simp
  show "SsId (sssHeap st' q) = DocId d" using q by simp
  show "cli st' = cli st" using s q A by simp
qed

section \<open>FindSessions\<close>

lemma memStore_irrelevant [simp]:
  "sessRefs (st\<lparr>memStore := m\<rparr>) = sessRefs st" "docOf (st\<lparr>memStore := m\<rparr>) = docOf st"
  "wfp (st\<lparr>memStore := m\<rparr>) = wfp st" "separate (st\<lparr>memStore := m\<rparr>) = separate st"
  by (simp_all add: fun_eq_iff docOf_def sessRefs_def elems_def wfp_def separate_def)

lemma cached_insert:
  "cached (st\<lparr>memStore := (memStore st)(uid \<mapsto> q)\<rparr>) = (cached st)(uid \<mapsto> docOf st q)"
  by (auto simp: cached_def fun_eq_iff)

text \<open>Caching a new entry whose objects are all its own.\<close>

lemma wf_insert:
  assumes "st_wf st" "wfp st q" "SsId (sssHeap st q) = uid"
    and "\<And>uid' p. memStore st uid' = Some p \<Longrightarrow> uid' \<noteq> uid \<Longrightarrow> separate st q p"
  shows "st_wf (st\<lparr>memStore := (memStore st)(uid \<mapsto> q)\<rparr>)"
proof -
  let ?st = "st\<lparr>memStore := (memStore st)(uid \<mapsto> q)\<rparr>"
  have eq: "wfp ?st p = wfp st p" "separate ?st p p' = separate st p p'" for p p'
    by (simp_all add: wfp_def separate_def sessRefs_def elems_def)
  have "separate st p q" if "separate st q p" for p
    using that by (auto simp: separate_def)
  then show ?thesis
    using assms unfolding st_wf_def by (auto simp: eq split: if_splits)
qed

text \<open>A user in the cache: the caller gets a copy of the cached struct.\<close>

lemma FindSessions_hit:
  assumes wf: "st_wf st" and p: "memStore st uid = Some p" and find: "FindSessions e uid st = (r, st')"
  shows "\<exists>q. r = Some q \<and> st_wf st' \<and> handle st' uid q \<and> docOf st' q = docOf st p \<and> cached st' = cached st"
proof -
  let ?q = "fresh st"
  let ?st = "st\<lparr>sssHeap := (sssHeap st)(?q := sssHeap st p), fresh := ?q + 1\<rparr>"
  from find p have eq: "r = Some ?q" "st' = ?st"
    by (auto simp: FindSessions_def newSessions_def Let_def)
  have ext: "extends st ?st" by (simp add: extends_def)
  note w = wfD [OF wf p]
  note P = extends_wfp [OF ext w(1)]
  have "sessRefs ?st ?q = sessRefs st p" by (simp add: sessRefs_def elems_def)
  moreover have "p < fresh st" using w(1) by (simp add: wfp_def)
  ultimately have "wfp ?st ?q" "docOf ?st ?q = docOf st p" "handle ?st uid ?q"
    using w P p by (auto simp: wfp_def docOf_def handle_def)
  then show ?thesis using extends_wf [OF ext wf] eq by simp
qed

text \<open>A user loaded from redis: new heap objects, which the cache then holds.\<close>

lemma FindSessions_load:
  assumes wf: "st_wf st" and d: "DocId d = uid" and alloc: "allocDoc d (st\<lparr>cli := c\<rparr>) = (q, st1)"
  defines "st' \<equiv> st1\<lparr>memStore := (memStore st1)(uid \<mapsto> q)\<rparr>"
  shows "st_wf st'" "handle st' uid q" "docOf st' q = d" "cached st' = (cached st)(uid \<mapsto> d)"
proof -
  have ext0: "extends st (st\<lparr>cli := c\<rparr>)" by simp
  note W0 = extends_wf [OF ext0 wf]
  note A = allocDoc_spec [OF alloc]
  note W1 = extends_wf [OF A(1) W0(1)]
  have sep: "separate st1 q p" if "memStore st1 uid' = Some p" for uid' p
  proof -
    have m: "memStore (st\<lparr>cli := c\<rparr>) uid' = Some p" using that A(1) by (simp add: extends_def)
    note P = extends_wfp [OF A(1) wfD(1) [OF W0(1) m]]
    from wfD(1) [OF W0(1) m] P A(5,6) show ?thesis
      by (auto simp: separate_def wfp_def disjoint_iff dest: leD)
  qed
  show "st_wf st'" unfolding st'_def using W1(1) A(2) A(7) d sep by (intro wf_insert) auto
  show "cached st' = (cached st)(uid \<mapsto> d)"
    unfolding st'_def cached_insert using W0 W1 A(3) by simp
  show "handle st' uid q"
    using A(2) A(7) d by (auto simp: st'_def handle_def wfp_def sessRefs_def elems_def)
  show "docOf st' q = d"
    using A(3) by (simp add: st'_def docOf_def sessRefs_def elems_def)
qed

lemma FindSessions_spec:
  assumes wf: "st_wf st" and keys: "loads e st uid" and find: "FindSessions e uid st = (r, st')"
  shows "case lookupDoc e st uid of
       None \<Rightarrow> r = None \<and> st_wf st' \<and> cached st' = cached st
     | Some d \<Rightarrow> (\<exists>q. r = Some q \<and> st_wf st' \<and> handle st' uid q \<and> docOf st' q = d \<and>
                    cached st' = (cached st)(uid \<mapsto> d))"
proof (cases "memStore st uid")
  case (Some p)
  then have "cached st = (cached st)(uid \<mapsto> docOf st p)" by (auto simp: cached_def fun_eq_iff)
  with FindSessions_hit [OF wf Some find] Some show ?thesis by (auto simp: lookupDoc_def)
next
  case None
  obtain ob c where get: "rget e (cli st) uid = (ob, c)" by fastforce
  show ?thesis
  proof (cases "case ob of None \<Rightarrow> None | Some b \<Rightarrow> jdec e b")
    case no: None
    with find None get have "r = None" "st' = st\<lparr>cli := c\<rparr>"
      by (auto simp: FindSessions_def Let_def split: option.splits)
    moreover have "extends st (st\<lparr>cli := c\<rparr>)" by simp
    from extends_wf [OF this wf] have "st_wf (st\<lparr>cli := c\<rparr>)" "cached (st\<lparr>cli := c\<rparr>) = cached st" by simp_all
    ultimately show ?thesis using no None get by (simp add: lookupDoc_def)
  next
    case (Some d)
    then obtain b where b: "ob = Some b" "jdec e b = Some d" by (cases ob) auto
    obtain q st1 where alloc: "allocDoc d (st\<lparr>cli := c\<rparr>) = (q, st1)" by fastforce
    with find None get b have eq: "r = Some q" "st' = st1\<lparr>memStore := (memStore st1)(uid \<mapsto> q)\<rparr>"
      by (auto simp: FindSessions_def Let_def)
    have "DocId d = uid" using keys get b None unfolding loads_def key_ok_def by (metis fst_conv)
    from FindSessions_load [OF wf this alloc] eq b None get show ?thesis by (simp add: lookupDoc_def)
  qed
qed

section \<open>SaveSessions\<close>

text \<open>
  \<open>owner st uid q\<close>: \<open>q\<close> is a well-formed value for \<open>uid\<close> that shares nothing with
  another user's entry. A working copy has this property, and keeps it when the caller changes
  its fields or replaces its slice by one of its own.
\<close>

definition owner :: "'r Storager \<Rightarrow> string \<Rightarrow> ref \<Rightarrow> bool" where
  "owner st uid q \<longleftrightarrow> wfp st q \<and> SsId (sssHeap st q) = uid \<and>
     (\<forall>uid' p. memStore st uid' = Some p \<longrightarrow> uid' \<noteq> uid \<longrightarrow> separate st q p)"

lemma handle_owner:
  assumes "st_wf st" "handle st uid q"
  shows "owner st uid q"
proof -
  obtain p where p: "memStore st uid = Some p" "Sess (sssHeap st p) = Sess (sssHeap st q)"
    using assms(2) by (auto simp: handle_def)
  have "separate st q p'" if "memStore st uid' = Some p'" "uid' \<noteq> uid" for uid' p'
    using wf_separate [OF assms(1) p(1) that(1)] that(2) p(2) sessRefs_cong [OF p(2)]
    by (simp add: separate_def)
  with assms(2) show ?thesis by (auto simp: owner_def handle_def)
qed

lemma cli_irrelevant [simp]:
  "sessRefs (st\<lparr>cli := c\<rparr>) = sessRefs st" "docOf (st\<lparr>cli := c\<rparr>) = docOf st"
  "wfp (st\<lparr>cli := c\<rparr>) = wfp st" "separate (st\<lparr>cli := c\<rparr>) = separate st"
  "st_wf (st\<lparr>cli := c\<rparr>) = st_wf st" "cached (st\<lparr>cli := c\<rparr>) = cached st"
  "handle (st\<lparr>cli := c\<rparr>) = handle st" "owner (st\<lparr>cli := c\<rparr>) = owner st"
proof -
  show r: "sessRefs (st\<lparr>cli := c\<rparr>) = sessRefs st"
    by (simp add: fun_eq_iff sessRefs_def elems_def)
  show d: "docOf (st\<lparr>cli := c\<rparr>) = docOf st" by (simp add: fun_eq_iff docOf_def r)
  show w: "wfp (st\<lparr>cli := c\<rparr>) = wfp st" by (simp add: fun_eq_iff wfp_def r)
  show s: "separate (st\<lparr>cli := c\<rparr>) = separate st" by (simp add: fun_eq_iff separate_def r)
  show "st_wf (st\<lparr>cli := c\<rparr>) = st_wf st" by (simp add: st_wf_def w s)
  show "cached (st\<lparr>cli := c\<rparr>) = cached st" by (simp add: fun_eq_iff cached_def d)
  show "handle (st\<lparr>cli := c\<rparr>) = handle st" by (simp add: fun_eq_iff handle_def w)
  show "owner (st\<lparr>cli := c\<rparr>) = owner st" by (simp add: fun_eq_iff owner_def w s)
qed

lemma SaveSessions_spec:
  assumes "st_wf st" "owner st uid q" "SaveSessions e q st = (ok, st')"
  shows "st_wf st'" "cached st' = (if ok then (cached st)(uid \<mapsto> docOf st q) else cached st)"
    "sessHeap st' = sessHeap st" "arrHeap st' = arrHeap st" "sssHeap st' = sssHeap st"
    "fresh st' = fresh st"
proof -
  obtain c where c: "st' = (if ok then (st\<lparr>cli := c\<rparr>)\<lparr>memStore := (memStore st)(uid \<mapsto> q)\<rparr>
      else st\<lparr>cli := c\<rparr>)"
  proof (cases "jenc e (docOf st q)")
    case None
    then have "st' = st\<lparr>cli := cli st\<rparr>" "\<not> ok" using assms(3) by (auto simp: SaveSessions_def)
    then show thesis using that [of "cli st"] by simp
  next
    case (Some b)
    obtain ok' c where set: "rset e (cli st) uid b = (ok', c)" by fastforce
    with Some assms(2,3) have "ok' = ok" "st' = (if ok then (st\<lparr>cli := c\<rparr>)\<lparr>memStore := (memStore st)(uid \<mapsto> q)\<rparr>
      else st\<lparr>cli := c\<rparr>)"
      by (auto simp: SaveSessions_def owner_def Let_def split: if_splits)
    then show thesis using that by blast
  qed
  have "st_wf ((st\<lparr>cli := c\<rparr>)\<lparr>memStore := (memStore st)(uid \<mapsto> q)\<rparr>)"
    using wf_insert [of "st\<lparr>cli := c\<rparr>" q uid] assms(1,2) by (auto simp: owner_def)
  then show "st_wf st'" using c assms(1) by simp
  have "cached ((st\<lparr>cli := c\<rparr>)\<lparr>memStore := (memStore st)(uid \<mapsto> q)\<rparr>)
      = (cached st)(uid \<mapsto> docOf st q)"
    using cached_insert [of "st\<lparr>cli := c\<rparr>" uid q] by simp
  then show "cached st' = (if ok then (cached st)(uid \<mapsto> docOf st q) else cached st)"
    using c by simp
  show "sessHeap st' = sessHeap st" "arrHeap st' = arrHeap st" "sssHeap st' = sssHeap st"
    "fresh st' = fresh st"
    using c by simp_all
qed

text \<open>What a save writes to redis: the marshalled document, under the user's key.\<close>

lemma SaveSessions_cli:
  assumes "owner st uid q" "jenc e (docOf st q) = Some b"
  shows "SaveSessions e q st =
    (let (ok, r) = rset e (cli st) uid b in
     (ok, if ok then st\<lparr>cli := r, memStore := (memStore st)(uid \<mapsto> q)\<rparr> else st\<lparr>cli := r\<rparr>))"
  using assms by (auto simp: SaveSessions_def owner_def Let_def split: prod.splits)

section \<open>Changing one session through the working copy\<close>

lemma modSess_frame [simp]:
  "memStore (modSess a f st) = memStore st" "arrHeap (modSess a f st) = arrHeap st"
  "sssHeap (modSess a f st) = sssHeap st" "fresh (modSess a f st) = fresh st"
  "cli (modSess a f st) = cli st" "sessRefs (modSess a f st) = sessRefs st"
  "wfp (modSess a f st) = wfp st" "separate (modSess a f st) = separate st"
  "sessHeap (modSess a f st) = (sessHeap st)(a := f (sessHeap st a))"
  by (simp_all add: modSess_def fun_eq_iff sessRefs_def elems_def wfp_def separate_def)

lemma modSess_wf:
  assumes "st_wf st"
  shows "st_wf (modSess a f st)"
  using assms by (simp add: st_wf_def)

lemma modSess_handle: "handle (modSess a f st) = handle st"
  by (simp add: fun_eq_iff handle_def)

lemma modSess_owner: "owner (modSess a f st) = owner st"
  by (simp add: fun_eq_iff owner_def)

lemma modSess_cached:
  assumes "st_wf st" "handle st uid q" "a \<in> set (sessRefs st q)"
  shows "cached (modSess a f st) = (cached st)(uid \<mapsto> docOf (modSess a f st) q)"
proof
  fix uid'
  let ?st = "modSess a f st"
  show "cached ?st uid' = ((cached st)(uid \<mapsto> docOf ?st q)) uid'"
  proof (cases "uid' = uid")
    case True
    then show ?thesis
      using handle_doc [of ?st uid q] assms(1,2) by (simp add: modSess_wf modSess_handle)
  next
    case False
    have "docOf ?st p = docOf st p" if p: "memStore st uid' = Some p" for p
    proof -
      have "separate st q p" using handle_owner [OF assms(1,2)] p False by (auto simp: owner_def)
      then have "a \<notin> set (sessRefs st p)" using assms(3) by (auto simp: separate_def)
      then show ?thesis by (simp add: docOf_def)
    qed
    then show ?thesis using False by (cases "memStore st uid'") (auto simp: cached_def)
  qed
qed

fun updFirst :: "int \<Rightarrow> (Session \<Rightarrow> Session) \<Rightarrow> Session list \<Rightarrow> Session list" where
  "updFirst plat f [] = []"
| "updFirst plat f (s # ss) = (if Plat s = plat then f s # ss else s # updFirst plat f ss)"

definition updDoc :: "int \<Rightarrow> (Session \<Rightarrow> Session) \<Rightarrow> SessionsDoc \<Rightarrow> SessionsDoc" where
  "updDoc plat f d = d\<lparr>DocSess := updFirst plat f (DocSess d)\<rparr>"

definition docPlat :: "int \<Rightarrow> SessionsDoc \<Rightarrow> Session option" where
  "docPlat plat d = find (\<lambda>s. Plat s = plat) (DocSess d)"

lemma find_map_heap:
  "find (\<lambda>s. P s) (map h xs) = map_option h (find (\<lambda>a. P (h a)) xs)"
  by (induction xs) auto

lemma docPlat_docOf: "docPlat plat (docOf st q) = map_option (sessHeap st) (firstPlat plat st q)"
  by (simp add: docPlat_def firstPlat_def docOf_def find_map_heap)

lemma find_Some_set: "find P xs = Some x \<Longrightarrow> x \<in> set xs \<and> P x"
  by (induction xs) (auto split: if_splits)

lemma updFirst_None: "find (\<lambda>a. Plat (h a) = plat) xs = None \<Longrightarrow> updFirst plat f (map h xs) = map h xs"
  by (induction xs) (auto split: if_splits)

lemma updFirst_Some:
  "find (\<lambda>a. Plat (h a) = plat) xs = Some a \<Longrightarrow> distinct xs \<Longrightarrow>
     updFirst plat f (map h xs) = map (h(a := f (h a))) xs"
  by (induction xs) (auto split: if_splits dest: find_Some_set)

lemma firstPlat_mem: "firstPlat plat st p = Some a \<Longrightarrow> a \<in> set (sessRefs st p)"
  by (auto simp: firstPlat_def dest: find_Some_set)

text \<open>The common step of the operations: change the first session of a platform, if there is one.\<close>

lemma modFirst_spec:
  fixes st :: "'r Storager" and plat :: int and f :: "Session \<Rightarrow> Session"
  assumes "st_wf st" "handle st uid q"
  defines "st1 \<equiv> (case firstPlat plat st q of None \<Rightarrow> st | Some a \<Rightarrow> modSess a f st)"
  shows "st_wf st1" "handle st1 uid q" "docOf st1 q = updDoc plat f (docOf st q)"
    "cached st1 = (cached st)(uid \<mapsto> updDoc plat f (docOf st q))" "cli st1 = cli st"
proof -
  have dist: "distinct (sessRefs st q)" using assms(2) by (simp add: handle_def wfp_def)
  show "st_wf st1" using assms(1) by (simp add: st1_def modSess_wf split: option.splits)
  show "handle st1 uid q" using assms(2) by (simp add: st1_def modSess_handle split: option.splits)
  show "cli st1 = cli st" by (simp add: st1_def split: option.splits)
  show doc: "docOf st1 q = updDoc plat f (docOf st q)"
    using dist updFirst_Some [of "sessHeap st" plat "sessRefs st q" _ f]
      updFirst_None [of "sessHeap st" plat "sessRefs st q" f]
    by (auto simp: st1_def docOf_def updDoc_def firstPlat_def split: option.splits)
  show "cached st1 = (cached st)(uid \<mapsto> updDoc plat f (docOf st q))"
  proof (cases "firstPlat plat st q")
    case None
    with doc handle_doc [OF assms(2,1)] show ?thesis by (auto simp: st1_def fun_eq_iff)
  next
    case (Some a)
    with doc modSess_cached [OF assms(1,2) firstPlat_mem [OF Some], of f]
    show ?thesis by (simp add: st1_def)
  qed
qed

text \<open>
  Change and save. The new document is in the cache whether or not redis took it, because the
  sessions are shared; no other user's document changes.
\<close>

lemma modFirst_save:
  fixes st :: "'r Storager" and plat :: int and f :: "Session \<Rightarrow> Session"
  assumes "st_wf st" "handle st uid q"
  defines "st1 \<equiv> (case firstPlat plat st q of None \<Rightarrow> st | Some a \<Rightarrow> modSess a f st)"
  shows "st_wf (snd (SaveSessions e q st1))"
    "cached (snd (SaveSessions e q st1)) = (cached st)(uid \<mapsto> updDoc plat f (docOf st q))"
proof -
  note M = modFirst_spec [OF assms(1,2), where plat = plat and f = f, folded st1_def]
  obtain ok st2 where save: "SaveSessions e q st1 = (ok, st2)" by fastforce
  note S = SaveSessions_spec [OF M(1) handle_owner [OF M(1,2)] save]
  show "st_wf (snd (SaveSessions e q st1))" using S(1) save by simp
  show "cached (snd (SaveSessions e q st1)) = (cached st)(uid \<mapsto> updDoc plat f (docOf st q))"
    using S(2) save M(3,4) by (simp split: if_splits)
qed

section \<open>The operations on documents\<close>

definition specSavePush :: "int \<Rightarrow> bytes \<Rightarrow> SessionsDoc \<Rightarrow> SessionsDoc" where
  "specSavePush plat msg = updDoc plat (modOff (savePushBody msg))"

definition specSaveCallback :: "int \<Rightarrow> bytes \<Rightarrow> SessionsDoc \<Rightarrow> SessionsDoc" where
  "specSaveCallback plat msg d =
     (case docPlat plat d of None \<Rightarrow> d
      | Some s \<Rightarrow> if msg \<in> Msg ` set (CB (OffMsg s)) then d
          else updDoc plat (modOff (saveCbBody msg)) d)"

definition docWeb :: "SessionsDoc \<Rightarrow> bool" where
  "docWeb d = (case docPlat 8 d of None \<Rightarrow> False | Some s \<Rightarrow> Online s)"

definition specSaveIm :: "int \<Rightarrow> bytes \<Rightarrow> SessionsDoc \<Rightarrow> SessionsDoc" where
  "specSaveIm plat msg d = updDoc plat (modOff (saveImBody (docWeb d) msg)) d"

definition specGetPush :: "int \<Rightarrow> SessionsDoc \<Rightarrow> SessionsDoc" where
  "specGetPush plat = updDoc plat (modOff clearPush)"

definition specGetCallback :: "int \<Rightarrow> SessionsDoc \<Rightarrow> SessionsDoc" where
  "specGetCallback plat = updDoc plat (modOff (\<lambda>b. b\<lparr>CB := []\<rparr>))"

definition specGetIm :: "int \<Rightarrow> SessionsDoc \<Rightarrow> SessionsDoc" where
  "specGetIm plat = updDoc plat (modOff (\<lambda>b. b\<lparr>Im := []\<rparr>))"

definition queued :: "(Body \<Rightarrow> Item list) \<Rightarrow> int \<Rightarrow> SessionsDoc \<Rightarrow> Item list" where
  "queued sel plat d = (case docPlat plat d of None \<Rightarrow> [] | Some s \<Rightarrow> sel (OffMsg s))"

text \<open>
  \<open>refines e uid F st st'\<close>: the step from \<open>st\<close> to \<open>st'\<close> keeps the invariant and
  changes the cache as \<open>F\<close> changes the document of \<open>uid\<close>, if the user has one.
\<close>

definition refines :: "'r env \<Rightarrow> string \<Rightarrow> (SessionsDoc \<Rightarrow> SessionsDoc) \<Rightarrow> 'r Storager \<Rightarrow> 'r Storager \<Rightarrow> bool" where
  "refines e uid F st st' \<longleftrightarrow> st_wf st' \<and>
     cached st' = (case lookupDoc e st uid of None \<Rightarrow> cached st | Some d \<Rightarrow> (cached st)(uid \<mapsto> F d))"

lemma FindSessions_cases:
  assumes "st_wf st" "loads e st uid"
  obtains st' where "lookupDoc e st uid = None" "FindSessions e uid st = (None, st')" "st_wf st'"
      "cached st' = cached st"
    | d q st' where "lookupDoc e st uid = Some d" "FindSessions e uid st = (Some q, st')" "st_wf st'"
      "handle st' uid q" "docOf st' q = d" "cached st' = (cached st)(uid \<mapsto> d)"
proof -
  obtain r st' where "FindSessions e uid st = (r, st')" by fastforce
  with FindSessions_spec [OF assms this] that show thesis
    by (cases "lookupDoc e st uid") auto
qed

lemma updDoc_no_plat:
  assumes "docPlat plat d = None"
  shows "updDoc plat f d = d"
proof -
  have "updFirst plat f ss = ss" if "find (\<lambda>s. Plat s = plat) ss = None" for ss
    using that by (induction ss) (auto split: if_splits)
  with assms show ?thesis by (simp add: updDoc_def docPlat_def)
qed

lemma SavePushMsg_refines:
  assumes "st_wf st" "loads e st uid"
  shows "refines e uid (specSavePush plat msg) st (SavePushMsg e uid plat msg st)"
proof (cases rule: FindSessions_cases [OF assms, case_names none some])
  case (none st')
  then show ?thesis by (simp add: refines_def SavePushMsg_def)
next
  case (some d q st')
  note M = modFirst_save [OF some(3,4), where plat = plat and e = e and f = "modOff (savePushBody msg)"]
  from some M show ?thesis by (simp add: refines_def SavePushMsg_def specSavePush_def)
qed

lemma webOnline_docWeb: "webOnline st q = docWeb (docOf st q)"
  by (simp add: webOnline_def docWeb_def docPlat_docOf split: option.splits)

lemma SaveImMsg_refines:
  assumes "st_wf st" "loads e st uid"
  shows "refines e uid (specSaveIm plat msg) st (SaveImMsg e uid plat msg st)"
proof (cases rule: FindSessions_cases [OF assms, case_names none some])
  case (none st')
  then show ?thesis by (simp add: refines_def SaveImMsg_def)
next
  case (some d q st')
  note M = modFirst_save [OF some(3,4), where plat = plat and e = e and f = "modOff (saveImBody (docWeb d) msg)"]
  have "webOnline st' q = docWeb d" by (simp add: webOnline_docWeb some(5))
  with some M show ?thesis
    by (cases "firstPlat plat st' q") (auto simp: refines_def SaveImMsg_def specSaveIm_def)
qed

lemma SaveCallbackMsg_refines:
  assumes "st_wf st" "loads e st uid"
  shows "refines e uid (specSaveCallback plat msg) st (SaveCallbackMsg e uid plat msg st)"
proof (cases rule: FindSessions_cases [OF assms, case_names none some])
  case (none st')
  then show ?thesis by (simp add: refines_def SaveCallbackMsg_def)
next
  case (some d q st')
  note M = modFirst_save [OF some(3,4), where plat = plat and e = e and f = "modOff (saveCbBody msg)"]
  have dp: "docPlat plat d = map_option (sessHeap st') (firstPlat plat st' q)"
    using docPlat_docOf some(5) by metis
  have dup: "(\<exists>v \<in> set (CB (OffMsg s)). Msg v = msg) \<longleftrightarrow> msg \<in> Msg ` set (CB (OffMsg s))" for s
    by auto
  show ?thesis
    using some M dp updDoc_no_plat [of plat d]
    by (cases "firstPlat plat st' q")
      (auto simp: refines_def SaveCallbackMsg_def specSaveCallback_def dup)
qed

lemma GetPushMsg_refines:
  assumes "st_wf st" "loads e st uid"
  shows "refines e uid (specGetPush plat) st (snd (GetPushMsg e uid plat st))"
proof (cases rule: FindSessions_cases [OF assms, case_names none some])
  case (none st')
  then show ?thesis by (simp add: refines_def GetPushMsg_def)
next
  case (some d q st')
  note M = modFirst_save [OF some(3,4), where plat = plat and e = e and f = "modOff clearPush"]
  from some M show ?thesis
    by (cases "firstPlat plat st' q") (auto simp: refines_def GetPushMsg_def specGetPush_def Let_def)
qed

lemma GetCallbackMsg_refines:
  assumes "st_wf st" "loads e st uid"
  shows "refines e uid (specGetCallback plat) st (snd (GetCallbackMsg e uid plat st))"
    "fst (GetCallbackMsg e uid plat st) =
       (case lookupDoc e st uid of None \<Rightarrow> [] | Some d \<Rightarrow> queued CB plat d)"
proof -
  show "refines e uid (specGetCallback plat) st (snd (GetCallbackMsg e uid plat st))"
  proof (cases rule: FindSessions_cases [OF assms, case_names none some])
    case (some d q st')
    note M = modFirst_save [OF some(3,4), where plat = plat and e = e and f = "modOff (\<lambda>b. b\<lparr>CB := []\<rparr>)"]
    from some M show ?thesis
      by (cases "firstPlat plat st' q") (auto simp: refines_def GetCallbackMsg_def specGetCallback_def)
  qed (simp add: refines_def GetCallbackMsg_def)
  show "fst (GetCallbackMsg e uid plat st) =
       (case lookupDoc e st uid of None \<Rightarrow> [] | Some d \<Rightarrow> queued CB plat d)"
  proof (cases rule: FindSessions_cases [OF assms, case_names none some])
    case (some d q st')
    then show ?thesis using docPlat_docOf [of plat st' q]
      by (auto simp: GetCallbackMsg_def queued_def split: option.splits)
  qed (simp add: GetCallbackMsg_def)
qed

lemma GetImMsg_refines:
  assumes "st_wf st" "loads e st uid"
  shows "refines e uid (specGetIm plat) st (snd (GetImMsg e uid plat st))"
    "fst (GetImMsg e uid plat st) =
       (case lookupDoc e st uid of None \<Rightarrow> [] | Some d \<Rightarrow> queued Im plat d)"
proof -
  show "refines e uid (specGetIm plat) st (snd (GetImMsg e uid plat st))"
  proof (cases rule: FindSessions_cases [OF assms, case_names none some])
    case (some d q st')
    note M = modFirst_save [OF some(3,4), where plat = plat and e = e and f = "modOff (\<lambda>b. b\<lparr>Im := []\<rparr>)"]
    from some M show ?thesis
      by (cases "firstPlat plat st' q") (auto simp: refines_def GetImMsg_def specGetIm_def)
  qed (simp add: refines_def GetImMsg_def)
  show "fst (GetImMsg e uid plat st) =
       (case lookupDoc e st uid of None \<Rightarrow> [] | Some d \<Rightarrow> queued Im plat d)"
  proof (cases rule: FindSessions_cases [OF assms, case_names none some])
    case (some d q st')
    then show ?thesis using docPlat_docOf [of plat st' q]
      by (auto simp: GetImMsg_def queued_def split: option.splits)
  qed (simp add: GetImMsg_def)
qed

lemmas store_refines =
  SavePushMsg_refines SaveCallbackMsg_refines SaveImMsg_refines GetPushMsg_refines
  GetCallbackMsg_refines(1) GetImMsg_refines(1)

end
