(* ===== verification/Rpc.thy ===== *)
theory Rpc
  imports Prelude
begin

text \<open>
  \<^verbatim>\<open>src/internal/rpc\<close>: the requests that comet and router exchange (\<^verbatim>\<open>public.go\<close>), the
  client (\<^verbatim>\<open>client.go\<close>) and the server (\<^verbatim>\<open>server.go\<close>).

  The transport below (\<^verbatim>\<open>net/rpc\<close> over HTTP and whatever the network does) is a parameter:
  \<open>dial\<close>, \<open>call\<close> and \<open>hangup\<close> of a \<open>transport\<close> act on a world of any type; a call gives
  the code of the peer's \<^verbatim>\<open>Response\<close> or fails. Go strings are byte sequences: identifiers
  and addresses are \<open>string\<close>, message texts are \<open>bytes\<close>.
\<close>

section \<open>Requests\<close>

datatype rpcRequest =
    CometRegister (crCometId: string) (crTcpAddr: string) (crWsAddr: string) (crRpcAddr: string)
  | AuthRequest (arId: string) (arTermtype: int) (arCode: string)
  | StateNotify (snId: string) (snTermtype: int) (snToken: string) (snCometId: string) (snState: int)
  | MsgUpwardRequst (muId: string) (muTermtype: int) (muMsg: bytes)
  | KickRequst (kiId: string) (kiTermtype: int) (kiToken: string) (kiReason: int)
  | PushRequst (puTp: int) (puFlag: int) (puId: string) (puTermtype: int) (puAppleToken: string)
      (puMsg: bytes)
  | PingRequst

definition RPC_RET_SUCCESS :: int where [simp]: "RPC_RET_SUCCESS = 0"
definition RPC_RET_FAILED :: int where [simp]: "RPC_RET_FAILED = -1"
definition STATE_OFFLINE :: int where [simp]: "STATE_OFFLINE = 0"
definition STATE_ONLINE :: int where [simp]: "STATE_ONLINE = 1"
definition MSG_TYPE_PUSH :: int where [simp]: "MSG_TYPE_PUSH = 1"

section \<open>Client\<close>

record 'w transport =
  dial :: "string \<Rightarrow> 'w \<Rightarrow> nat option \<times> 'w"
  call :: "nat \<Rightarrow> string \<Rightarrow> rpcRequest \<Rightarrow> 'w \<Rightarrow> int option \<times> 'w"
  hangup :: "nat \<Rightarrow> 'w \<Rightarrow> 'w"

text \<open>
  \<open>handle\<close> is the \<^verbatim>\<open>*rpc.Client\<close>, \<open>status\<close> the values sent on the state channel and
  not yet received.
\<close>

record RpcClient =
  clientId :: string
  serverAddr :: string
  conn :: nat
  status :: "int list"

datatype rpcErr = CallError | ERROR_RESPONSE | PUSH_ERROR | DialError

definition NewRpcClient :: "'w transport \<Rightarrow> string \<Rightarrow> string \<Rightarrow> int list \<Rightarrow> 'w \<Rightarrow>
    (rpcErr + RpcClient) \<times> 'w" where
  "NewRpcClient t cid addr stateChan w =
     (case dial t addr w of
        (None, w) \<Rightarrow> (Inl DialError, w)
      | (Some h, w) \<Rightarrow>
          (Inr \<lparr>clientId = cid, serverAddr = addr, conn = h, status = stateChan @ [1]\<rparr>, w))"

definition connect :: "'w transport \<Rightarrow> RpcClient \<Rightarrow> 'w \<Rightarrow> (rpcErr + RpcClient) \<times> 'w" where
  "connect t p w =
     (case dial t (serverAddr p) w of
        (None, w) \<Rightarrow> (Inl DialError, w)
      | (Some h, w) \<Rightarrow> (Inr (p\<lparr>conn := h\<rparr>), w))"

definition ReConnect :: "'w transport \<Rightarrow> RpcClient \<Rightarrow> 'w \<Rightarrow> (rpcErr + RpcClient) \<times> 'w" where
  "ReConnect t p w =
     (let w = hangup t (conn p) w in
      case connect t p w of
        (Inl err, w) \<Rightarrow> (Inl err, w)
      | (Inr p, w) \<Rightarrow> (Inr (p\<lparr>status := status p @ [1]\<rparr>), w))"

definition Close :: "'w transport \<Rightarrow> RpcClient \<Rightarrow> 'w \<Rightarrow> 'w" where
  "Close t p w = hangup t (conn p) w"

text \<open>
  A call that must be answered with code 0 fails with \<^verbatim>\<open>bad\<close> on any other code; \<^verbatim>\<open>Kick\<close> and
  \<^verbatim>\<open>Notify\<close> do not look at the code. \<open>None\<close> is the nil error.
\<close>

definition callChecked :: "'w transport \<Rightarrow> RpcClient \<Rightarrow> string \<Rightarrow> rpcRequest \<Rightarrow> rpcErr \<Rightarrow> 'w \<Rightarrow>
    rpcErr option \<times> 'w" where
  "callChecked t p m req bad w =
     (case call t (conn p) m req w of
        (None, w) \<Rightarrow> (Some CallError, w)
      | (Some c, w) \<Rightarrow> (if c \<noteq> 0 then Some bad else None, w))"

definition callUnchecked :: "'w transport \<Rightarrow> RpcClient \<Rightarrow> string \<Rightarrow> rpcRequest \<Rightarrow> 'w \<Rightarrow>
    rpcErr option \<times> 'w" where
  "callUnchecked t p m req w =
     (case call t (conn p) m req w of
        (None, w) \<Rightarrow> (Some CallError, w)
      | (Some c, w) \<Rightarrow> (None, w))"

definition Register :: "'w transport \<Rightarrow> RpcClient \<Rightarrow> string \<Rightarrow> string \<Rightarrow> string \<Rightarrow> string \<Rightarrow> 'w \<Rightarrow>
    rpcErr option \<times> 'w" where
  "Register t p cometId tcp ws rpc =
     callChecked t p ''RpcServer.Register'' (CometRegister cometId tcp ws rpc) ERROR_RESPONSE"

definition Auth :: "'w transport \<Rightarrow> RpcClient \<Rightarrow> string \<Rightarrow> int \<Rightarrow> string \<Rightarrow> 'w \<Rightarrow> rpcErr option \<times> 'w" where
  "Auth t p uid termtype code =
     callChecked t p ''RpcServer.Auth'' (AuthRequest uid termtype code) ERROR_RESPONSE"

definition Notify :: "'w transport \<Rightarrow> RpcClient \<Rightarrow> string \<Rightarrow> int \<Rightarrow> string \<Rightarrow> int \<Rightarrow> string \<Rightarrow> 'w \<Rightarrow>
    rpcErr option \<times> 'w" where
  "Notify t p uid plat token st cometId =
     callUnchecked t p ''RpcServer.Notify'' (StateNotify uid plat token cometId st)"

definition MsgUpward :: "'w transport \<Rightarrow> RpcClient \<Rightarrow> string \<Rightarrow> int \<Rightarrow> bytes \<Rightarrow> 'w \<Rightarrow>
    rpcErr option \<times> 'w" where
  "MsgUpward t p uid termtype msg =
     callChecked t p ''RpcServer.MsgUpward'' (MsgUpwardRequst uid termtype msg) ERROR_RESPONSE"

definition Kick :: "'w transport \<Rightarrow> RpcClient \<Rightarrow> string \<Rightarrow> int \<Rightarrow> string \<Rightarrow> int \<Rightarrow> 'w \<Rightarrow>
    rpcErr option \<times> 'w" where
  "Kick t p uid plat token reason =
     callUnchecked t p ''RpcServer.Kick'' (KickRequst uid plat token reason)"

definition PushTo :: "'w transport \<Rightarrow> RpcClient \<Rightarrow> int \<Rightarrow> string \<Rightarrow> int \<Rightarrow> string \<Rightarrow> int \<Rightarrow> bytes \<Rightarrow> 'w \<Rightarrow>
    rpcErr option \<times> 'w" where
  "PushTo t p msgType uid termtype iosToken flag msg =
     callChecked t p ''RpcServer.Push'' (PushRequst msgType flag uid termtype iosToken msg) PUSH_ERROR"

definition PingPeer :: "'w transport \<Rightarrow> RpcClient \<Rightarrow> 'w \<Rightarrow> rpcErr option \<times> 'w" where
  "PingPeer t p = callChecked t p ''RpcServer.Ping'' PingRequst ERROR_RESPONSE"

text \<open>One tick of the heartbeat of \<^verbatim>\<open>StartPing\<close>: a failed ping reports 0 and ends the loop.\<close>

definition pingTick :: "'w transport \<Rightarrow> RpcClient \<Rightarrow> 'w \<Rightarrow> (bool \<times> RpcClient) \<times> 'w" where
  "pingTick t p w =
     (case PingPeer t p w of
        (None, w) \<Rightarrow> ((True, p), w)
      | (Some _, w) \<Rightarrow> ((False, p\<lparr>status := status p @ [0]\<rparr>), w))"

section \<open>Server\<close>

text \<open>
  The server owns the queue of requests that are answered before they are handled. \<open>serve\<close>
  is the dispatch of \<^verbatim>\<open>net/rpc\<close> over the methods of \<^verbatim>\<open>server.go\<close>, each of which takes one
  type of request; the code is what ends up in \<^verbatim>\<open>Response\<close>.
\<close>

fun serve :: "(rpcRequest \<Rightarrow> 's \<Rightarrow> int \<times> 's) \<Rightarrow> rpcRequest \<Rightarrow> 's \<times> rpcRequest list \<Rightarrow>
    int \<times> 's \<times> rpcRequest list" where
  "serve syncHandle (StateNotify uid plat token comet st) (s, dataChan) =
     (0, s, dataChan @ [StateNotify uid plat token comet st])"
| "serve syncHandle (PushRequst tp flag uid plat tok msg) (s, dataChan) =
     (0, s, dataChan @ [PushRequst tp flag uid plat tok msg])"
| "serve syncHandle PingRequst (s, dataChan) = (0, s, dataChan)"
| "serve syncHandle request (s, dataChan) =
     (let (code, s) = syncHandle request s in (code, s, dataChan))"

text \<open>\<^verbatim>\<open>handleMessage\<close> takes the queued requests in order.\<close>

fun handleMessages :: "(rpcRequest \<Rightarrow> 's \<Rightarrow> 's) \<Rightarrow> 's \<times> rpcRequest list \<Rightarrow> 's \<times> rpcRequest list" where
  "handleMessages asyncHandle (s, []) = (s, [])"
| "handleMessages asyncHandle (s, m # ms) = handleMessages asyncHandle (asyncHandle m s, ms)"

end
