(* ===== verification/Base64.thy ===== *)
theory Base64
  imports Prelude
begin

text \<open>
  \<^verbatim>\<open>base64.StdEncoding\<close> of the standard library, as the JSON transport and the message queue
  use it: \<^verbatim>\<open>EncodeToString\<close> with padding and \<^verbatim>\<open>DecodeString\<close>, which skips line breaks,
  wants whole groups of four and accepts padding in the last group only.
\<close>

section \<open>The alphabet\<close>

definition code6 :: "nat \<Rightarrow> nat" where
  "code6 n = (if n < 26 then 65 + n else if n < 52 then 71 + n
     else if n < 62 then n - 4 else if n = 62 then 43 else 47)"

definition enc6 :: "nat \<Rightarrow> byte" where
  "enc6 n = of_nat (code6 n)"

definition dec6 :: "byte \<Rightarrow> nat option" where
  "dec6 w = (let b = unat w in
     if 65 \<le> b \<and> b \<le> 90 then Some (b - 65)
     else if 97 \<le> b \<and> b \<le> 122 then Some (b - 71)
     else if 48 \<le> b \<and> b \<le> 57 then Some (b + 4)
     else if b = 43 then Some 62 else if b = 47 then Some 63 else None)"

definition padding :: byte where "padding = 61"

lemma unat_byte_less: "unat (w :: byte) < 256"
  using unsigned_less [where 'b = 8 and 'a = nat, of w] by simp

lemma byte_of_unat [simp]: "(of_nat (unat w) :: byte) = w"
  by simp

lemma unat_enc6: "n < 64 \<Longrightarrow> unat (enc6 n) = code6 n"
  by (simp add: enc6_def code6_def unat_of_nat)

lemma dec6_enc6 [simp]: "n < 64 \<Longrightarrow> dec6 (enc6 n) = Some n"
  by (simp add: dec6_def unat_enc6 Let_def) (auto simp: code6_def)

lemma enc6_neq:
  assumes "n < 64"
  shows "enc6 n \<noteq> padding" "enc6 n \<noteq> 10" "enc6 n \<noteq> 13"
proof -
  have "code6 n \<notin> {61, 10, 13}" using assms by (auto simp: code6_def)
  then have "unat (enc6 n) \<notin> {unat padding, unat (10 :: byte), unat (13 :: byte)}"
    using assms by (simp add: unat_enc6 padding_def)
  then show "enc6 n \<noteq> padding" "enc6 n \<noteq> 10" "enc6 n \<noteq> 13" by auto
qed

section \<open>Encoder and decoder\<close>

definition hi6 :: "byte \<Rightarrow> nat" where "hi6 a = unat a div 4"
definition mid6 :: "byte \<Rightarrow> nat \<Rightarrow> nat" where "mid6 a b = unat a mod 4 * 16 + b div 16"
definition low6 :: "byte \<Rightarrow> nat \<Rightarrow> nat" where "low6 b c = unat b mod 16 * 4 + c div 64"

fun EncodeToString :: "bytes \<Rightarrow> bytes" where
  "EncodeToString (a # b # c # xs) =
     enc6 (hi6 a) # enc6 (mid6 a (unat b)) # enc6 (low6 b (unat c)) # enc6 (unat c mod 64) #
       EncodeToString xs"
| "EncodeToString [a, b] = [enc6 (hi6 a), enc6 (mid6 a (unat b)), enc6 (low6 b 0), padding]"
| "EncodeToString [a] = [enc6 (hi6 a), enc6 (mid6 a 0), padding, padding]"
| "EncodeToString [] = []"

definition first8 :: "nat \<Rightarrow> nat \<Rightarrow> byte" where "first8 p q = of_nat (p * 4 + q div 16)"
definition second8 :: "nat \<Rightarrow> nat \<Rightarrow> byte" where "second8 q r = of_nat (q mod 16 * 16 + r div 4)"
definition third8 :: "nat \<Rightarrow> nat \<Rightarrow> byte" where "third8 r s = of_nat (r mod 4 * 64 + s)"

fun quad :: "nat option \<Rightarrow> nat option \<Rightarrow> nat option \<Rightarrow> nat option \<Rightarrow> bytes option" where
  "quad (Some p) (Some q) (Some r) (Some s) = Some [first8 p q, second8 q r, third8 r s]"
| "quad _ _ _ _ = None"

fun decodeQuads :: "bytes \<Rightarrow> bytes option" where
  "decodeQuads [] = Some []"
| "decodeQuads (p # q # r # s # xs) =
     (if xs = [] \<and> s = padding then
        (if r = padding then
           (case (dec6 p, dec6 q) of (Some p, Some q) \<Rightarrow> Some [first8 p q] | _ \<Rightarrow> None)
         else (case (dec6 p, dec6 q, dec6 r) of
            (Some p, Some q, Some r) \<Rightarrow> Some [first8 p q, second8 q r] | _ \<Rightarrow> None))
      else
        (case quad (dec6 p) (dec6 q) (dec6 r) (dec6 s) of None \<Rightarrow> None
         | Some ys \<Rightarrow> map_option ((@) ys) (decodeQuads xs)))"
| "decodeQuads _ = None"

definition DecodeString :: "bytes \<Rightarrow> bytes option" where
  "DecodeString s = decodeQuads (filter (\<lambda>c. c \<noteq> 10 \<and> c \<noteq> 13) s)"

section \<open>Round trip\<close>

lemma bounds6:
  "hi6 a < 64" "c < 256 \<Longrightarrow> mid6 a c < 64" "c < 256 \<Longrightarrow> low6 b c < 64"
  using unat_byte_less [of a] by (auto simp: hi6_def mid6_def low6_def)

lemma first8_back: "c < 256 \<Longrightarrow> first8 (hi6 a) (mid6 a c) = a"
proof -
  assume "c < 256"
  then have "unat a div 4 * 4 + (unat a mod 4 * 16 + c div 16) div 16 = unat a"
    by simp
  then show ?thesis by (simp only: first8_def hi6_def mid6_def byte_of_unat)
qed

lemma second8_back: "c < 256 \<Longrightarrow> second8 (mid6 a (unat b)) (low6 b c) = b"
proof -
  assume "c < 256"
  then have "(unat a mod 4 * 16 + unat b div 16) mod 16 * 16 + (unat b mod 16 * 4 + c div 64) div 4
      = unat b"
    using unat_byte_less [of b] by simp
  then show ?thesis by (simp only: second8_def mid6_def low6_def byte_of_unat)
qed

lemma third8_back: "third8 (low6 b (unat w)) (unat w mod 64) = w"
proof -
  have "(unat b mod 16 * 4 + unat w div 64) mod 4 * 64 + unat w mod 64 = unat w"
    using unat_byte_less [of w] by simp
  then show ?thesis by (simp only: third8_def low6_def byte_of_unat)
qed

lemma decodeQuads_EncodeToString: "decodeQuads (EncodeToString xs) = Some xs"
proof (induction xs rule: EncodeToString.induct)
  case (1 a b c xs)
  then show ?case
    by (simp add: bounds6 unat_byte_less enc6_neq first8_back second8_back third8_back)
next
  case (2 a b)
  then show ?case
    by (simp add: bounds6 unat_byte_less enc6_neq first8_back second8_back)
next
  case (3 a)
  then show ?case by (simp add: bounds6 unat_byte_less enc6_neq first8_back)
qed simp

lemma EncodeToString_no_break: "\<forall>c \<in> set (EncodeToString xs). c \<noteq> 10 \<and> c \<noteq> 13"
proof (induction xs rule: EncodeToString.induct)
  case (1 a b c xs)
  then show ?case by (simp add: bounds6 unat_byte_less enc6_neq)
next
  case (2 a b)
  then show ?case by (simp add: bounds6 unat_byte_less enc6_neq) (simp add: padding_def)
next
  case (3 a)
  then show ?case by (simp add: bounds6 unat_byte_less enc6_neq) (simp add: padding_def)
qed simp

lemma DecodeString_EncodeToString [simp]: "DecodeString (EncodeToString xs) = Some xs"
  using EncodeToString_no_break [of xs]
  by (simp add: DecodeString_def decodeQuads_EncodeToString)

end
