(* ===== verification/Nsq.thy ===== *)
theory Nsq
  imports Base64
begin

text \<open>
  \<^verbatim>\<open>src/internal/nsq/nsq.go\<close>: messages are published in base64 and decoded again by the
  dispatcher, which hands a body that is not base64 to the handler as it came. The queue
  client is a parameter: \<open>publish\<close> sends a body to a topic and reports success.
\<close>

definition Publish :: "(string \<Rightarrow> bytes \<Rightarrow> 'w \<Rightarrow> bool \<times> 'w) \<Rightarrow> string \<Rightarrow> bytes \<Rightarrow> 'w \<Rightarrow> bool \<times> 'w" where
  "Publish publish topic msg w = publish topic (EncodeToString msg) w"

text \<open>\<^verbatim>\<open>HandleMessage\<close> always returns nil, so the queue never redelivers.\<close>

definition HandleMessage :: "(string \<Rightarrow> bytes \<Rightarrow> 's \<Rightarrow> 's) \<Rightarrow> string \<Rightarrow> bytes \<Rightarrow> 's \<Rightarrow> 's" where
  "HandleMessage hdl topic body s =
     (case DecodeString body of None \<Rightarrow> hdl topic body s | Some b \<Rightarrow> hdl topic b s)"

lemma HandleMessage_published: "HandleMessage hdl topic (EncodeToString msg) s = hdl topic msg s"
  by (simp add: HandleMessage_def)

text \<open>A body that begins with a brace, as JSON text does, is not base64.\<close>

lemma decodeQuads_brace: "decodeQuads (123 # xs) = None"
proof -
  have d: "dec6 123 = None" by (simp add: dec6_def)
  show ?thesis
    by (cases xs rule: decodeQuads.cases; cases xs rule: list.exhaust)
      (auto simp: d split: list.splits option.splits intro: decodeQuads.elims)
qed

lemma HandleMessage_json: "HandleMessage hdl topic (123 # xs) s = hdl topic (123 # xs) s"
  by (simp add: HandleMessage_def DecodeString_def decodeQuads_brace)

section \<open>Properties\<close>

text \<open>\<^verbatim>\<open>Publish\<close> sends one body to its topic, and the dispatcher that receives that body hands
  the handler exactly the published bytes, whatever they are; a body that is JSON text and was
  never encoded reaches the handler unchanged, because an opening brace is no base64.\<close>

theorem publish_reaches_handler:
  "(\<exists>b. (\<forall>publish w. Publish publish topic msg w = publish topic b w) \<and>
      (\<forall>hdl s. HandleMessage hdl topic b s = hdl topic msg s)) \<and>
   HandleMessage hdl topic (123 # xs) s = hdl topic (123 # xs) s"
  by (auto simp: Publish_def HandleMessage_published HandleMessage_json)

end
