(* ===== verification/Router.thy ===== *)
theory Router
  imports RdsSpec Rpc Nsq Protocol
begin

text \<open>
  The router process, \<^verbatim>\<open>src/router\<close>: the pool of comets (\<^verbatim>\<open>pool.go\<close>), the queue handler
  (\<^verbatim>\<open>procNsq.go\<close>), the RPC handlers (\<^verbatim>\<open>procRpc.go\<close>) and the load dispatcher
  (\<^verbatim>\<open>http.go\<close>). A handler that panics keeps the effects of the statements before the
  panic, so a handler returns the panic beside the state.

  Outside the process, and arguments of the model: the redis server and the text form of
  stored sessions (the \<open>env\<close> of the store), the RPC transport, the queue client and the JSON
  text of the queue messages.
\<close>

section \<open>Data\<close>

record UserOnlineState =
  uoUid :: string
  uoTermtype :: int
  uoCode :: string
  uoDeviceToken :: string
  uoLogin :: bool

record TimeoutSession =
  tsTermtype :: int
  tsUid :: string
  tsSessionId :: string
  tsFlag :: int

record SessionTimeout =
  stBackTopic :: string
  stKey :: string
  stSess :: TimeoutSession

record Receiver =
  rcUid :: string
  rcTermtype :: int

record MsgDownward =
  mdReceivers :: "Receiver list"
  mdFlag :: int
  mdBody :: bytes

record MsgUpwardMsg =
  umUid :: string
  umTermtype :: int
  umBody :: bytes

record comet =
  comId :: string
  rpcClient :: RpcClient
  tcpAddr :: string
  wsAddr :: string
  online :: int

record ('r, 'w) renv =
  storeEnv :: "'r env"
  trans :: "'w transport"
  publish :: "string \<Rightarrow> bytes \<Rightarrow> 'w \<Rightarrow> bool \<times> 'w"
  unTimeout :: "bytes \<Rightarrow> SessionTimeout option"
  maTimeout :: "SessionTimeout \<Rightarrow> bytes"
  unOnline :: "bytes \<Rightarrow> UserOnlineState option"
  unDown :: "bytes \<Rightarrow> MsgDownward option"
  maUpward :: "MsgUpwardMsg \<Rightarrow> bytes"

record ('r, 'w) Router =
  topics :: "string list"
  upMsgTopic :: string
  comets :: "string \<rightharpoonup> comet"
  store :: "'r Storager"
  world :: 'w

section \<open>The pool of comets\<close>

definition insertComet :: "string \<Rightarrow> comet \<Rightarrow> (string \<rightharpoonup> comet) \<Rightarrow> (string \<rightharpoonup> comet)" where
  "insertComet cid c p = p(cid \<mapsto> c)"

definition findComet :: "string \<Rightarrow> (string \<rightharpoonup> comet) \<Rightarrow> comet option" where
  "findComet cid p = p cid"

definition deleteComet :: "string \<Rightarrow> (string \<rightharpoonup> comet) \<Rightarrow> (string \<rightharpoonup> comet)" where
  "deleteComet cid p = p(cid := None)"

definition cometAdd :: "string \<Rightarrow> (string \<rightharpoonup> comet) \<Rightarrow> (string \<rightharpoonup> comet)" where
  "cometAdd cid p = (case p cid of None \<Rightarrow> p | Some c \<Rightarrow> p(cid \<mapsto> c\<lparr>online := online c + 1\<rparr>))"

definition cometSub :: "string \<Rightarrow> (string \<rightharpoonup> comet) \<Rightarrow> (string \<rightharpoonup> comet)" where
  "cometSub cid p = (case p cid of None \<Rightarrow> p | Some c \<Rightarrow> p(cid \<mapsto> c\<lparr>online := online c - 1\<rparr>))"

text \<open>
  \<^verbatim>\<open>balancer\<close> ranges over the comets in the iteration order of a Go map, given as the list
  of the values in that order; \<^verbatim>\<open>minLoad\<close> is 0 until a comet has set it.
\<close>

definition balanceStep :: "comet \<Rightarrow> int \<times> comet option \<Rightarrow> int \<times> comet option" where
  "balanceStep v s =
     (let (minLoad, c) = s;
          (minLoad, c) = (if minLoad = 0 then (online v, Some v) else (minLoad, c))
      in if online v < minLoad then (online v, Some v) else (minLoad, c))"

definition poolBalancer :: "comet list \<Rightarrow> comet option" where
  "poolBalancer order = snd (fold balanceStep order (0, None))"

section \<open>The load dispatcher\<close>

definition platOfName :: "string \<Rightarrow> int" where
  "platOfName platS =
     (if platS = ''Android'' then PLAT_ANDROID
      else if platS = ''iOS'' then PLAT_IOS
      else if platS = ''Web'' then PLAT_WEB
      else if platS = ''WinPhone'' then PLAT_WINPHONE
      else if platS = ''PC'' then PLAT_PC
      else 0)"

definition balancer :: "('r, 'w) renv \<Rightarrow> comet list \<Rightarrow> string \<Rightarrow> int \<Rightarrow> ('r, 'w) Router \<Rightarrow>
    string \<times> ('r, 'w) Router" where
  "balancer E order uid plat R =
     (let (s, st) = FindSessions (storeEnv E) uid (store R); R = R\<lparr>store := st\<rparr>;
          own = (case s of None \<Rightarrow> None | Some p \<Rightarrow> findComet (CometId (sssHeap st p)) (comets R))
      in case own of
           Some c \<Rightarrow> (if plat = PLAT_WEB then wsAddr c else tcpAddr c, R)
         | None \<Rightarrow>
             (case poolBalancer order of
                Some c \<Rightarrow> (if plat = 8 then wsAddr c else tcpAddr c, R)
              | None \<Rightarrow> ([], R)))"

text \<open>\<^verbatim>\<open>loadDispatcher\<close>: only a POST is answered.\<close>

definition loadDispatcher :: "('r, 'w) renv \<Rightarrow> comet list \<Rightarrow> string \<Rightarrow> string \<Rightarrow> string \<Rightarrow>
    ('r, 'w) Router \<Rightarrow> string option \<times> ('r, 'w) Router" where
  "loadDispatcher E order meth uid platS R =
     (if meth \<noteq> ''POST'' then (None, R)
      else (let (addr, R) = balancer E order uid (platOfName platS) R in (Some addr, R)))"

section \<open>Calls to a comet\<close>

definition rKick :: "('r, 'w) renv \<Rightarrow> comet \<Rightarrow> string \<Rightarrow> int \<Rightarrow> string \<Rightarrow> int \<Rightarrow> ('r, 'w) Router \<Rightarrow>
    rpcErr option \<times> ('r, 'w) Router" where
  "rKick E c uid plat token reason R =
     (let (err, w) = Kick (trans E) (rpcClient c) uid plat token reason (world R)
      in (err, R\<lparr>world := w\<rparr>))"

definition rPush :: "('r, 'w) renv \<Rightarrow> comet \<Rightarrow> int \<Rightarrow> string \<Rightarrow> int \<Rightarrow> string \<Rightarrow> int \<Rightarrow> bytes \<Rightarrow>
    ('r, 'w) Router \<Rightarrow> rpcErr option \<times> ('r, 'w) Router" where
  "rPush E c msgType uid plat iosToken flag msg R =
     (let (err, w) = PushTo (trans E) (rpcClient c) msgType uid plat iosToken flag msg (world R)
      in (err, R\<lparr>world := w\<rparr>))"

definition SaveOfflineMsg :: "('r, 'w) renv \<Rightarrow> int \<Rightarrow> string \<Rightarrow> int \<Rightarrow> bytes \<Rightarrow> ('r, 'w) Router \<Rightarrow>
    ('r, 'w) Router" where
  "SaveOfflineMsg E msgType uid termtype msg R =
     (if msgType = MSGTYPE_PUSH then R\<lparr>store := SavePushMsg (storeEnv E) uid termtype msg (store R)\<rparr>
      else if msgType = MSGTYPE_CALLBACK then
        R\<lparr>store := SaveCallbackMsg (storeEnv E) uid termtype msg (store R)\<rparr>
      else if msgType = MSGTYPE_MESSAGE then
        R\<lparr>store := SaveImMsg (storeEnv E) uid termtype msg (store R)\<rparr>
      else R)"

section \<open>userOnlineState\<close>

text \<open>The notice for the phone that is being logged out, in UTF-8.\<close>

definition kickNotice :: bytes where
  "kickNotice =
    [228, 189, 160, 231, 154, 132, 229, 184, 144, 229, 143, 183, 229, 183, 178, 229, 156,
     168, 229, 143, 166, 228, 184, 128, 229, 143, 176, 230, 137, 139, 230, 156, 186, 228,
     184, 138, 231, 153, 187, 229, 189, 149, 239, 188, 140, 232, 139, 165, 233, 157, 158,
     230, 156, 172, 228, 186, 186, 230, 147, 141, 228, 189, 156, 239, 188, 140, 232, 175,
     183, 231, 153, 187, 229, 189, 149, 229, 144, 142, 228, 191, 174, 230, 148, 185, 229,
     175, 134, 231, 160, 129]"

text \<open>
  Kick the terminal \<open>v\<close> (and tell an iPhone why): the block that both branches of the loop
  share but for the reason.
\<close>

definition kickTerminal :: "('r, 'w) renv \<Rightarrow> ref \<Rightarrow> Session \<Rightarrow> bool \<Rightarrow> int \<Rightarrow> ('r, 'w) Router \<Rightarrow>
    ('r, 'w) Router" where
  "kickTerminal E p v login reason R =
     (if Online v \<and> Login v \<and> login then
        (case findComet (CometId (sssHeap (store R) p)) (comets R) of
           None \<Rightarrow> R
         | Some c \<Rightarrow>
             (let R = snd (rKick E c (SessId v) (Plat v) (AuthCode v) reason R)
              in if Plat v = PLAT_IOS
                 then snd (rPush E c 1 (SessId v) (Plat v) (IOSToken v) 1 kickNotice R)
                 else R))
      else R)"

definition modStore :: "('r Storager \<Rightarrow> 'r Storager) \<Rightarrow> ('r, 'w) Router \<Rightarrow> ('r, 'w) Router" where
  "modStore f R = R\<lparr>store := f (store R)\<rparr>"

definition mutexPlats :: "int \<Rightarrow> int \<Rightarrow> bool" where
  "mutexPlats a b \<longleftrightarrow> 1 \<le> (a OR b) \<and> (a OR b) \<le> 3"

text \<open>
  The loop \<^verbatim>\<open>for i, v := range sess.Sess\<close>. The range expression is evaluated once, so the
  loop runs over the indices of the slice \<open>s0\<close> the session had at the start and reads
  \<open>v\<close> from its backing array, while a removal shortens \<^verbatim>\<open>sess.Sess\<close> and moves the elements
  of that same array.
\<close>

fun onlineLoop :: "('r, 'w) renv \<Rightarrow> UserOnlineState \<Rightarrow> ref \<Rightarrow> slice \<Rightarrow> nat list \<Rightarrow> bool \<Rightarrow>
    ('r, 'w) Router \<Rightarrow> (gopanic + bool) \<times> ('r, 'w) Router" where
  "onlineLoop E msg p s0 [] found R = (Inr found, R)"
| "onlineLoop E msg p s0 (i # is) found R =
     (let a = arrHeap (store R) (arr s0) ! i; v = sessHeap (store R) a in
      if Plat v = uoTermtype msg then
        (let R = kickTerminal E p v (uoLogin msg) KICK_REASON_REPEAT R;
             R = modStore (modSess a (\<lambda>v. v\<lparr>AuthCode := uoCode msg, IOSToken := uoDeviceToken msg,
                   Login := uoLogin msg\<rparr>)) R
         in onlineLoop E msg p s0 is True R)
      else if mutexPlats (Plat v) (uoTermtype msg) then
        (let R = kickTerminal E p v (uoLogin msg) KICK_REASON_MUTEX R in
         case deleteAt (Sess (sssHeap (store R) p)) i (store R) of
           Inl panic \<Rightarrow> (Inl panic, R)
         | Inr (s, st) \<Rightarrow>
             onlineLoop E msg p s0 is found
               (modStore (modSessions p (\<lambda>v. v\<lparr>Sess := s\<rparr>)) (R\<lparr>store := st\<rparr>)))
      else onlineLoop E msg p s0 is found R)"

definition newTerminal :: "UserOnlineState \<Rightarrow> Session" where
  "newTerminal msg = zeroSession\<lparr>SessId := uoUid msg, Plat := uoTermtype msg, Online := False,
     Login := uoLogin msg, AuthCode := uoCode msg, IOSToken := uoDeviceToken msg\<rparr>"

text \<open>\<^verbatim>\<open>sess.Sess = append(sess.Sess, &it)\<close>\<close>

definition addTerminal :: "UserOnlineState \<Rightarrow> ref \<Rightarrow> 'r Storager \<Rightarrow> 'r Storager" where
  "addTerminal msg p st =
     (let (a, st) = newSession (newTerminal msg) st;
          (s, st) = appendSlice (Sess (sssHeap st p)) a st
      in modSessions p (\<lambda>v. v\<lparr>Sess := s\<rparr>) st)"

definition saveIn :: "('r, 'w) renv \<Rightarrow> ref \<Rightarrow> ('r, 'w) Router \<Rightarrow> ('r, 'w) Router" where
  "saveIn E p = modStore (\<lambda>st. snd (SaveSessions (storeEnv E) p st))"

definition onUserOnline :: "('r, 'w) renv \<Rightarrow> UserOnlineState \<Rightarrow> ('r, 'w) Router \<Rightarrow>
    gopanic option \<times> ('r, 'w) Router" where
  "onUserOnline E msg R =
     (if \<not> uoLogin msg then (None, R)
      else
        (let (s, st) = FindSessions (storeEnv E) (uoUid msg) (store R); R = R\<lparr>store := st\<rparr> in
         case s of
           Some p \<Rightarrow>
             (let s0 = Sess (sssHeap (store R) p);
                  (r, R) = onlineLoop E msg p s0 [0..<slen s0] False R
              in case r of
                   Inl panic \<Rightarrow> (Some panic, R)
                 | Inr found \<Rightarrow>
                     (None, saveIn E p (if found then R else modStore (addTerminal msg p) R)))
         | None \<Rightarrow>
             (let (q, st) = newSessions (zeroSessions\<lparr>SsId := uoUid msg\<rparr>) (store R)
              in (None, saveIn E q (modStore (addTerminal msg q) (R\<lparr>store := st\<rparr>))))))"

section \<open>push, callback and msgDownward\<close>

text \<open>The loop over the terminals of one receiver, read from the backing array as it goes.\<close>

fun pushLoop :: "('r, 'w) renv \<Rightarrow> comet \<Rightarrow> int \<Rightarrow> MsgDownward \<Rightarrow> int \<Rightarrow> slice \<Rightarrow> nat list \<Rightarrow>
    ('r, 'w) Router \<Rightarrow> ('r, 'w) Router" where
  "pushLoop E c msgType msg termtype s0 [] R = R"
| "pushLoop E c msgType msg termtype s0 (i # is) R =
     (let it = sessHeap (store R) (arrHeap (store R) (arr s0) ! i) in
      if (Plat it AND termtype) > 0 then
        (let (err, R) = rPush E c msgType (SessId it) (Plat it) (IOSToken it) (mdFlag msg) (mdBody msg) R
         in pushLoop E c msgType msg termtype s0 is
              (if err \<noteq> None \<and> Plat it \<noteq> PLAT_WEB
               then SaveOfflineMsg E msgType (SessId it) (Plat it) (mdBody msg) R else R))
      else pushLoop E c msgType msg termtype s0 is R)"

fun offlineLoop :: "('r, 'w) renv \<Rightarrow> int \<Rightarrow> MsgDownward \<Rightarrow> int \<Rightarrow> slice \<Rightarrow> nat list \<Rightarrow>
    ('r, 'w) Router \<Rightarrow> ('r, 'w) Router" where
  "offlineLoop E msgType msg termtype s0 [] R = R"
| "offlineLoop E msgType msg termtype s0 (i # is) R =
     (let it = sessHeap (store R) (arrHeap (store R) (arr s0) ! i) in
      offlineLoop E msgType msg termtype s0 is
        (if (Plat it AND termtype) > 0
         then SaveOfflineMsg E msgType (SessId it) (Plat it) (mdBody msg) R else R))"

definition pushReceiver :: "('r, 'w) renv \<Rightarrow> int \<Rightarrow> MsgDownward \<Rightarrow> Receiver \<Rightarrow> ('r, 'w) Router \<Rightarrow>
    ('r, 'w) Router" where
  "pushReceiver E msgType msg rc R =
     (let (s, st) = FindSessions (storeEnv E) (rcUid rc) (store R); R = R\<lparr>store := st\<rparr> in
      case s of None \<Rightarrow> R
      | Some p \<Rightarrow>
          (let s0 = Sess (sssHeap st p) in
           case findComet (CometId (sssHeap st p)) (comets R) of
             None \<Rightarrow> offlineLoop E msgType msg (rcTermtype rc) s0 [0..<slen s0] R
           | Some c \<Rightarrow> pushLoop E c msgType msg (rcTermtype rc) s0 [0..<slen s0] R))"

definition topicType :: "string \<Rightarrow> int" where
  "topicType topic =
     (if topic = ''push'' then MSGTYPE_PUSH
      else if topic = ''callback'' then MSGTYPE_CALLBACK
      else if topic = ''msgDownward'' then MSGTYPE_MESSAGE
      else 0)"

section \<open>NsqHandler\<close>

definition onSessionTimeout :: "('r, 'w) renv \<Rightarrow> SessionTimeout \<Rightarrow> ('r, 'w) Router \<Rightarrow> ('r, 'w) Router" where
  "onSessionTimeout E msg R =
     (let (on, st) = SessionOnline (storeEnv E) (tsUid (stSess msg)) (tsTermtype (stSess msg)) (store R);
          msg = (if on then msg\<lparr>stSess := (stSess msg)\<lparr>tsFlag := 1\<rparr>\<rparr> else msg);
          (ok, w) = Publish (publish E) (stBackTopic msg) (maTimeout E msg) (world R)
      in R\<lparr>store := st, world := w\<rparr>)"

text \<open>
  The switch over the configured topics, in the order of its cases; fewer than five topics
  make the first case panic.
\<close>

definition NsqHandler :: "('r, 'w) renv \<Rightarrow> string \<Rightarrow> bytes \<Rightarrow> ('r, 'w) Router \<Rightarrow>
    gopanic option \<times> ('r, 'w) Router" where
  "NsqHandler E topic b R =
     (let ts = topics R in
      if length ts \<le> 4 then (Some IndexOutOfRange, R)
      else if topic = ts ! 4 then
        (case unTimeout E b of None \<Rightarrow> (None, R) | Some msg \<Rightarrow> (None, onSessionTimeout E msg R))
      else if topic = ts ! 0 then
        (case unOnline E b of None \<Rightarrow> (None, R) | Some msg \<Rightarrow> onUserOnline E msg R)
      else if topic = ts ! 1 \<or> topic = ts ! 2 \<or> topic = ts ! 3 then
        (case unDown E b of None \<Rightarrow> (None, R)
         | Some msg \<Rightarrow> (None, fold (pushReceiver E (topicType topic) msg) (mdReceivers msg) R))
      else (None, R))"

text \<open>What the queue delivers, through the dispatcher; the handler recovers from a panic.\<close>

definition onNsq :: "('r, 'w) renv \<Rightarrow> string \<Rightarrow> bytes \<Rightarrow> ('r, 'w) Router \<Rightarrow> ('r, 'w) Router" where
  "onNsq E = HandleMessage (\<lambda>topic b R. snd (NsqHandler E topic b R))"

section \<open>RPC handlers\<close>

text \<open>
  The loop of an offline report: it takes one from the comet's counter for every terminal it
  looks at and returns from the handler, without saving, at the terminal that matches.
\<close>

fun offlineReportLoop :: "string \<Rightarrow> int \<Rightarrow> string \<Rightarrow> slice \<Rightarrow> nat list \<Rightarrow> ('r, 'w) Router \<Rightarrow>
    bool \<times> ('r, 'w) Router" where
  "offlineReportLoop cid termtype token s0 [] R = (False, R)"
| "offlineReportLoop cid termtype token s0 (i # is) R =
     (let R = R\<lparr>comets := cometSub cid (comets R)\<rparr>;
          a = arrHeap (store R) (arr s0) ! i; it = sessHeap (store R) a in
      if Plat it = termtype \<and> AuthCode it = token
      then (True, modStore (modSess a (\<lambda>it. it\<lparr>Online := False\<rparr>)) R)
      else offlineReportLoop cid termtype token s0 is R)"

definition onlineReport :: "int \<Rightarrow> string \<Rightarrow> ref \<Rightarrow> 'r Storager \<Rightarrow> 'r Storager" where
  "onlineReport termtype token a st =
     (if Plat (sessHeap st a) = termtype \<and> AuthCode (sessHeap st a) = token
      then modSess a (\<lambda>it. it\<lparr>Online := True\<rparr>) st else st)"

fun RpcAsyncHandle :: "('r, 'w) renv \<Rightarrow> rpcRequest \<Rightarrow> ('r, 'w) Router \<Rightarrow> ('r, 'w) Router" where
  "RpcAsyncHandle E (StateNotify uid termtype token cid state) R =
     (if state = 0 then
        (let (s, st) = FindSessions (storeEnv E) uid (store R); R = R\<lparr>store := st\<rparr> in
         case s of None \<Rightarrow> R
         | Some p \<Rightarrow>
             (let R = modStore (modSessions p (\<lambda>v. v\<lparr>CometId := cid\<rparr>)) R;
                  s0 = Sess (sssHeap (store R) p);
                  (returned, R) = offlineReportLoop cid termtype token s0 [0..<slen s0] R
              in if returned then R else saveIn E p R))
      else if state = 1 then
        (let (s, st) = FindSessions (storeEnv E) uid (store R); R = R\<lparr>store := st\<rparr> in
         case s of None \<Rightarrow> R
         | Some p \<Rightarrow>
             (let R = modStore (modSessions p (\<lambda>v. v\<lparr>CometId := cid\<rparr>)) R;
                  R = R\<lparr>comets := cometAdd cid (comets R)\<rparr>;
                  R = modStore (fold (onlineReport termtype token) (sessRefs (store R) p)) R
              in saveIn E p R))
      else R)"
| "RpcAsyncHandle E _ R = R"

text \<open>
  \<^verbatim>\<open>Auth\<close>: the first terminal of the type with the right code that is logged in answers; a
  terminal of the type with a wrong code does not end the search.
\<close>

definition authOk :: "int \<Rightarrow> string \<Rightarrow> Session \<Rightarrow> bool" where
  "authOk termtype code v \<longleftrightarrow> Plat v = termtype \<and> AuthCode v = code \<and> Login v"

fun RpcSyncHandle :: "('r, 'w) renv \<Rightarrow> rpcRequest \<Rightarrow> ('r, 'w) Router \<Rightarrow> int \<times> ('r, 'w) Router" where
  "RpcSyncHandle E (AuthRequest uid termtype code) R =
     (let (s, st) = FindSessions (storeEnv E) uid (store R); R = R\<lparr>store := st\<rparr> in
      case s of None \<Rightarrow> (RPC_RET_FAILED, R)
      | Some p \<Rightarrow>
          (if \<exists>a \<in> set (sessRefs st p). authOk termtype code (sessHeap st a)
           then RPC_RET_SUCCESS else RPC_RET_FAILED, R))"
| "RpcSyncHandle E (CometRegister cid tcp ws rpc) R =
     (case findComet cid (comets R) of
        Some c \<Rightarrow>
          (let c = c\<lparr>comId := cid, tcpAddr := tcp, wsAddr := ws\<rparr>;
               w = Close (trans E) (rpcClient c) (world R);
               (r, w) = NewRpcClient (trans E) cid rpc (status (rpcClient c)) w
           in case r of
                Inl err \<Rightarrow> (RPC_RET_FAILED, R\<lparr>comets := deleteComet cid (comets R), world := w\<rparr>)
              | Inr client \<Rightarrow>
                  (RPC_RET_SUCCESS,
                   R\<lparr>comets := insertComet cid (c\<lparr>rpcClient := client\<rparr>) (comets R), world := w\<rparr>))
      | None \<Rightarrow>
          (let (r, w) = NewRpcClient (trans E) cid rpc [] (world R)
           in case r of
                Inl err \<Rightarrow> (RPC_RET_FAILED, R\<lparr>world := w\<rparr>)
              | Inr client \<Rightarrow>
                  (RPC_RET_SUCCESS,
                   R\<lparr>comets := insertComet cid
                       \<lparr>comId = cid, rpcClient = client, tcpAddr = tcp, wsAddr = ws, online = 0\<rparr>
                       (comets R), world := w\<rparr>)))"
| "RpcSyncHandle E (MsgUpwardRequst uid termtype msg) R =
     (let b = maUpward E \<lparr>umUid = uid, umTermtype = termtype, umBody = msg\<rparr>;
          (ok, w) = Publish (publish E) (upMsgTopic R) b (world R)
      in (if ok then RPC_RET_SUCCESS else RPC_RET_FAILED, R\<lparr>world := w\<rparr>))"
| "RpcSyncHandle E _ R = (RPC_RET_FAILED, R)"

text \<open>
  \<^verbatim>\<open>checkRpc\<close>, one receive of the state channel: on 0 reconnect, and drop the comet and end
  the loop (\<open>False\<close>) when that fails; on 1 start the heartbeat. The goroutine holds the pointer
  \<open>c\<close> it was started with; \<open>pooled\<close> says whether that is still the pool's entry, so that
  reconnecting changes the entry. An object that is no longer in the pool is reconnected without
  effect on it, but when that fails the entry under its id is dropped all the same.
\<close>

definition checkRpc :: "('r, 'w) renv \<Rightarrow> bool \<Rightarrow> comet \<Rightarrow> int \<Rightarrow> ('r, 'w) Router \<Rightarrow> bool \<times> ('r, 'w) Router" where
  "checkRpc E pooled c i R =
     (if i = 0 then
        (case ReConnect (trans E) (rpcClient c) (world R) of
           (Inl err, w) \<Rightarrow> (False, R\<lparr>comets := deleteComet (comId c) (comets R), world := w\<rparr>)
         | (Inr client, w) \<Rightarrow>
             (True, R\<lparr>comets := (if pooled then insertComet (comId c) (c\<lparr>rpcClient := client\<rparr>) (comets R) else comets R),
                world := w\<rparr>))
      else (True, R))"

text \<open>The loop of \<^verbatim>\<open>Start\<close> that clears a comet that has gone: its entry and its users' state.\<close>

definition onCometExit :: "('r, 'w) renv \<Rightarrow> string list \<Rightarrow> string \<Rightarrow> ('r, 'w) Router \<Rightarrow> ('r, 'w) Router" where
  "onCometExit E order cid R =
     (let R = R\<lparr>comets := deleteComet cid (comets R)\<rparr>
      in modStore (OfflineComet (storeEnv E) cid order) R)"

end
