(* ===== verification/TextForm.thy ===== *)
theory TextForm
  imports Prelude
begin

text \<open>
  A concrete text form of data, for the witnesses: the stores take the text form of what they
  keep as a parameter, and this is the instance they are evaluated on. A number is written in
  unary and a list with its length in front; every reader undoes its writer and leaves what
  follows.
\<close>

section \<open>A self-delimiting text form\<close>

definition inverts :: "(bytes \<Rightarrow> ('a \<times> bytes) option) \<Rightarrow> ('a \<Rightarrow> bytes) \<Rightarrow> bool" where
  "inverts d f \<longleftrightarrow> (\<forall>x bs. d (f x @ bs) = Some (x, bs))"

lemma invertsI: "(\<And>x bs. d (f x @ bs) = Some (x, bs)) \<Longrightarrow> inverts d f"
  by (simp add: inverts_def)

lemma invertsD: "inverts d f \<Longrightarrow> d (f x @ bs) = Some (x, bs)"
  by (simp add: inverts_def)

definition andThen :: "('a \<times> bytes) option \<Rightarrow> ('a \<Rightarrow> bytes \<Rightarrow> ('b \<times> bytes) option) \<Rightarrow> ('b \<times> bytes) option" where
  "andThen r k = (case r of None \<Rightarrow> None | Some (x, bs) \<Rightarrow> k x bs)"

lemma andThen_simps [simp]: "andThen None k = None" "andThen (Some (x, bs)) k = k x bs"
  by (simp_all add: andThen_def)

definition putNat :: "nat \<Rightarrow> bytes" where
  "putNat n = replicate n 1 @ [0]"

fun getNat :: "bytes \<Rightarrow> (nat \<times> bytes) option" where
  "getNat [] = None"
| "getNat (b # bs) = (if b = 0 then Some (0, bs) else andThen (getNat bs) (\<lambda>n bs. Some (Suc n, bs)))"

definition putBool :: "bool \<Rightarrow> bytes" where
  "putBool b = [if b then 1 else 0]"

fun getBool :: "bytes \<Rightarrow> (bool \<times> bytes) option" where
  "getBool [] = None"
| "getBool (b # bs) = Some (b = 1, bs)"

fun getByte :: "bytes \<Rightarrow> (byte \<times> bytes) option" where
  "getByte [] = None"
| "getByte (b # bs) = Some (b, bs)"

definition putChar :: "char \<Rightarrow> bytes" where
  "putChar c = [of_nat (of_char c)]"

fun getChar :: "bytes \<Rightarrow> (char \<times> bytes) option" where
  "getChar [] = None"
| "getChar (b # bs) = Some (char_of (unat b), bs)"

definition putInt :: "int \<Rightarrow> bytes" where
  "putInt i = putBool (i < 0) @ putNat (nat \<bar>i\<bar>)"

definition getInt :: "bytes \<Rightarrow> (int \<times> bytes) option" where
  "getInt bs = andThen (getBool bs) (\<lambda>neg bs. andThen (getNat bs) (\<lambda>n bs.
     Some (if neg then - int n else int n, bs)))"

definition putList :: "('a \<Rightarrow> bytes) \<Rightarrow> 'a list \<Rightarrow> bytes" where
  "putList f xs = putNat (length xs) @ concat (map f xs)"

fun getMany :: "(bytes \<Rightarrow> ('a \<times> bytes) option) \<Rightarrow> nat \<Rightarrow> bytes \<Rightarrow> ('a list \<times> bytes) option" where
  "getMany d 0 bs = Some ([], bs)"
| "getMany d (Suc n) bs = andThen (d bs) (\<lambda>x bs. andThen (getMany d n bs) (\<lambda>xs bs. Some (x # xs, bs)))"

definition getList :: "(bytes \<Rightarrow> ('a \<times> bytes) option) \<Rightarrow> bytes \<Rightarrow> ('a list \<times> bytes) option" where
  "getList d bs = andThen (getNat bs) (getMany d)"

lemma char_of_byte [simp]: "(char_of (unat (of_nat (of_char c) :: byte)) :: char) = c"
  by (simp add: unat_of_nat)

lemma get_put [simp]:
  "getNat (putNat n @ bs) = Some (n, bs)" "getBool (putBool b @ bs) = Some (b, bs)"
  "getChar (putChar c @ bs) = Some (c, bs)"
proof -
  show "getNat (putNat n @ bs) = Some (n, bs)"
    by (induction n) (auto simp: putNat_def)
qed (simp_all add: putBool_def putChar_def)

lemma get_putInt [simp]: "getInt (putInt i @ bs) = Some (i, bs)"
  by (simp add: getInt_def putInt_def)

lemma inverts_basic [simp]: "inverts getByte (\<lambda>b. [b])" "inverts getChar putChar"
  by (simp_all add: inverts_def)

lemma get_putList [simp]:
  assumes "inverts d f"
  shows "getList d (putList f xs @ bs) = Some (xs, bs)"
proof -
  have "getMany d (length xs) (concat (map f xs) @ bs) = Some (xs, bs)"
    using assms by (induction xs) (auto simp: invertsD)
  then show ?thesis by (simp add: getList_def putList_def)
qed

end
