(* ===== verification/RdsExample.thy ===== *)
theory RdsExample
  imports RdsTrace TextForm
begin

text \<open>
  A concrete redis (a finite map) and a concrete text form of stored sessions, the instances
  on which the witnesses of the store, the router and the comet are evaluated.
\<close>

section \<open>The text form of a document\<close>

definition putItem :: "Item \<Rightarrow> bytes" where
  "putItem v = putBool (WebOnline v) @ putList (\<lambda>b. [b]) (Msg v)"

definition getItem :: "bytes \<Rightarrow> (Item \<times> bytes) option" where
  "getItem bs = andThen (getBool bs) (\<lambda>w bs. andThen (getList getByte bs) (\<lambda>m bs.
     Some (\<lparr>WebOnline = w, Msg = m\<rparr>, bs)))"

definition putBody :: "Body \<Rightarrow> bytes" where
  "putBody b = putNat (unat (OffCnt (BodyPush b))) @ putList (\<lambda>b. [b]) (PushMsg (BodyPush b)) @
     putList putItem (CB b) @ putList putItem (Im b)"

definition getBody :: "bytes \<Rightarrow> (Body \<times> bytes) option" where
  "getBody bs = andThen (getNat bs) (\<lambda>n bs. andThen (getList getByte bs) (\<lambda>m bs.
     andThen (getList getItem bs) (\<lambda>cb bs. andThen (getList getItem bs) (\<lambda>im bs.
     Some (\<lparr>BodyPush = \<lparr>OffCnt = of_nat n, PushMsg = m\<rparr>, CB = cb, Im = im\<rparr>, bs)))))"

definition putSession :: "Session \<Rightarrow> bytes" where
  "putSession s = putList putChar (SessId s) @ putInt (Plat s) @ putBool (Online s) @
     putBool (Login s) @ putList putChar (AuthCode s) @ putList putChar (IOSToken s) @ putBody (OffMsg s)"

definition getSession :: "bytes \<Rightarrow> (Session \<times> bytes) option" where
  "getSession bs = andThen (getList getChar bs) (\<lambda>i bs. andThen (getInt bs) (\<lambda>p bs.
     andThen (getBool bs) (\<lambda>onl bs. andThen (getBool bs) (\<lambda>l bs.
     andThen (getList getChar bs) (\<lambda>c bs. andThen (getList getChar bs) (\<lambda>t bs.
     andThen (getBody bs) (\<lambda>b bs.
       Some (\<lparr>SessId = i, Plat = p, Online = onl, Login = l, AuthCode = c, IOSToken = t, OffMsg = b\<rparr>, bs))))))))"

definition putDoc :: "SessionsDoc \<Rightarrow> bytes" where
  "putDoc d = putList putChar (DocId d) @ putList putChar (DocComet d) @ putList putSession (DocSess d)"

definition getDoc :: "bytes \<Rightarrow> (SessionsDoc \<times> bytes) option" where
  "getDoc bs = andThen (getList getChar bs) (\<lambda>i bs. andThen (getList getChar bs) (\<lambda>c bs.
     andThen (getList getSession bs) (\<lambda>ss bs. Some (\<lparr>DocId = i, DocComet = c, DocSess = ss\<rparr>, bs))))"

lemma inverts_Item [simp]: "inverts getItem putItem"
  by (rule invertsI) (simp add: getItem_def putItem_def)

lemmas get_putItem [simp] = invertsD [OF inverts_Item]

lemma inverts_Body [simp]: "inverts getBody putBody"
  by (rule invertsI) (simp add: getBody_def putBody_def)

lemmas get_putBody [simp] = invertsD [OF inverts_Body]

lemma inverts_Session [simp]: "inverts getSession putSession"
  by (rule invertsI) (simp add: getSession_def putSession_def)

lemmas get_putSession [simp] = invertsD [OF inverts_Session]

lemma inverts_Doc [simp]: "inverts getDoc putDoc"
  by (rule invertsI) (simp add: getDoc_def putDoc_def)

lemmas get_putDoc [simp] = invertsD [OF inverts_Doc]

section \<open>The redis\<close>

type_synonym redis = "string \<rightharpoonup> bytes"

definition mapEnv :: "redis env" where
  "mapEnv = \<lparr>rget = (\<lambda>r k. (r k, r)), rset = (\<lambda>r k b. (True, r(k \<mapsto> b))),
     jenc = (\<lambda>d. Some (putDoc d)), jdec = (\<lambda>bs. map_option fst (getDoc bs))\<rparr>"

lemma getDoc_putDoc [simp]: "getDoc (putDoc d) = Some (d, [])"
  using invertsD [OF inverts_Doc, of d "[]"] by (simp only: append_Nil2)

lemma mapEnv_simps [simp]:
  "rget mapEnv r k = (r k, r)" "rset mapEnv r k b = (True, r(k \<mapsto> b))"
  "jenc mapEnv d = Some (putDoc d)" "jdec mapEnv (putDoc d) = Some d"
  by (simp_all add: mapEnv_def)

lemma mapEnv_ok: "redis_ok mapEnv"
  by (simp add: redis_ok_def)

text \<open>A store that has one user cached and persisted.\<close>

definition exStore :: "string \<Rightarrow> SessionsDoc \<Rightarrow> redis Storager" where
  "exStore uid d = snd (FindSessions mapEnv uid (NewStorager [uid \<mapsto> putDoc d]))"

lemma exStore:
  assumes "DocId d = uid"
  shows "st_wf (exStore uid d)" "cached (exStore uid d) = [uid \<mapsto> d]"
    "persisted mapEnv (cli (exStore uid d)) uid d" "cli (exStore uid d) = [uid \<mapsto> putDoc d]"
proof -
  let ?st = "NewStorager [uid \<mapsto> putDoc d]"
  have l: "loads mapEnv ?st uid"
    using assms by (auto simp: loads_def key_ok_def NewStorager_def)
  have look: "lookupDoc mapEnv ?st uid = Some d" by (simp add: lookupDoc_def NewStorager_def)
  have c: "cached ?st = Map.empty" by (simp add: cached_def NewStorager_def fun_eq_iff)
  show "st_wf (exStore uid d)" "cached (exStore uid d) = [uid \<mapsto> d]"
    using look c unfolding exStore_def
    by (cases rule: FindSessions_cases [OF wf_NewStorager l]; simp)+
  obtain q st' where alloc: "allocDoc d ?st = (q, st')" by fastforce
  show cli: "cli (exStore uid d) = [uid \<mapsto> putDoc d]"
    using allocDoc_spec(8) [OF alloc] alloc
    by (simp add: exStore_def FindSessions_def NewStorager_def)
  from cli show "persisted mapEnv (cli (exStore uid d)) uid d" by (simp add: persisted_def)
qed

text \<open>A user with an Android terminal and a web page.\<close>

definition exPhone :: Session where
  "exPhone = zeroSession\<lparr>SessId := ''u'', Plat := 1, Online := True, Login := True, AuthCode := ''old''\<rparr>"

definition exWeb :: Session where
  "exWeb = zeroSession\<lparr>SessId := ''u'', Plat := 8, Login := True, AuthCode := ''web''\<rparr>"

definition exDoc :: SessionsDoc where
  "exDoc = \<lparr>DocId = ''u'', DocComet = ''c1'', DocSess = [exPhone, exWeb]\<rparr>"

lemma exDoc_simps [simp]:
  "DocId exDoc = ''u''" "DocComet exDoc = ''c1''" "DocSess exDoc = [exPhone, exWeb]"
  "Plat exPhone = 1" "Plat exWeb = 8" "SessId exPhone = ''u''" "SessId exWeb = ''u''"
  "AuthCode exPhone = ''old''" "AuthCode exWeb = ''web''" "Online exPhone" "\<not> Online exWeb"
  "Login exPhone" "Login exWeb" "OffMsg exPhone = zeroBody" "OffMsg exWeb = zeroBody"
  "IOSToken exPhone = []" "IOSToken exWeb = []"
  by (simp_all add: exDoc_def exPhone_def exWeb_def zeroSession_def)

lemma exDoc_ascii: "asciiDoc exDoc"
  by (simp add: asciiDoc_def ascii_def)

definition exSt :: "redis Storager" where
  "exSt = exStore ''u'' exDoc"

lemma exSt: "st_wf exSt" "cached exSt = [''u'' \<mapsto> exDoc]" "persisted mapEnv (cli exSt) ''u'' exDoc"
  using exStore [of exDoc "''u''"] by (simp_all add: exSt_def)

lemma exSt_cli: "cli exSt = [''u'' \<mapsto> putDoc exDoc]"
  using exStore(4) [of exDoc "''u''"] by (simp add: exSt_def)

end
