(* ===== verification/RouterSpec.thy ===== *)
theory RouterSpec
  imports Router RdsExample
begin

text \<open>
  What a login (\<^verbatim>\<open>userOnlineState\<close>) does to a user's document, and the proof that the
  handler, which removes an element from the slice it ranges over, does exactly that for
  documents with one terminal per platform and at most one phone.
\<close>

section \<open>Mutually exclusive platforms\<close>

text \<open>The bit test \<^verbatim>\<open>1 <= a|b <= 3\<close>: both platforms are phones (0 to 3), and not both 0.\<close>

definition phone :: "int \<Rightarrow> bool" where
  "phone p \<longleftrightarrow> 0 \<le> p \<and> p \<le> 3"

lemma mutexPlats_phone: "mutexPlats a b \<longleftrightarrow> phone a \<and> phone b \<and> (a \<noteq> 0 \<or> b \<noteq> 0)"
proof (cases "a \<ge> 0 \<and> b \<ge> 0")
  case True
  have up: "a OR b < 4" if "a < 4" "b < 4"
    using OR_upper [of a 2 b] True that by simp
  have lo: "a \<le> a OR b" "b \<le> a OR b"
    using True or_greater_eq [of b a] or_greater_eq [of a b] by (metis or.commute)+
  from True up lo show ?thesis
    unfolding mutexPlats_def phone_def by (smt (verit) or.left_neutral)
next
  case False
  then have "a OR b < 0" by (auto simp: or_negative_int_iff)
  with False show ?thesis unfolding mutexPlats_def phone_def by linarith
qed

definition plats_ok :: "SessionsDoc \<Rightarrow> bool" where
  "plats_ok d \<longleftrightarrow> distinct (map Plat (DocSess d)) \<and>
     (\<forall>i < length (DocSess d). \<forall>j < length (DocSess d).
        phone (Plat (DocSess d ! i)) \<longrightarrow> phone (Plat (DocSess d ! j)) \<longrightarrow> i = j)"

section \<open>The specification of a login\<close>

definition relogin :: "UserOnlineState \<Rightarrow> Session \<Rightarrow> Session" where
  "relogin msg v = v\<lparr>AuthCode := uoCode msg, IOSToken := uoDeviceToken msg, Login := uoLogin msg\<rparr>"

definition onlineDoc :: "UserOnlineState \<Rightarrow> SessionsDoc \<Rightarrow> SessionsDoc" where
  "onlineDoc msg d =
     (if \<exists>s \<in> set (DocSess d). Plat s = uoTermtype msg then updDoc (uoTermtype msg) (relogin msg) d
      else d\<lparr>DocSess := filter (\<lambda>s. \<not> mutexPlats (Plat s) (uoTermtype msg)) (DocSess d) @ [newTerminal msg]\<rparr>)"

definition emptyDoc :: "string \<Rightarrow> SessionsDoc" where
  "emptyDoc uid = \<lparr>DocId = uid, DocComet = [], DocSess = []\<rparr>"

section \<open>Kicks touch only the outside\<close>

lemma rKick_frame [simp]:
  "store (snd (rKick E c uid plat token reason R)) = store R"
  "comets (snd (rKick E c uid plat token reason R)) = comets R"
  "topics (snd (rKick E c uid plat token reason R)) = topics R"
  by (simp_all add: rKick_def split: prod.split)

lemma rPush_frame [simp]:
  "store (snd (rPush E c tp uid plat tok flag msg R)) = store R"
  "comets (snd (rPush E c tp uid plat tok flag msg R)) = comets R"
  "topics (snd (rPush E c tp uid plat tok flag msg R)) = topics R"
  by (simp_all add: rPush_def split: prod.split)

lemma kickTerminal_frame [simp]:
  "store (kickTerminal E p v login reason R) = store R"
  "comets (kickTerminal E p v login reason R) = comets R"
  "topics (kickTerminal E p v login reason R) = topics R"
  by (simp_all add: kickTerminal_def Let_def split: option.split)

lemma kickTerminal_world: "\<exists>w. kickTerminal E p v login reason R = R\<lparr>world := w\<rparr>"
proof -
  have k: "\<exists>w. snd (rKick E c uid plat token reason R) = R\<lparr>world := w\<rparr>" for c uid plat token
    by (auto simp: rKick_def split: prod.split)
  have p: "\<exists>w'. snd (rPush E c tp uid plat tok flag msg (R\<lparr>world := w\<rparr>)) = R\<lparr>world := w'\<rparr>"
    for c tp uid plat tok flag msg w
    by (auto simp: rPush_def split: prod.split)
  have "\<exists>w. R = R\<lparr>world := w\<rparr>" by (rule exI [of _ "world R"]) simp
  moreover have "\<exists>w'. snd (rPush E c 1 (SessId v) (Plat v) (IOSToken v) 1 kickNotice
      (snd (rKick E c (SessId v) (Plat v) (AuthCode v) reason R))) = R\<lparr>world := w'\<rparr>" for c
    using k [of c "SessId v" "Plat v" "AuthCode v"] p by metis
  ultimately show ?thesis using k
    by (cases "findComet (CometId (sssHeap (store R) p)) (comets R)") (auto simp: kickTerminal_def Let_def)
qed

lemma modStore_simps [simp]:
  "store (modStore f R) = f (store R)" "comets (modStore f R) = comets R" "world (modStore f R) = world R"
  "topics (modStore f R) = topics R"
  by (simp_all add: modStore_def)

section \<open>The loop\<close>

lemma onlineLoop_skip:
  assumes "\<forall>i \<in> set is. Plat (sessHeap (store R) (arrHeap (store R) (arr s0) ! i)) \<noteq> uoTermtype msg \<and>
      \<not> mutexPlats (Plat (sessHeap (store R) (arrHeap (store R) (arr s0) ! i))) (uoTermtype msg)"
  shows "onlineLoop E msg p s0 is found R = (Inr found, R)"
  using assms by (induction "is") (simp_all add: Let_def)

lemma onlineLoop_skip_prefix:
  assumes "\<forall>i \<in> set is. Plat (sessHeap (store R) (arrHeap (store R) (arr s0) ! i)) \<noteq> uoTermtype msg \<and>
      \<not> mutexPlats (Plat (sessHeap (store R) (arrHeap (store R) (arr s0) ! i))) (uoTermtype msg)"
  shows "onlineLoop E msg p s0 (is @ js) found R = onlineLoop E msg p s0 js found R"
  using assms by (induction "is") (simp_all add: Let_def)

text \<open>A terminal of the same platform is updated in place; the rest of the range does nothing.\<close>

lemma onlineLoop_same:
  assumes "k < n" "\<And>i. i < n \<Longrightarrow> i \<noteq> k \<Longrightarrow> arrHeap (store R) (arr s0) ! i \<noteq> arrHeap (store R) (arr s0) ! k \<and>
      Plat (sessHeap (store R) (arrHeap (store R) (arr s0) ! i)) \<noteq> uoTermtype msg \<and>
      \<not> mutexPlats (Plat (sessHeap (store R) (arrHeap (store R) (arr s0) ! i))) (uoTermtype msg)"
    and "Plat (sessHeap (store R) (arrHeap (store R) (arr s0) ! k)) = uoTermtype msg"
  shows "\<exists>w. onlineLoop E msg p s0 [0..<n] False R =
    (Inr True, modStore (modSess (arrHeap (store R) (arr s0) ! k) (relogin msg)) (R\<lparr>world := w\<rparr>))"
proof -
  let ?a = "arrHeap (store R) (arr s0) ! k"
  let ?K = "kickTerminal E p (sessHeap (store R) ?a) (uoLogin msg) KICK_REASON_REPEAT R"
  let ?R = "modStore (modSess ?a (relogin msg)) ?K"
  obtain w where K: "?K = R\<lparr>world := w\<rparr>"
    using kickTerminal_world by metis
  have split: "[0..<n] = [0..<k] @ k # [Suc k..<n]"
    using assms(1) by (metis upt_add_eq_append upt_conv_Cons le0 less_imp_le_nat add.left_neutral le_add_diff_inverse)
  have "onlineLoop E msg p s0 [0..<n] False R = onlineLoop E msg p s0 (k # [Suc k..<n]) False R"
    unfolding split using assms by (intro onlineLoop_skip_prefix) auto
  also have "\<dots> = onlineLoop E msg p s0 [Suc k..<n] True ?R"
    using assms(3) by (simp add: relogin_def [abs_def] Let_def)
  also have "\<dots> = (Inr True, ?R)"
    using assms(2) by (intro onlineLoop_skip) auto
  finally show ?thesis using K by auto
qed

text \<open>
  A terminal of an excluding platform is removed: the elements after it move down in the array,
  and the rest of the range, which reads the moved array, does nothing.
\<close>

definition without :: "nat \<Rightarrow> nat \<Rightarrow> 'a list \<Rightarrow> 'a list" where
  "without k n xs = take k xs @ drop (k + 1) (take n xs) @ drop (n - 1) xs"

lemma without_length: "k < n \<Longrightarrow> n \<le> length xs \<Longrightarrow> length (without k n xs) = length xs"
  by (simp add: without_def)

lemma without_nth:
  assumes "k < n" "n \<le> length xs" "i < n"
  shows "without k n xs ! i = (if i < k then xs ! i else if i < n - 1 then xs ! (i + 1) else xs ! i)"
proof (cases "i < n - 1")
  case True
  then show ?thesis using assms by (auto simp: without_def nth_append min_def)
next
  case False
  then have "i = n - 1" using assms by linarith
  then show ?thesis using assms by (auto simp: without_def nth_append min_def)
qed

lemma onlineLoop_mutex:
  fixes R :: "('r, 'w) Router"
  defines "st \<equiv> store R"
  assumes s0: "Sess (sssHeap st p) = s0" "slen s0 = n" "n \<le> length (arrHeap st (arr s0))"
    and "k < n" "mutexPlats (Plat (sessHeap st (arrHeap st (arr s0) ! k))) (uoTermtype msg)"
    and ne: "\<And>i. i < n \<Longrightarrow> Plat (sessHeap st (arrHeap st (arr s0) ! i)) \<noteq> uoTermtype msg"
    and nm: "\<And>i. i < n \<Longrightarrow> i \<noteq> k \<Longrightarrow>
      \<not> mutexPlats (Plat (sessHeap st (arrHeap st (arr s0) ! i))) (uoTermtype msg)"
  shows "\<exists>w. onlineLoop E msg p s0 [0..<n] False R = (Inr False,
    modStore (\<lambda>st. modSessions p (\<lambda>v. v\<lparr>Sess := s0\<lparr>slen := n - 1\<rparr>\<rparr>)
      (st\<lparr>arrHeap := (arrHeap st)(arr s0 := without k n (arrHeap st (arr s0)))\<rparr>)) (R\<lparr>world := w\<rparr>))"
proof -
  let ?xs = "arrHeap st (arr s0)"
  let ?v = "sessHeap st (?xs ! k)"
  obtain w where K: "kickTerminal E p ?v (uoLogin msg) KICK_REASON_MUTEX R = R\<lparr>world := w\<rparr>"
    using kickTerminal_world by metis
  let ?st = "st\<lparr>arrHeap := (arrHeap st)(arr s0 := without k n ?xs)\<rparr>"
  let ?R = "modStore (modSessions p (\<lambda>v. v\<lparr>Sess := s0\<lparr>slen := n - 1\<rparr>\<rparr>)) (R\<lparr>world := w, store := ?st\<rparr>)"
  have split: "[0..<n] = [0..<k] @ k # [Suc k..<n]"
    using \<open>k < n\<close> by (metis upt_add_eq_append upt_conv_Cons le0 less_imp_le_nat add.left_neutral le_add_diff_inverse)
  have del: "deleteAt s0 k st = Inr (s0\<lparr>slen := n - 1\<rparr>, ?st)"
    using s0 \<open>k < n\<close> by (simp add: deleteAt_def without_def Let_def)
  have "onlineLoop E msg p s0 [0..<n] False R = onlineLoop E msg p s0 (k # [Suc k..<n]) False R"
    unfolding split
  proof (rule onlineLoop_skip_prefix, rule ballI)
    fix i
    assume "i \<in> set [0..<k]"
    then have "i < n" "i \<noteq> k" using \<open>k < n\<close> by auto
    with ne nm show "Plat (sessHeap (store R) (arrHeap (store R) (arr s0) ! i)) \<noteq> uoTermtype msg \<and>
        \<not> mutexPlats (Plat (sessHeap (store R) (arrHeap (store R) (arr s0) ! i))) (uoTermtype msg)"
      by (simp add: st_def)
  qed
  also have "\<dots> = onlineLoop E msg p s0 [Suc k..<n] False ?R"
    using assms(5,6) ne [OF \<open>k < n\<close>] K del s0 by (simp add: st_def Let_def)
  also have "\<dots> = (Inr False, ?R)"
    using ne nm s0(3) \<open>k < n\<close>
    by (intro onlineLoop_skip) (auto simp: modSessions_def without_nth)
  finally show ?thesis by (auto simp: modStore_def st_def)
qed

section \<open>A working copy gets another list of terminals\<close>

text \<open>
  The working copy \<open>q\<close> of \<open>uid\<close> gets the slice \<open>s\<close> over its own array or a new one, with
  terminals that were its own or are new. Nothing of another user changes; the cached entry of
  \<open>uid\<close> either still shows the old list or already shows the new one.
\<close>

definition swapped :: "'r Storager \<Rightarrow> string \<Rightarrow> ref \<Rightarrow> slice \<Rightarrow> 's Storager \<Rightarrow> bool" where
  "swapped st uid q s st' \<longleftrightarrow> st_wf st \<and> handle st uid q \<and> memStore st' = memStore st \<and> fresh st \<le> fresh st' \<and>
     (\<forall>a < fresh st. sessHeap st' a = sessHeap st a) \<and>
     (\<forall>a < fresh st. a \<noteq> arr (Sess (sssHeap st q)) \<longrightarrow> arrHeap st' a = arrHeap st a) \<and>
     sssHeap st' = (sssHeap st)(q := (sssHeap st q)\<lparr>Sess := s\<rparr>) \<and>
     slen s \<le> length (arrHeap st' (arr s)) \<and> arr s < fresh st' \<and>
     (arr s = arr (Sess (sssHeap st q)) \<or> fresh st \<le> arr s) \<and> (arr s = 0 \<longrightarrow> slen s = 0) \<and>
     distinct (elems st' s) \<and>
     (\<forall>a \<in> set (elems st' s). a < fresh st' \<and> (a \<in> set (sessRefs st q) \<or> fresh st \<le> a)) \<and>
     (elems st' (Sess (sssHeap st q)) = sessRefs st q \<or> s = Sess (sssHeap st q))"

lemma swappedD:
  assumes "swapped st uid q s st'"
  shows "st_wf st" "handle st uid q" "memStore st' = memStore st" "fresh st \<le> fresh st'"
    "\<And>a. a < fresh st \<Longrightarrow> sessHeap st' a = sessHeap st a"
    "\<And>a. a < fresh st \<Longrightarrow> a \<noteq> arr (Sess (sssHeap st q)) \<Longrightarrow> arrHeap st' a = arrHeap st a"
    "sssHeap st' = (sssHeap st)(q := (sssHeap st q)\<lparr>Sess := s\<rparr>)"
    "slen s \<le> length (arrHeap st' (arr s))" "arr s < fresh st'"
    "arr s = arr (Sess (sssHeap st q)) \<or> fresh st \<le> arr s" "arr s = 0 \<longrightarrow> slen s = 0" "distinct (elems st' s)"
    "\<And>a. a \<in> set (elems st' s) \<Longrightarrow> a < fresh st' \<and> (a \<in> set (sessRefs st q) \<or> fresh st \<le> a)"
    "elems st' (Sess (sssHeap st q)) = sessRefs st q \<or> s = Sess (sssHeap st q)"
  using assms unfolding swapped_def by blast+

lemma swapped_refs: "swapped st uid q s st' \<Longrightarrow> sessRefs st' q = elems st' s"
  by (simp add: sessRefs_def swappedD(7))

lemma swapped_copy:
  assumes "swapped st uid q s st'"
  shows "wfp st' q" "SsId (sssHeap st' q) = uid"
  using swappedD [OF assms] swapped_refs [OF assms] by (auto simp: wfp_def handle_def)

text \<open>The entries of other users.\<close>

lemma swapped_other:
  assumes S: "swapped st uid q s st'" and p': "memStore st uid' = Some p'" "uid' \<noteq> uid"
  shows "p' \<noteq> q" "sssHeap st' p' = sssHeap st p'" "sessRefs st' p' = sessRefs st p'" "wfp st' p'" "wfp st p'"
    "docOf st' p' = docOf st p'" "separate st q p'" "SsId (sssHeap st p') = uid'"
proof -
  note D = swappedD [OF S]
  note w = wfD [OF D(1) p'(1)]
  show sep: "separate st q p'" using handle_owner [OF D(1,2)] p' by (auto simp: owner_def)
  then have ne: "p' \<noteq> q" "arr (Sess (sssHeap st p')) \<noteq> arr (Sess (sssHeap st q))" by (auto simp: separate_def)
  show "p' \<noteq> q" by (rule ne(1))
  show sx: "sssHeap st' p' = sssHeap st p'" using ne by (simp add: D(7))
  have ar: "arrHeap st' (arr (Sess (sssHeap st p'))) = arrHeap st (arr (Sess (sssHeap st p')))"
    using w(1) ne(2) D(6) by (simp add: wfp_def)
  with sx show rr: "sessRefs st' p' = sessRefs st p'" by (simp add: sessRefs_def elems_def)
  then show "docOf st' p' = docOf st p'" using D(5) w(1) by (auto simp: docOf_def sx wfp_def)
  show "wfp st p'" "SsId (sssHeap st p') = uid'" using w by simp_all
  show "wfp st' p'" using w ar sx rr D(4) by (auto simp: wfp_def)
qed

text \<open>The cached entry of the user itself: a stale copy or the working copy.\<close>

lemma swapped_entry_cases:
  assumes S: "swapped st uid q s st'" and p: "memStore st uid = Some p"
  obtains "p = q" | "p \<noteq> q" "sssHeap st' p = sssHeap st p" "Sess (sssHeap st p) = Sess (sssHeap st q)"
    "CometId (sssHeap st p) = CometId (sssHeap st q)" "SsId (sssHeap st p) = SsId (sssHeap st q)"
    "sessRefs st' p = sessRefs st q \<or> s = Sess (sssHeap st q) \<and> sessRefs st' p = elems st' s"
proof (cases "p = q")
  case False
  note D = swappedD [OF S]
  have eq: "Sess (sssHeap st p) = Sess (sssHeap st q)" "CometId (sssHeap st p) = CometId (sssHeap st q)"
    "SsId (sssHeap st p) = SsId (sssHeap st q)" "sssHeap st' p = sssHeap st p"
    using D(2,7) p wfD(2) [OF D(1) p] False by (auto simp: handle_def)
  then have "sessRefs st' p = sessRefs st q \<or> s = Sess (sssHeap st q) \<and> sessRefs st' p = elems st' s"
    using D(14) by (auto simp: sessRefs_def)
  with False eq show ?thesis by (rule_tac that(2))
qed (rule that(1))

lemma swapped_entry:
  assumes S: "swapped st uid q s st'" and p: "memStore st uid = Some p"
  shows "wfp st' p" "SsId (sssHeap st' p) = uid"
    "set (sessRefs st' p) \<subseteq> set (sessRefs st q) \<union> {a. fresh st \<le> a}"
    "arr (Sess (sssHeap st' p)) = arr (Sess (sssHeap st q)) \<or> fresh st \<le> arr (Sess (sssHeap st' p))"
proof -
  note D = swappedD [OF S]
  have wq: "wfp st q" "SsId (sssHeap st q) = uid" using D(2) by (simp_all add: handle_def)
  have subq: "set (elems st' s) \<subseteq> set (sessRefs st q) \<union> {a. fresh st \<le> a}" using D(13) by blast
  have "wfp st' p \<and> SsId (sssHeap st' p) = uid \<and> set (sessRefs st' p) \<subseteq> set (sessRefs st q) \<union> {a. fresh st \<le> a} \<and>
    (arr (Sess (sssHeap st' p)) = arr (Sess (sssHeap st q)) \<or> fresh st \<le> arr (Sess (sssHeap st' p)))"
    using S p
  proof (cases rule: swapped_entry_cases)
    case 1
    then show ?thesis
      using swapped_copy [OF S] swapped_refs [OF S] subq D(7,10) by simp
  next
    case 2
    have "slen (Sess (sssHeap st q)) \<le> length (arrHeap st' (arr (Sess (sssHeap st q))))"
    proof (cases "s = Sess (sssHeap st q)")
      case False
      then have "length (elems st' (Sess (sssHeap st q))) = length (sessRefs st q)" using D(14) by simp
      then show ?thesis using wq(1) by (simp add: elems_def sessRefs_def wfp_def)
    qed (use D(8) in simp)
    moreover have "a < fresh st'" if "a \<in> set (sessRefs st' p)" for a
      using that 2(6) D(4,13) wq(1) by (metis wfp_def less_le_trans)
    moreover have "distinct (sessRefs st' p)" using 2(6) wq(1) D(12) by (auto simp: wfp_def)
    ultimately show ?thesis
      using 2 wq wfD(1) [OF D(1) p] D(4) subq by (auto simp: wfp_def)
  qed
  then show "wfp st' p" "SsId (sssHeap st' p) = uid"
    "set (sessRefs st' p) \<subseteq> set (sessRefs st q) \<union> {a. fresh st \<le> a}"
    "arr (Sess (sssHeap st' p)) = arr (Sess (sssHeap st q)) \<or> fresh st \<le> arr (Sess (sssHeap st' p))" by blast+
qed

text \<open>What stays within the working copy's terminals and new ones is separate from every other user's.\<close>

lemma swapped_separate:
  assumes S: "swapped st uid q s st'" and p': "memStore st uid' = Some p'" "uid' \<noteq> uid"
    and r: "set (sessRefs st' r) \<subseteq> set (sessRefs st q) \<union> {a. fresh st \<le> a}"
      "arr (Sess (sssHeap st' r)) = arr (Sess (sssHeap st q)) \<or> fresh st \<le> arr (Sess (sssHeap st' r))"
  shows "separate st' r p'" "separate st' p' r"
proof -
  note o = swapped_other [OF S p']
  have "set (sessRefs st p') \<inter> (set (sessRefs st q) \<union> {a. fresh st \<le> a}) = {}"
    using o by (auto simp: separate_def wfp_def)
  then have "set (sessRefs st' r) \<inter> set (sessRefs st' p') = {}"
    using o(3) r(1) by (metis inf.commute inf_mono subset_empty order_refl)
  moreover have "arr (Sess (sssHeap st' r)) \<noteq> arr (Sess (sssHeap st' p'))"
    using o r(2) by (auto simp: separate_def wfp_def)
  ultimately show "separate st' r p'" "separate st' p' r" by (auto simp: separate_def)
qed

lemma swapped_wf:
  assumes S: "swapped st uid q s st'"
  shows "st_wf st'"
  unfolding st_wf_def swappedD(3) [OF S]
proof (intro conjI allI impI)
  fix u a
  assume a: "memStore st u = Some a"
  show "wfp st' a" "SsId (sssHeap st' a) = u"
    using swapped_other [OF S a] swapped_entry [OF S, of a] a by (cases "u = uid"; simp)+
next
  fix u u' a b
  assume ab: "memStore st u = Some a" "memStore st u' = Some b" "u \<noteq> u'"
  consider "u = uid" "u' \<noteq> uid" | "u \<noteq> uid" "u' = uid" | "u \<noteq> uid" "u' \<noteq> uid" using ab(3) by blast
  then show "separate st' a b"
  proof cases
    case 1
    then show ?thesis using swapped_separate(1) [OF S ab(2) 1(2)] swapped_entry(3,4) [OF S] ab(1) by simp
  next
    case 2
    then show ?thesis using swapped_separate(2) [OF S ab(1) 2(1)] swapped_entry(3,4) [OF S] ab(2) by simp
  next
    case 3
    then show ?thesis
      using wf_separate [OF swappedD(1) [OF S] ab] swapped_other [OF S ab(1)] swapped_other [OF S ab(2)]
      by (simp add: separate_def)
  qed
qed

lemma swapped_owner:
  assumes S: "swapped st uid q s st'"
  shows "owner st' uid q"
proof -
  have "set (sessRefs st' q) \<subseteq> set (sessRefs st q) \<union> {a. fresh st \<le> a}"
    "arr (Sess (sssHeap st' q)) = arr (Sess (sssHeap st q)) \<or> fresh st \<le> arr (Sess (sssHeap st' q))"
    using swappedD(7,10,13) [OF S] swapped_refs [OF S] by auto
  then show ?thesis
    unfolding owner_def using swapped_copy [OF S] swapped_separate(1) [OF S] swappedD(3) [OF S] by auto
qed

lemma swapped_cached:
  assumes S: "swapped st uid q s st'"
  shows "cached st' = cached st \<or> cached st' = (cached st)(uid \<mapsto> docOf st' q)"
proof -
  note D = swappedD [OF S]
  obtain p where p: "memStore st uid = Some p" using D(2) by (auto simp: handle_def)
  have other: "cached st' u = cached st u" if "u \<noteq> uid" for u
    using swapped_other(6) [OF S _ that] by (cases "memStore st u") (auto simp: cached_def D(3))
  have mine: "cached st uid = Some (docOf st q)" "cached st' uid = Some (docOf st' p)"
    using handle_doc [OF D(2,1)] by (simp_all add: cached_def D(3) p)
  have "docOf st' p = docOf st q \<or> docOf st' p = docOf st' q"
    using S p
  proof (cases rule: swapped_entry_cases)
    case 2
    have "map (sessHeap st') (sessRefs st q) = map (sessHeap st) (sessRefs st q)"
      using D(2,5) by (auto simp: handle_def wfp_def)
    then show ?thesis using 2 swapped_refs [OF S] by (auto simp: docOf_def D(7))
  qed simp
  then show ?thesis
  proof
    assume "docOf st' p = docOf st q"
    then have "cached st' u = cached st u" for u by (cases "u = uid") (simp_all add: other mine)
    then show ?thesis by (simp add: fun_eq_iff)
  next
    assume "docOf st' p = docOf st' q"
    then have "cached st' u = ((cached st)(uid \<mapsto> docOf st' q)) u" for u by (cases "u = uid") (simp_all add: other mine)
    then show ?thesis by blast
  qed
qed

lemma replace_slice:
  assumes wf: "st_wf st" and q: "handle st uid q"
    and mem: "memStore st' = memStore st" and fr: "fresh st \<le> fresh st'"
    and sess: "\<And>a. a < fresh st \<Longrightarrow> sessHeap st' a = sessHeap st a"
    and arrs: "\<And>a. a < fresh st \<Longrightarrow> a \<noteq> arr (Sess (sssHeap st q)) \<Longrightarrow> arrHeap st' a = arrHeap st a"
    and sss: "sssHeap st' = (sssHeap st)(q := (sssHeap st q)\<lparr>Sess := s\<rparr>)"
    and s: "slen s \<le> length (arrHeap st' (arr s))" "arr s < fresh st'"
      "arr s = arr (Sess (sssHeap st q)) \<or> fresh st \<le> arr s" "arr s = 0 \<longrightarrow> slen s = 0"
    and els: "distinct (elems st' s)"
      "\<And>a. a \<in> set (elems st' s) \<Longrightarrow> a < fresh st' \<and> (a \<in> set (sessRefs st q) \<or> fresh st \<le> a)"
    and old: "elems st' (Sess (sssHeap st q)) = sessRefs st q \<or> s = Sess (sssHeap st q)"
  shows "st_wf st'" "owner st' uid q" "sessRefs st' q = elems st' s"
    "cached st' = cached st \<or> cached st' = (cached st)(uid \<mapsto> docOf st' q)"
proof -
  have S: "swapped st uid q s st'"
    unfolding swapped_def using assms by blast
  show "st_wf st'" "owner st' uid q" "sessRefs st' q = elems st' s"
    "cached st' = cached st \<or> cached st' = (cached st)(uid \<mapsto> docOf st' q)"
    by (rule swapped_wf [OF S] swapped_owner [OF S] swapped_refs [OF S] swapped_cached [OF S])+
qed

section \<open>Adding the new terminal\<close>

text \<open>
  What the save that follows relies on: the working copy is well-formed and the user's own, it
  shows the document \<open>d\<close>, and no other user's document has changed.
\<close>

definition ready_to_save :: "'r Storager \<Rightarrow> string \<Rightarrow> ref \<Rightarrow> SessionsDoc \<Rightarrow> 'r Storager \<Rightarrow> bool" where
  "ready_to_save st uid q d st' \<longleftrightarrow> st_wf st' \<and> owner st' uid q \<and> docOf st' q = d \<and> cli st' = cli st \<and>
     (\<forall>u. u \<noteq> uid \<longrightarrow> cached st' u = cached st u)"

lemma ready_to_saveI:
  assumes "st_wf st" "handle st uid q" "memStore st' = memStore st" "cli st' = cli st"
    and fr: "fresh st < fresh st'" and sess: "sessHeap st' = (sessHeap st)(fresh st := v)"
    and arrs: "\<And>a. a < fresh st \<Longrightarrow> a \<noteq> arr (Sess (sssHeap st q)) \<Longrightarrow> arrHeap st' a = arrHeap st a"
    and sss: "sssHeap st' = (sssHeap st)(q := (sssHeap st q)\<lparr>Sess := s\<rparr>)"
    and s: "slen s \<le> length (arrHeap st' (arr s))" "arr s < fresh st'"
      "arr s = arr (Sess (sssHeap st q)) \<or> fresh st \<le> arr s" "arr s = 0 \<longrightarrow> slen s = 0"
    and els: "elems st' s = rs @ [fresh st]" "distinct rs" "set rs \<subseteq> set (sessRefs st q)"
    and old: "elems st' (Sess (sssHeap st q)) = sessRefs st q \<or> s = Sess (sssHeap st q)"
  shows "ready_to_save st uid q ((docOf st q)\<lparr>DocSess := map (sessHeap st) rs @ [v]\<rparr>) st'"
proof -
  have lt: "a < fresh st" if "a \<in> set rs" for a
    using that assms(2) els(3) by (auto simp: handle_def wfp_def)
  have d: "distinct (elems st' s)" using lt els by auto
  have e: "a < fresh st' \<and> (a \<in> set (sessRefs st q) \<or> fresh st \<le> a)" if "a \<in> set (elems st' s)" for a
    using that lt els fr by (auto dest: order_less_trans)
  note R = replace_slice [OF assms(1,2,3) less_imp_le [OF fr] _ arrs sss s d e old]
  have "docOf st' q = (docOf st q)\<lparr>DocSess := map (sessHeap st) rs @ [v]\<rparr>"
    using lt R(3) els(1) by (auto simp: docOf_def sss sess)
  with R assms(4) sess show ?thesis by (auto simp: ready_to_save_def)
qed

lemma take_update_last: "n < length xs \<Longrightarrow> take (Suc n) (xs[n := x]) = take n xs @ [x]"
  by (simp add: take_Suc_conv_app_nth)

lemma addTerminal_append:
  assumes "st_wf st" "handle st uid q"
  shows "ready_to_save st uid q ((docOf st q)\<lparr>DocSess := DocSess (docOf st q) @ [newTerminal msg]\<rparr>)
    (addTerminal msg q st)"
proof -
  let ?s = "Sess (sssHeap st q)"
  let ?s' = "if arr ?s \<noteq> 0 \<and> slen ?s < length (arrHeap st (arr ?s)) then ?s\<lparr>slen := slen ?s + 1\<rparr>
    else \<lparr>arr = fresh st + 1, slen = slen ?s + 1\<rparr>"
  have w: "arr ?s < fresh st" "slen ?s \<le> length (arrHeap st (arr ?s))" "distinct (sessRefs st q)"
    using assms(2) by (simp_all add: handle_def wfp_def)
  have "ready_to_save st uid q ((docOf st q)\<lparr>DocSess := map (sessHeap st) (sessRefs st q) @ [newTerminal msg]\<rparr>)
      (addTerminal msg q st)"
    by (rule ready_to_saveI [OF assms, where s = ?s'])
      (use w in \<open>auto simp: addTerminal_def newSession_def newArray_def appendSlice_def modSessions_def Let_def
        elems_def sessRefs_def take_update_last\<close>)
  then show ?thesis by (simp add: docOf_def)
qed

lemma addTerminal_without:
  fixes st :: "'r Storager" and q :: ref and k :: nat
  defines "s \<equiv> Sess (sssHeap st q)"
  assumes "st_wf st" "handle st uid q" "k < slen s"
  shows "ready_to_save st uid q
    ((docOf st q)\<lparr>DocSess := take k (DocSess (docOf st q)) @ drop (Suc k) (DocSess (docOf st q)) @ [newTerminal msg]\<rparr>)
    (addTerminal msg q (modSessions q (\<lambda>v. v\<lparr>Sess := s\<lparr>slen := slen s - 1\<rparr>\<rparr>)
      (st\<lparr>arrHeap := (arrHeap st)(arr s := without k (slen s) (arrHeap st (arr s)))\<rparr>)))"
    (is "ready_to_save _ _ _ _ ?st")
proof -
  let ?xs = "arrHeap st (arr s)"
  let ?rs = "take k (sessRefs st q) @ drop (Suc k) (sessRefs st q)"
  have w: "arr s < fresh st" "slen s \<le> length ?xs" "distinct (sessRefs st q)" "0 < arr s"
    using assms(3,4) by (auto simp: handle_def wfp_def s_def)
  have len: "length (without k (slen s) ?xs) = length ?xs"
    using w(2) assms(4) by (rule without_length [rotated])
  have rq: "sessRefs st q = take (slen s) ?xs" by (simp add: sessRefs_def elems_def s_def)
  have tk: "take (slen s - 1) (without k (slen s) ?xs) = ?rs"
    using w(2) assms(4) by (cases "k = slen s - 1") (auto simp: rq without_def min_def)
  have "take (slen s) ((without k (slen s) ?xs)[slen s - 1 := fresh st]) = ?rs @ [fresh st]"
    using take_update_last [of "slen s - 1" "without k (slen s) ?xs" "fresh st"] w(2) assms(4) len tk by simp
  moreover have lt: "slen s - Suc 0 < length (without k (slen s) ?xs)" "Suc (slen s - Suc 0) = slen s"
    using w(2) assms(4) len by linarith+
  moreover have "arrHeap ?st (arr s) = (without k (slen s) ?xs)[slen s - 1 := fresh st]"
    by (simp add: addTerminal_def newSession_def appendSlice_def modSessions_def Let_def lt w(4))
  ultimately have els: "elems ?st s = ?rs @ [fresh st]" by (simp add: elems_def)
  have "distinct ?rs" using w(3) by (simp add: set_take_disj_set_drop_if_distinct)
  moreover have "set ?rs \<subseteq> set (sessRefs st q)" by (auto dest: in_set_takeD in_set_dropD)
  ultimately have "ready_to_save st uid q ((docOf st q)\<lparr>DocSess := map (sessHeap st) ?rs @ [newTerminal msg]\<rparr>) ?st"
    using els w len lt assms(4)
    by (intro ready_to_saveI [OF assms(2,3), where s = s])
      (auto simp: addTerminal_def newSession_def appendSlice_def modSessions_def Let_def s_def [symmetric])
  then show ?thesis by (simp add: docOf_def take_map drop_map)
qed

section \<open>The loop on documents\<close>

lemma plats_okD:
  assumes "plats_ok d" "i < length (DocSess d)" "j < length (DocSess d)"
  shows "Plat (DocSess d ! i) = Plat (DocSess d ! j) \<Longrightarrow> i = j"
    "phone (Plat (DocSess d ! i)) \<Longrightarrow> phone (Plat (DocSess d ! j)) \<Longrightarrow> i = j"
  using assms unfolding plats_ok_def by (auto simp: distinct_conv_nth)

lemma updFirst_nth:
  assumes "k < length ss" "Plat (ss ! k) = plat" "\<And>i. i < k \<Longrightarrow> Plat (ss ! i) \<noteq> plat"
  shows "updFirst plat f ss = ss[k := f (ss ! k)]"
  using assms
proof (induction ss arbitrary: k)
  case (Cons s ss)
  show ?case
  proof (cases k)
    case (Suc j)
    have "Plat (ss ! i) \<noteq> plat" if "i < j" for i using Cons.prems(3) [of "Suc i"] Suc that by simp
    then show ?thesis using Cons.IH [of j] Cons.prems Suc Cons.prems(3) [of 0] by simp
  qed (use Cons.prems in simp)
qed simp

lemma find_nth_first:
  assumes "k < length xs" "P (xs ! k)" "\<And>i. i < k \<Longrightarrow> \<not> P (xs ! i)"
  shows "find P xs = Some (xs ! k)"
  using assms
proof (induction xs arbitrary: k)
  case (Cons x xs)
  show ?case
  proof (cases k)
    case (Suc j)
    have "\<not> P (xs ! i)" if "i < j" for i using Cons.prems(3) [of "Suc i"] Suc that by simp
    then show ?thesis using Cons.IH [of j] Cons.prems Suc Cons.prems(3) [of 0] by simp
  qed (use Cons.prems in simp)
qed simp

lemma filter_all_but_one:
  assumes "k < length xs" "\<not> P (xs ! k)" "\<And>i. i < length xs \<Longrightarrow> i \<noteq> k \<Longrightarrow> P (xs ! i)"
  shows "filter P xs = take k xs @ drop (Suc k) xs"
proof -
  have "filter P (take k xs) = take k xs"
    using assms(1,3) by (auto simp: filter_id_conv in_set_conv_nth)
  moreover have "filter P (drop (Suc k) xs) = drop (Suc k) xs"
    using assms(1,3) by (auto simp: filter_id_conv in_set_conv_nth)
  moreover have "filter P xs = filter P (take k xs @ xs ! k # drop (Suc k) xs)"
    using assms(1) by (simp add: id_take_nth_drop [symmetric])
  ultimately show ?thesis using assms(2) by simp
qed

text \<open>What the loop and the addition of the new terminal leave for the save.\<close>

definition loop_done :: "('r, 'w) renv \<Rightarrow> UserOnlineState \<Rightarrow> string \<Rightarrow> ref \<Rightarrow> ('r, 'w) Router \<Rightarrow> bool" where
  "loop_done E msg uid p R \<longleftrightarrow> (\<exists>found R'.
     onlineLoop E msg p (Sess (sssHeap (store R) p)) [0..<slen (Sess (sssHeap (store R) p))] False R = (Inr found, R') \<and>
     ready_to_save (store R) uid p (onlineDoc msg (docOf (store R) p))
       (if found then store R' else addTerminal msg p (store R')) \<and>
     comets R' = comets R \<and> topics R' = topics R)"

text \<open>The terminals of the document are those of the slice the loop runs over.\<close>

lemma doc_slice:
  assumes "handle st uid p"
  defines "s \<equiv> Sess (sssHeap st p)"
  shows "length (DocSess (docOf st p)) = slen s"
    "\<And>i. i < slen s \<Longrightarrow> DocSess (docOf st p) ! i = sessHeap st (arrHeap st (arr s) ! i)"
    "\<And>i j. i < slen s \<Longrightarrow> j < slen s \<Longrightarrow> i \<noteq> j \<Longrightarrow> arrHeap st (arr s) ! i \<noteq> arrHeap st (arr s) ! j"
    "slen s \<le> length (arrHeap st (arr s))"
  using assms by (auto simp: handle_def wfp_def docOf_def sessRefs_def elems_def distinct_conv_nth)

text \<open>The terminal is known: it is set anew.\<close>

lemma loop_relogin:
  assumes wf: "st_wf (store R)" and h: "handle (store R) uid p" and ok: "plats_ok (docOf (store R) p)"
    and k: "k < slen (Sess (sssHeap (store R) p))" "Plat (DocSess (docOf (store R) p) ! k) = uoTermtype msg"
  shows "loop_done E msg uid p R"
proof -
  let ?st = "store R" and ?t = "uoTermtype msg"
  let ?d = "docOf ?st p" and ?s = "Sess (sssHeap ?st p)"
  let ?xs = "arrHeap ?st (arr ?s)"
  note D = doc_slice [OF h]
  have un: "Plat (DocSess ?d ! i) \<noteq> ?t" "\<not> mutexPlats (Plat (DocSess ?d ! i)) ?t" if "i < slen ?s" "i \<noteq> k" for i
    using plats_okD [OF ok, unfolded D(1), OF that(1) k(1)] that k(2) by (auto simp: mutexPlats_phone)
  obtain w where L: "onlineLoop E msg p ?s [0..<slen ?s] False R =
      (Inr True, modStore (modSess (?xs ! k) (relogin msg)) (R\<lparr>world := w\<rparr>))" (is "_ = (_, ?R)")
    using onlineLoop_same [of k "slen ?s" R ?s msg E p] k un D(2,3) by fastforce
  have fp: "firstPlat ?t ?st p = Some (?xs ! k)"
    using find_nth_first [of k "sessRefs ?st p" "\<lambda>a. Plat (sessHeap ?st a) = ?t"] k un D(2,4)
    by (simp add: firstPlat_def sessRefs_def elems_def)
  note M = modFirst_spec [OF wf h, where plat = ?t and f = "relogin msg", unfolded fp option.case]
  have "\<exists>s \<in> set (DocSess ?d). Plat s = ?t" using k D(1) by (metis nth_mem)
  then have "onlineDoc msg ?d = updDoc ?t (relogin msg) ?d" by (simp add: onlineDoc_def)
  with M handle_owner [OF M(1,2)] have "ready_to_save ?st uid p (onlineDoc msg ?d) (modSess (?xs ! k) (relogin msg) ?st)"
    by (simp add: ready_to_save_def)
  then show ?thesis unfolding loop_done_def L by (intro exI [of _ True] exI [of _ ?R]) simp
qed

text \<open>A terminal that excludes it is there: it is kicked and removed.\<close>

lemma loop_mutex:
  assumes wf: "st_wf (store R)" and h: "handle (store R) uid p" and ok: "plats_ok (docOf (store R) p)"
    and none: "\<And>i. i < slen (Sess (sssHeap (store R) p)) \<Longrightarrow> Plat (DocSess (docOf (store R) p) ! i) \<noteq> uoTermtype msg"
    and k: "k < slen (Sess (sssHeap (store R) p))" "mutexPlats (Plat (DocSess (docOf (store R) p) ! k)) (uoTermtype msg)"
  shows "loop_done E msg uid p R"
proof -
  let ?st = "store R" and ?t = "uoTermtype msg"
  let ?d = "docOf ?st p" and ?s = "Sess (sssHeap ?st p)"
  let ?n = "slen ?s"
  note D = doc_slice [OF h]
  have um: "\<not> mutexPlats (Plat (DocSess ?d ! i)) ?t" if "i < ?n" "i \<noteq> k" for i
    using plats_okD [OF ok, unfolded D(1), OF that(1) k(1)] that k(2) by (auto simp: mutexPlats_phone)
  obtain w where L: "onlineLoop E msg p ?s [0..<?n] False R = (Inr False,
      modStore (\<lambda>st. modSessions p (\<lambda>v. v\<lparr>Sess := ?s\<lparr>slen := ?n - 1\<rparr>\<rparr>)
        (st\<lparr>arrHeap := (arrHeap st)(arr ?s := without k ?n (arrHeap st (arr ?s)))\<rparr>)) (R\<lparr>world := w\<rparr>))"
      (is "_ = (_, ?R)")
    using onlineLoop_mutex [of R p ?s ?n k msg E] k none um D(2,4) by auto
  have "filter (\<lambda>s. \<not> mutexPlats (Plat s) ?t) (DocSess ?d) = take k (DocSess ?d) @ drop (Suc k) (DocSess ?d)"
    using k um D(1) by (intro filter_all_but_one) auto
  moreover have "\<not> (\<exists>s \<in> set (DocSess ?d). Plat s = ?t)" using none D(1) by (auto simp: in_set_conv_nth)
  ultimately have "onlineDoc msg ?d = ?d\<lparr>DocSess := take k (DocSess ?d) @ drop (Suc k) (DocSess ?d) @ [newTerminal msg]\<rparr>"
    by (simp add: onlineDoc_def)
  with addTerminal_without [OF wf h k(1), of msg]
  show ?thesis unfolding loop_done_def L by (intro exI [of _ False] exI [of _ ?R]) simp
qed

lemma loop_new:
  assumes wf: "st_wf (store R)" and h: "handle (store R) uid p"
    and none: "\<And>i. i < slen (Sess (sssHeap (store R) p)) \<Longrightarrow> Plat (DocSess (docOf (store R) p) ! i) \<noteq> uoTermtype msg"
      "\<And>i. i < slen (Sess (sssHeap (store R) p)) \<Longrightarrow> \<not> mutexPlats (Plat (DocSess (docOf (store R) p) ! i)) (uoTermtype msg)"
  shows "loop_done E msg uid p R"
proof -
  let ?st = "store R" and ?t = "uoTermtype msg"
  let ?d = "docOf ?st p" and ?s = "Sess (sssHeap ?st p)"
  note D = doc_slice [OF h]
  have L: "onlineLoop E msg p ?s [0..<slen ?s] False R = (Inr False, R)"
    using none D(2) by (intro onlineLoop_skip) auto
  have "filter (\<lambda>s. \<not> mutexPlats (Plat s) ?t) (DocSess ?d) = DocSess ?d"
    using none(2) D(1) by (auto simp: filter_id_conv in_set_conv_nth)
  moreover have "\<not> (\<exists>s \<in> set (DocSess ?d). Plat s = ?t)" using none(1) D(1) by (auto simp: in_set_conv_nth)
  ultimately have "onlineDoc msg ?d = ?d\<lparr>DocSess := DocSess ?d @ [newTerminal msg]\<rparr>"
    by (simp add: onlineDoc_def)
  with addTerminal_append [OF wf h, of msg] show ?thesis
    unfolding loop_done_def L by (intro exI [of _ False] exI conjI refl) simp_all
qed

lemma onlineLoop_doc:
  assumes "st_wf (store R)" "handle (store R) uid p" "plats_ok (docOf (store R) p)"
  shows "loop_done E msg uid p R"
proof -
  let ?n = "slen (Sess (sssHeap (store R) p))" and ?d = "docOf (store R) p"
  consider k where "k < ?n" "Plat (DocSess ?d ! k) = uoTermtype msg"
    | k where "k < ?n" "\<And>i. i < ?n \<Longrightarrow> Plat (DocSess ?d ! i) \<noteq> uoTermtype msg" "mutexPlats (Plat (DocSess ?d ! k)) (uoTermtype msg)"
    | "\<And>i. i < ?n \<Longrightarrow> Plat (DocSess ?d ! i) \<noteq> uoTermtype msg" "\<And>i. i < ?n \<Longrightarrow> \<not> mutexPlats (Plat (DocSess ?d ! i)) (uoTermtype msg)"
    by metis
  then show ?thesis
    by cases (use assms in \<open>blast intro: loop_relogin loop_mutex loop_new\<close>)+
qed

end
