(* ===== verification/RouterProps.thy ===== *)
theory RouterProps
  imports RouterSpec
begin

text \<open>
  Properties of the router: what a login does to the stored document, what any history of logins
  means for authentication, how the load dispatcher chooses a comet, where a push ends up, and
  what an offline report leaves behind.
\<close>

section \<open>Documents of logged-in users\<close>

lemma plats_ok_set:
  "plats_ok d \<longleftrightarrow> distinct (map Plat (DocSess d)) \<and>
     (\<forall>p \<in> Plat ` set (DocSess d). \<forall>q \<in> Plat ` set (DocSess d). phone p \<longrightarrow> phone q \<longrightarrow> p = q)"
proof (cases "distinct (map Plat (DocSess d))")
  case True
  let ?ss = "DocSess d"
  have inj: "Plat (?ss ! i) = Plat (?ss ! j) \<longleftrightarrow> i = j" if "i < length ?ss" "j < length ?ss" for i j
    using that nth_eq_iff_index_eq [OF True, of i j] by simp
  have "(\<forall>p \<in> Plat ` set ?ss. \<forall>q \<in> Plat ` set ?ss. phone p \<longrightarrow> phone q \<longrightarrow> p = q) \<longleftrightarrow>
      (\<forall>i < length ?ss. \<forall>j < length ?ss. phone (Plat (?ss ! i)) \<longrightarrow> phone (Plat (?ss ! j)) \<longrightarrow>
         Plat (?ss ! i) = Plat (?ss ! j))"
    by (simp add: all_set_conv_all_nth) blast
  with inj show ?thesis by (simp add: plats_ok_def True)
qed (simp add: plats_ok_def)

lemma plats_ok_empty: "plats_ok (emptyDoc uid)"
  by (simp add: plats_ok_set emptyDoc_def)

lemma map_Plat_updFirst: "(\<And>s. Plat (f s) = Plat s) \<Longrightarrow> map Plat (updFirst p f ss) = map Plat ss"
  by (induction ss) auto

lemma relogin_simps [simp]:
  "Plat (relogin msg v) = Plat v" "SessId (relogin msg v) = SessId v" "AuthCode (relogin msg v) = uoCode msg"
  "IOSToken (relogin msg v) = uoDeviceToken msg" "Login (relogin msg v) = uoLogin msg"
  "Online (relogin msg v) = Online v" "OffMsg (relogin msg v) = OffMsg v"
  by (simp_all add: relogin_def)

lemma newTerminal_simps [simp]:
  "Plat (newTerminal msg) = uoTermtype msg" "SessId (newTerminal msg) = uoUid msg"
  "AuthCode (newTerminal msg) = uoCode msg" "IOSToken (newTerminal msg) = uoDeviceToken msg"
  "Login (newTerminal msg) = uoLogin msg" "\<not> Online (newTerminal msg)"
  by (simp_all add: newTerminal_def)

lemma DocId_onlineDoc [simp]: "DocId (onlineDoc msg d) = DocId d"
  by (simp add: onlineDoc_def updDoc_def)

lemma plats_ok_onlineDoc:
  assumes "plats_ok d"
  shows "plats_ok (onlineDoc msg d)"
proof (cases "\<exists>s \<in> set (DocSess d). Plat s = uoTermtype msg")
  case True
  have "map Plat (DocSess (onlineDoc msg d)) = map Plat (DocSess d)"
    using True by (simp add: onlineDoc_def updDoc_def map_Plat_updFirst)
  moreover from this have "Plat ` set (DocSess (onlineDoc msg d)) = Plat ` set (DocSess d)"
    by (metis list.set_map)
  ultimately show ?thesis using assms by (simp add: plats_ok_set)
next
  case False
  let ?ss = "filter (\<lambda>s. \<not> mutexPlats (Plat s) (uoTermtype msg)) (DocSess d)"
  have doc: "DocSess (onlineDoc msg d) = ?ss @ [newTerminal msg]" using False by (simp add: onlineDoc_def)
  have "distinct (map Plat ?ss)" using assms by (simp add: plats_ok_set distinct_map_filter)
  moreover have "phone (uoTermtype msg) \<Longrightarrow> \<not> phone (Plat s)" if "s \<in> set ?ss" for s
    using that False by (auto simp: mutexPlats_phone phone_def)
  ultimately show ?thesis using assms False unfolding plats_ok_set doc by auto
qed

definition asciiMsg :: "UserOnlineState \<Rightarrow> bool" where
  "asciiMsg msg \<longleftrightarrow> ascii (uoUid msg) \<and> ascii (uoCode msg) \<and> ascii (uoDeviceToken msg)"

lemma asciiDoc_onlineDoc: "asciiDoc d \<Longrightarrow> asciiMsg msg \<Longrightarrow> asciiDoc (onlineDoc msg d)"
  by (auto simp: asciiDoc_def asciiMsg_def onlineDoc_def updDoc_def dest!: set_updFirst)

lemma asciiDoc_empty: "ascii uid \<Longrightarrow> asciiDoc (emptyDoc uid)"
  by (simp add: asciiDoc_def emptyDoc_def ascii_def)

lemma DocId_empty: "DocId (emptyDoc uid) = uid"
  by (simp add: emptyDoc_def)

lemma DocSess_empty: "DocSess (emptyDoc uid) = []"
  by (simp add: emptyDoc_def)

lemma SessId_onlineDoc:
  "\<forall>s \<in> set (DocSess d). SessId s = uoUid msg \<Longrightarrow> \<forall>s \<in> set (DocSess (onlineDoc msg d)). SessId s = uoUid msg"
  by (auto simp: onlineDoc_def updDoc_def dest!: set_updFirst)

text \<open>Which codes a user can authenticate with: the code of each logged-in terminal, by platform.\<close>

definition logged :: "SessionsDoc \<Rightarrow> int \<rightharpoonup> string" where
  "logged d p = (case docPlat p d of None \<Rightarrow> None | Some s \<Rightarrow> if Login s then Some (AuthCode s) else None)"

text \<open>A login as an observer sees it: it sets the code of its platform and ends the login of the excluded ones.\<close>

definition absLogin :: "UserOnlineState \<Rightarrow> (int \<rightharpoonup> string) \<Rightarrow> (int \<rightharpoonup> string)" where
  "absLogin msg m p =
     (if p = uoTermtype msg then Some (uoCode msg)
      else if mutexPlats p (uoTermtype msg) then None else m p)"

lemma find_filter_same:
  "(\<And>x. P x \<Longrightarrow> Q x) \<Longrightarrow> find P (filter Q xs) = find P xs"
  by (induction xs) auto

lemma find_filter_none:
  "(\<And>x. P x \<Longrightarrow> \<not> Q x) \<Longrightarrow> find P (filter Q xs) = None"
  by (induction xs) auto

lemma find_updFirst:
  "(\<And>s. Plat (f s) = Plat s) \<Longrightarrow> find (\<lambda>s. Plat s = p) (updFirst t f ss) =
     (if p = t then map_option f (find (\<lambda>s. Plat s = p) ss) else find (\<lambda>s. Plat s = p) ss)"
  by (induction ss) auto

lemma docPlat_in: "docPlat p d = Some s \<Longrightarrow> s \<in> set (DocSess d) \<and> Plat s = p"
  by (auto simp: docPlat_def dest: find_Some_set)

lemma docPlat_ex: "(\<exists>s \<in> set (DocSess d). Plat s = p) \<longleftrightarrow> docPlat p d \<noteq> None"
  by (auto simp: docPlat_def find_None_iff)

lemma logged_onlineDoc:
  assumes "plats_ok d" "uoLogin msg"
  shows "logged (onlineDoc msg d) = absLogin msg (logged d)"
proof
  fix p
  let ?t = "uoTermtype msg"
  show "logged (onlineDoc msg d) p = absLogin msg (logged d) p"
  proof (cases "docPlat ?t d")
    case (Some s)
    have "docPlat p (onlineDoc msg d) = (if p = ?t then Some (relogin msg s) else docPlat p d)"
      using Some docPlat_ex [of d ?t]
      by (simp add: onlineDoc_def updDoc_def docPlat_def find_updFirst)
    moreover have "docPlat p d = None" if "mutexPlats p ?t" "p \<noteq> ?t"
    proof (rule ccontr)
      assume "docPlat p d \<noteq> None"
      then obtain s' where "docPlat p d = Some s'" by blast
      then have "p \<in> Plat ` set (DocSess d)" "?t \<in> Plat ` set (DocSess d)"
        using docPlat_in [OF Some] docPlat_in [of p d s'] by (auto intro: rev_image_eqI)
      with assms(1) that show False unfolding plats_ok_set mutexPlats_phone by blast
    qed
    ultimately show ?thesis using assms(2) by (auto simp: logged_def absLogin_def)
  next
    case None
    let ?ss = "filter (\<lambda>s. \<not> mutexPlats (Plat s) ?t) (DocSess d)"
    have doc: "DocSess (onlineDoc msg d) = ?ss @ [newTerminal msg]"
      using None docPlat_ex [of d ?t] by (simp add: onlineDoc_def)
    have t: "find (\<lambda>s. Plat s = ?t) ?ss = None"
      using None by (auto simp: docPlat_def find_None_iff)
    have "docPlat p (onlineDoc msg d) =
        (if p = ?t then Some (newTerminal msg) else if mutexPlats p ?t then None else docPlat p d)"
    proof (cases "mutexPlats p ?t")
      case True
      have "find (\<lambda>s. Plat s = p) ?ss = None" using True by (intro find_filter_none) auto
      with t True show ?thesis by (simp add: docPlat_def doc find_append)
    next
      case False
      have "find (\<lambda>s. Plat s = p) ?ss = find (\<lambda>s. Plat s = p) (DocSess d)"
        using False by (intro find_filter_same) auto
      with t False show ?thesis by (auto simp: docPlat_def doc find_append split: option.split)
    qed
    with assms(2) show ?thesis by (simp add: logged_def absLogin_def)
  qed
qed

lemma authOk_logged:
  assumes "plats_ok d"
  shows "(\<exists>s \<in> set (DocSess d). authOk t code s) \<longleftrightarrow> logged d t = Some code"
proof
  assume "\<exists>s \<in> set (DocSess d). authOk t code s"
  then obtain s where s: "s \<in> set (DocSess d)" "Plat s = t" "AuthCode s = code" "Login s"
    by (auto simp: authOk_def)
  then obtain s' where s': "docPlat t d = Some s'" using docPlat_ex by blast
  have "inj_on Plat (set (DocSess d))" using assms by (simp add: plats_ok_set distinct_map)
  then have "s' = s" using s docPlat_in [OF s'] by (auto dest: inj_onD)
  with s s' show "logged d t = Some code" by (simp add: logged_def)
next
  assume "logged d t = Some code"
  then show "\<exists>s \<in> set (DocSess d). authOk t code s"
    by (auto simp: logged_def authOk_def split: option.splits if_splits dest: docPlat_in)
qed

section \<open>Saving with a healthy redis\<close>

lemma SaveSessions_ok:
  assumes "redis_ok e" "st_wf st" "owner st uid q" "asciiDoc (docOf st q)"
  defines "st' \<equiv> snd (SaveSessions e q st)"
  shows "st_wf st'" "cached st' = (cached st)(uid \<mapsto> docOf st q)"
    "persisted e (cli st') uid (docOf st q)"
    "u \<noteq> uid \<Longrightarrow> fst (rget e (cli st') u) = fst (rget e (cli st) u)"
proof -
  obtain b where b: "jenc e (docOf st q) = Some b" "jdec e b = Some (docOf st q)"
    using redis_okD(5) [OF assms(1,4)] by blast
  note redis = redis_okD [OF assms(1)]
  have eq: "SaveSessions e q st = (True, st')"
    using SaveSessions_cli [OF assms(3) b(1)] redis(1) [of "cli st" uid b]
    by (auto simp: st'_def split: prod.splits)
  have cli: "cli st' = snd (rset e (cli st) uid b)"
    using SaveSessions_cli [OF assms(3) b(1)] redis(1) [of "cli st" uid b]
    by (auto simp: st'_def split: prod.splits)
  show "st_wf st'" "cached st' = (cached st)(uid \<mapsto> docOf st q)"
    using SaveSessions_spec [OF assms(2,3) eq] by simp_all
  show "persisted e (cli st') uid (docOf st q)"
    using redis(2) b(2) by (auto simp: persisted_def cli)
  show "u \<noteq> uid \<Longrightarrow> fst (rget e (cli st') u) = fst (rget e (cli st) u)"
    using redis(3) by (simp add: cli)
qed

lemma FindSessions_reads:
  assumes "redis_ok e" "FindSessions e uid st = (r, st')"
  shows "fst (rget e (cli st') k) = fst (rget e (cli st) k)"
proof -
  have "cli st' = cli st \<or> cli st' = snd (rget e (cli st) uid)"
    using assms(2) allocDoc_spec(8)
    by (fastforce simp: FindSessions_def newSessions_def Let_def split: option.splits prod.splits)
  with redis_okD(4) [OF assms(1)] show ?thesis by auto
qed

lemma lookupDoc_eq:
  "lookupDoc e st u = (case cached st u of Some d \<Rightarrow> Some d
     | None \<Rightarrow> (case fst (rget e (cli st) u) of None \<Rightarrow> None | Some b \<Rightarrow> jdec e b))"
  by (simp add: lookupDoc_def cached_def split: option.split)

text \<open>A lookup changes no lookup.\<close>

lemma FindSessions_lookup:
  assumes "redis_ok e" "st_wf st" "loads e st uid" "FindSessions e uid st = (r, st')"
  shows "lookupDoc e st' = lookupDoc e st" "st_wf st'"
proof -
  have c: "cached st' = (case lookupDoc e st uid of None \<Rightarrow> cached st | Some d \<Rightarrow> (cached st)(uid \<mapsto> d))"
    using FindSessions_spec [OF assms(2-4)] by (auto split: option.splits)
  show "lookupDoc e st' = lookupDoc e st"
  proof
    fix u
    show "lookupDoc e st' u = lookupDoc e st u"
    proof (cases "u = uid")
      case True
      then show ?thesis using FindSessions_reads [OF assms(1,4), of u]
        by (cases "lookupDoc e st uid"; cases "cached st uid") (simp_all add: lookupDoc_eq [of e st'] lookupDoc_eq [of e st] c)
    next
      case False
      then show ?thesis using FindSessions_reads [OF assms(1,4), of u]
        by (cases "lookupDoc e st uid"; cases "cached st u") (simp_all add: lookupDoc_eq [of e _ u] c)
    qed
  qed
  show "st_wf st'" using FindSessions_spec [OF assms(2-4)] by (auto split: option.splits)
qed

lemma save_lookup:
  assumes redis: "redis_ok e" and "ready_to_save st uid q d st1" "asciiDoc d"
    and look: "lookupDoc e st = L" and reads: "\<And>k. fst (rget e (cli st) k) = fst (rget e r k)"
  defines "st' \<equiv> snd (SaveSessions e q st1)"
  shows "st_wf st'" "lookupDoc e st' = L(uid \<mapsto> d)" "persisted e (cli st') uid d"
    "u \<noteq> uid \<Longrightarrow> persisted e r u d' \<Longrightarrow> persisted e (cli st') u d'"
proof -
  have rs: "st_wf st1" "owner st1 uid q" "docOf st1 q = d" "cli st1 = cli st"
    "\<And>u. u \<noteq> uid \<Longrightarrow> cached st1 u = cached st u"
    using assms(2) by (simp_all add: ready_to_save_def)
  have a: "asciiDoc (docOf st1 q)" using rs(3) assms(3) by simp
  note S = SaveSessions_ok [OF redis rs(1,2) a, folded st'_def, unfolded rs(3,4)]
  have c: "cached st' = (cached st)(uid \<mapsto> d)" using S(2) rs(5) by (auto simp: fun_eq_iff)
  show "st_wf st'" "persisted e (cli st') uid d" by (rule S(1), rule S(3))
  show "lookupDoc e st' = L(uid \<mapsto> d)"
  proof
    fix k
    show "lookupDoc e st' k = (L(uid \<mapsto> d)) k"
      using S(4) [of k] by (cases "k = uid"; cases "cached st k") (simp_all add: lookupDoc_eq c look [symmetric])
  qed
  show "u \<noteq> uid \<Longrightarrow> persisted e r u d' \<Longrightarrow> persisted e (cli st') u d'"
    using S(4) [of u] reads by (simp add: persisted_def)
qed

lemma addTerminal_fresh:
  assumes "st_wf st" "memStore st uid = None" "newSessions (zeroSessions\<lparr>SsId := uid\<rparr>) st = (q, st1)"
  shows "ready_to_save st uid q ((emptyDoc uid)\<lparr>DocSess := [newTerminal msg]\<rparr>) (addTerminal msg q st1)"
proof -
  let ?st = "addTerminal msg q st1"
  have q: "q = fresh st" "st1 = st\<lparr>sssHeap := (sssHeap st)(fresh st := zeroSessions\<lparr>SsId := uid\<rparr>), fresh := fresh st + 1\<rparr>"
    using assms(3) by (auto simp: newSessions_def)
  have st: "?st = st\<lparr>sssHeap := (sssHeap st)(fresh st := \<lparr>SsId = uid, CometId = [], Sess = \<lparr>arr = fresh st + 2, slen = 1\<rparr>\<rparr>),
      sessHeap := (sessHeap st)(fresh st + 1 := newTerminal msg),
      arrHeap := (arrHeap st)(fresh st + 2 := [fresh st + 1]), fresh := fresh st + 3\<rparr>"
    by (simp add: q addTerminal_def newSession_def newArray_def appendSlice_def modSessions_def elems_def
        zeroSessions_def Let_def)
  have ext: "extends st ?st" by (auto simp: st extends_def)
  note X = extends_wf [OF ext assms(1)]
  have qv: "sssHeap ?st q = \<lparr>SsId = uid, CometId = [], Sess = \<lparr>arr = Suc (Suc (fresh st)), slen = Suc 0\<rparr>\<rparr>"
    "arrHeap ?st (Suc (Suc (fresh st))) = [Suc (fresh st)]" "sessHeap ?st (Suc (fresh st)) = newTerminal msg"
    "fresh ?st = fresh st + 3"
    unfolding st by (simp_all add: q(1))
  have refs: "sessRefs ?st q = [Suc (fresh st)]" by (simp add: qv sessRefs_def elems_def)
  have "separate ?st q p" if m: "memStore ?st uid' = Some p" for uid' p
  proof -
    have m': "memStore st uid' = Some p" using m unfolding st by simp
    note w = wfD(1) [OF assms(1) m']
    note P = extends_wfp [OF ext w]
    have "arr (Sess (sssHeap ?st q)) = Suc (Suc (fresh st))" by (simp add: qv)
    with w P refs show ?thesis by (auto simp: separate_def wfp_def)
  qed
  moreover have "wfp ?st q" "SsId (sssHeap ?st q) = uid" using refs by (simp_all add: wfp_def qv, simp add: q(1))
  moreover have "docOf ?st q = (emptyDoc uid)\<lparr>DocSess := [newTerminal msg]\<rparr>"
    using refs qv by (simp add: docOf_def emptyDoc_def)
  moreover have "cli ?st = cli st" unfolding st by simp
  ultimately show ?thesis using X by (simp add: ready_to_save_def owner_def)
qed

section \<open>One login\<close>

definition startDoc :: "'r env \<Rightarrow> 'r Storager \<Rightarrow> string \<Rightarrow> SessionsDoc" where
  "startDoc e st uid = (case lookupDoc e st uid of None \<Rightarrow> emptyDoc uid | Some d \<Rightarrow> d)"

text \<open>Every document a lookup can find is its user's own and has the platforms a login keeps.\<close>

definition users_ok :: "'r env \<Rightarrow> 'r Storager \<Rightarrow> bool" where
  "users_ok e st \<longleftrightarrow> st_wf st \<and>
     (\<forall>uid d. lookupDoc e st uid = Some d \<longrightarrow> DocId d = uid \<and> plats_ok d \<and> asciiDoc d \<and>
       (\<forall>s \<in> set (DocSess d). SessId s = uid))"

lemma users_ok_loads: "users_ok e st \<Longrightarrow> loads e st uid"
  by (fastforce simp: users_ok_def loads_def key_ok_def lookupDoc_def)

lemma users_ok_start:
  assumes "users_ok e st" "ascii uid"
  shows "plats_ok (startDoc e st uid)" "asciiDoc (startDoc e st uid)" "DocId (startDoc e st uid) = uid"
    "\<forall>s \<in> set (DocSess (startDoc e st uid)). SessId s = uid"
  using assms plats_ok_empty asciiDoc_empty DocId_empty DocSess_empty
  by (auto simp: startDoc_def users_ok_def split: option.split)

lemma saveIn_frame [simp]: "comets (saveIn E p R) = comets R" "topics (saveIn E p R) = topics R"
  "store (saveIn E p R) = snd (SaveSessions (storeEnv E) p (store R))"
  by (simp_all add: saveIn_def)

definition login_done :: "('r, 'w) renv \<Rightarrow> UserOnlineState \<Rightarrow> ('r, 'w) Router \<Rightarrow> ('r, 'w) Router \<Rightarrow> bool" where
  "login_done E msg R R' \<longleftrightarrow>
     (let e = storeEnv E; uid = uoUid msg; d = onlineDoc msg (startDoc e (store R) uid) in
      st_wf (store R') \<and> lookupDoc e (store R') = (lookupDoc e (store R))(uid \<mapsto> d) \<and>
      persisted e (cli (store R')) uid d \<and>
      (\<forall>u d'. u \<noteq> uid \<longrightarrow> persisted e (cli (store R)) u d' \<longrightarrow> persisted e (cli (store R')) u d') \<and>
      comets R' = comets R \<and> topics R' = topics R)"

text \<open>The first login of a user makes his document.\<close>

lemma fresh_login_ready:
  assumes "st_wf st" "lookupDoc e st (uoUid msg) = None" "newSessions (zeroSessions\<lparr>SsId := uoUid msg\<rparr>) st = (q, st')"
  shows "ready_to_save st (uoUid msg) q (onlineDoc msg (emptyDoc (uoUid msg))) (addTerminal msg q st')"
proof -
  have "memStore st (uoUid msg) = None" using assms(2) by (auto simp: lookupDoc_def split: option.splits)
  moreover have "onlineDoc msg (emptyDoc (uoUid msg)) = (emptyDoc (uoUid msg))\<lparr>DocSess := [newTerminal msg]\<rparr>"
    by (simp add: onlineDoc_def emptyDoc_def)
  ultimately show ?thesis using addTerminal_fresh [OF assms(1)] assms(3) by simp
qed

lemma onUserOnline_done:
  fixes E :: "('r, 'w) renv" and R :: "('r, 'w) Router"
  assumes redis: "redis_ok (storeEnv E)" and ok: "users_ok (storeEnv E) (store R)"
    and msg: "asciiMsg msg" "uoLogin msg"
  shows "\<exists>R'. onUserOnline E msg R = (None, R') \<and> login_done E msg R R'"
proof -
  let ?e = "storeEnv E" and ?uid = "uoUid msg" and ?st = "store R"
  let ?d = "startDoc ?e ?st ?uid"
  have wf: "st_wf ?st" using ok by (simp add: users_ok_def)
  have loads: "loads ?e ?st ?uid" by (rule users_ok_loads [OF ok])
  note start = users_ok_start [OF ok, of ?uid]
  have asc: "asciiDoc (onlineDoc msg ?d)" using start(2) msg(1) by (auto intro: asciiDoc_onlineDoc simp: asciiMsg_def)
  obtain r st1 where find: "FindSessions ?e ?uid ?st = (r, st1)" by fastforce
  note F = FindSessions_lookup [OF redis wf loads find]
  note reads = FindSessions_reads [OF redis find]
  have finish: "login_done E msg R (saveIn E q R')"
    if "ready_to_save st1 ?uid q (onlineDoc msg ?d) (store R')" "comets R' = comets R" "topics R' = topics R" for q R'
    using save_lookup [OF redis that(1) asc F(1) reads] that(2,3) by (auto simp: login_done_def Let_def)
  show ?thesis
  proof (cases rule: FindSessions_cases [OF wf loads, case_names none some])
    case (none st')
    with find have eq: "r = None" "st' = st1" by auto
    obtain q st2 where q: "newSessions (zeroSessions\<lparr>SsId := ?uid\<rparr>) st1 = (q, st2)" by fastforce
    have "ready_to_save st1 ?uid q (onlineDoc msg ?d) (addTerminal msg q st2)"
      using fresh_login_ready [of st1 ?e msg, OF F(2) _ q] none(1) F(1) by (simp add: startDoc_def)
    then show ?thesis
      using find eq q msg(2) finish [of q "modStore (addTerminal msg q) (R\<lparr>store := st2\<rparr>)"]
      by (simp add: onUserOnline_def)
  next
    case (some d q st')
    with find have eq: "r = Some q" "st' = st1" by auto
    have d: "docOf st1 q = ?d" using some(1,5) eq by (simp add: startDoc_def)
    have pl: "plats_ok (docOf st1 q)" using d start(1) msg(1) by (simp add: asciiMsg_def)
    obtain found R2 where L: "onlineLoop E msg q (Sess (sssHeap st1 q)) [0..<slen (Sess (sssHeap st1 q))] False
          (R\<lparr>store := st1\<rparr>) = (Inr found, R2)"
        "ready_to_save st1 ?uid q (onlineDoc msg ?d) (if found then store R2 else addTerminal msg q (store R2))"
        "comets R2 = comets R" "topics R2 = topics R"
      using onlineLoop_doc [of "R\<lparr>store := st1\<rparr>" ?uid q E msg] some(3,4) eq pl d by (auto simp: loop_done_def)
    let ?R = "if found then R2 else modStore (addTerminal msg q) R2"
    have "onUserOnline E msg R = (None, saveIn E q ?R)"
      using find eq L(1) msg(2) by (simp add: onUserOnline_def Let_def)
    moreover have "login_done E msg R (saveIn E q ?R)"
      using L by (intro finish) auto
    ultimately show ?thesis by blast
  qed
qed

lemma login_done_users_ok:
  assumes "users_ok (storeEnv E) (store R)" "asciiMsg msg" "login_done E msg R R'"
  shows "users_ok (storeEnv E) (store R')"
proof -
  let ?d = "startDoc (storeEnv E) (store R) (uoUid msg)"
  have "ascii (uoUid msg)" using assms(2) by (simp add: asciiMsg_def)
  note S = users_ok_start [OF assms(1) this]
  have "plats_ok (onlineDoc msg ?d)" "asciiDoc (onlineDoc msg ?d)" "DocId (onlineDoc msg ?d) = uoUid msg"
    using S assms(2) by (simp_all add: plats_ok_onlineDoc asciiDoc_onlineDoc)
  moreover note SessId_onlineDoc [OF S(4)]
  ultimately show ?thesis using assms(1,3) by (auto simp: users_ok_def login_done_def Let_def)
qed

section \<open>Histories of logins\<close>

definition runLogins :: "('r, 'w) renv \<Rightarrow> UserOnlineState list \<Rightarrow> ('r, 'w) Router \<Rightarrow> ('r, 'w) Router" where
  "runLogins E = fold (\<lambda>msg R. snd (onUserOnline E msg R))"

lemma runLogins_ok:
  assumes "redis_ok (storeEnv E)" "users_ok (storeEnv E) (store R)" "\<forall>msg \<in> set ms. asciiMsg msg"
  shows "users_ok (storeEnv E) (store (runLogins E ms R)) \<and> comets (runLogins E ms R) = comets R \<and>
    logged (startDoc (storeEnv E) (store (runLogins E ms R)) uid) =
      fold absLogin (filter (\<lambda>msg. uoLogin msg \<and> uoUid msg = uid) ms) (logged (startDoc (storeEnv E) (store R) uid))"
  using assms(2,3)
proof (induction ms arbitrary: R)
  case (Cons msg ms)
  let ?e = "storeEnv E"
  show ?case
  proof (cases "uoLogin msg")
    case False
    then have "snd (onUserOnline E msg R) = R" by (simp add: onUserOnline_def)
    with False Cons show ?thesis by (simp add: runLogins_def)
  next
    case True
    have a: "asciiMsg msg" "ascii (uoUid msg)" using Cons.prems(2) by (simp_all add: asciiMsg_def)
    obtain R1 where R1: "onUserOnline E msg R = (None, R1)" "login_done E msg R R1"
      using onUserOnline_done [OF assms(1) Cons.prems(1) a(1) True] by blast
    have ok: "users_ok ?e (store R1)" by (rule login_done_users_ok [OF Cons.prems(1) a(1) R1(2)])
    have "startDoc ?e (store R1) uid =
        (if uoUid msg = uid then onlineDoc msg (startDoc ?e (store R) uid) else startDoc ?e (store R) uid)"
      using R1(2) by (auto simp: login_done_def Let_def startDoc_def)
    then have "logged (startDoc ?e (store R1) uid) = (if uoUid msg = uid
        then absLogin msg (logged (startDoc ?e (store R) uid)) else logged (startDoc ?e (store R) uid))"
      using logged_onlineDoc [OF users_ok_start(1) [OF Cons.prems(1) a(2)] True] by auto
    moreover have "comets R1 = comets R" using R1(2) by (simp add: login_done_def Let_def)
    ultimately show ?thesis using Cons.IH [OF ok] Cons.prems(2) R1(1) True by (simp add: runLogins_def)
  qed
qed (simp add: runLogins_def)

lemma Auth_logged:
  assumes "redis_ok (storeEnv E)" "users_ok (storeEnv E) (store R)"
  shows "fst (RpcSyncHandle E (AuthRequest uid t code) R) =
    (if logged (startDoc (storeEnv E) (store R) uid) t = Some code then RPC_RET_SUCCESS else RPC_RET_FAILED)"
proof -
  let ?e = "storeEnv E"
  have wf: "st_wf (store R)" using assms(2) by (simp add: users_ok_def)
  note loads = users_ok_loads [OF assms(2), of uid]
  show ?thesis
  proof (cases rule: FindSessions_cases [OF wf loads, case_names none some])
    case (none st')
    then show ?thesis by (simp add: startDoc_def logged_def docPlat_def emptyDoc_def)
  next
    case (some d q st')
    have "plats_ok d" using some(1) assms(2) by (simp add: users_ok_def)
    moreover have "(\<exists>a \<in> set (sessRefs st' q). authOk t code (sessHeap st' a)) \<longleftrightarrow>
        (\<exists>s \<in> set (DocSess d). authOk t code s)"
      using some(5) by (auto simp: docOf_def)
    ultimately show ?thesis using some(1,2) authOk_logged by (simp add: startDoc_def)
  qed
qed

section \<open>A router to try things on\<close>

text \<open>A transport that answers 0 and keeps a list of what was called, on which connection.\<close>

definition logTransport :: "(nat \<times> rpcRequest) list transport" where
  "logTransport = \<lparr>dial = (\<lambda>addr w. (Some (length addr), w)),
     call = (\<lambda>h m req w. (Some 0, w @ [(h, req)])), hangup = (\<lambda>h w. w)\<rparr>"

definition putOnline :: "UserOnlineState \<Rightarrow> bytes" where
  "putOnline m = putList putChar (uoUid m) @ putInt (uoTermtype m) @ putList putChar (uoCode m) @
     putList putChar (uoDeviceToken m) @ putBool (uoLogin m)"

definition getOnlinePrefix :: "bytes \<Rightarrow> (UserOnlineState \<times> bytes) option" where
  "getOnlinePrefix bs = andThen (getList getChar bs) (\<lambda>u bs. andThen (getInt bs) (\<lambda>t bs.
     andThen (getList getChar bs) (\<lambda>c bs. andThen (getList getChar bs) (\<lambda>k bs. andThen (getBool bs) (\<lambda>l bs.
     Some (\<lparr>uoUid = u, uoTermtype = t, uoCode = c, uoDeviceToken = k, uoLogin = l\<rparr>, bs))))))"

definition getOnline :: "bytes \<Rightarrow> UserOnlineState option" where
  "getOnline bs = map_option fst (getOnlinePrefix bs)"

lemma inverts_Online: "inverts getOnlinePrefix putOnline"
  by (rule invertsI) (simp add: getOnlinePrefix_def putOnline_def)

lemma getOnline_putOnline [simp]: "getOnline (putOnline m) = Some m"
  using invertsD [OF inverts_Online, of m "[]"] by (simp add: getOnline_def)

definition exEnv :: "(redis, (nat \<times> rpcRequest) list) renv" where
  "exEnv = \<lparr>storeEnv = mapEnv, trans = logTransport, publish = (\<lambda>t b w. (True, w)),
     unTimeout = (\<lambda>b. None), maTimeout = (\<lambda>m. []), unOnline = getOnline, unDown = (\<lambda>b. None),
     maUpward = (\<lambda>m. umBody m)\<rparr>"

definition exComet :: "string \<Rightarrow> nat \<Rightarrow> int \<Rightarrow> comet" where
  "exComet cid h n = \<lparr>comId = cid, rpcClient = \<lparr>clientId = cid, serverAddr = [], conn = h, status = []\<rparr>,
     tcpAddr = cid, wsAddr = cid, online = n\<rparr>"

definition exRouter :: "(redis, (nat \<times> rpcRequest) list) Router" where
  "exRouter = \<lparr>topics = [''userOnline'', ''push'', ''callback'', ''msgDownward'', ''sessionTimeout''],
     upMsgTopic = ''up'', comets = [''c1'' \<mapsto> exComet ''c1'' 7 2], store = exSt, world = []\<rparr>"

lemma exEnv_simps [simp]: "storeEnv exEnv = mapEnv" "trans exEnv = logTransport" "unOnline exEnv = getOnline"
  by (simp_all add: exEnv_def)

lemma exRouter_simps [simp]: "store exRouter = exSt" "world exRouter = []" "comets exRouter = [''c1'' \<mapsto> exComet ''c1'' 7 2]"
  "topics exRouter = [''userOnline'', ''push'', ''callback'', ''msgDownward'', ''sessionTimeout'']"
  by (simp_all add: exRouter_def)

lemma exDoc_plats: "plats_ok exDoc"
  by (simp add: plats_ok_set phone_def)

lemma lookupDoc_exSt: "lookupDoc mapEnv exSt = [''u'' \<mapsto> exDoc]"
proof
  fix u
  show "lookupDoc mapEnv exSt u = [''u'' \<mapsto> exDoc] u"
    by (cases "u = ''u''") (simp_all add: lookupDoc_eq exSt(2) exSt_cli)
qed

lemma exSt_users_ok: "users_ok mapEnv exSt"
  by (simp add: users_ok_def exSt(1) lookupDoc_exSt exDoc_plats exDoc_ascii)

lemma startDoc_exSt: "startDoc mapEnv exSt ''u'' = exDoc"
  by (simp add: startDoc_def lookupDoc_exSt)

definition exLogin :: "int \<Rightarrow> string \<Rightarrow> UserOnlineState" where
  "exLogin t code = \<lparr>uoUid = ''u'', uoTermtype = t, uoCode = code, uoDeviceToken = [], uoLogin = True\<rparr>"

lemma exLogin_simps [simp]: "uoUid (exLogin t code) = ''u''" "uoTermtype (exLogin t code) = t"
  "uoCode (exLogin t code) = code" "uoLogin (exLogin t code)" "uoDeviceToken (exLogin t code) = []"
  by (simp_all add: exLogin_def)

lemma exLogin_ascii: "ascii code \<Longrightarrow> asciiMsg (exLogin t code)"
  by (simp add: asciiMsg_def ascii_def)

section \<open>Claims about logins\<close>

text \<open>C17: a login whose user has at most one terminal of a platform and one phone: the handler, which
  removes an element from the slice it ranges over, does not panic; it updates the code of the
  terminal of that platform, or removes the excluded phone and adds a new terminal; the new
  document is found from then on, also by a new process; no other user's document and no comet
  changes.\<close>

theorem login_updates_document:
  assumes "redis_ok (storeEnv E)" "users_ok (storeEnv E) (store R)" "asciiMsg msg" "uoLogin msg"
    "d = onlineDoc msg (startDoc (storeEnv E) (store R) (uoUid msg))"
  shows "\<exists>R'. onUserOnline E msg R = (None, R') \<and>
    lookupDoc (storeEnv E) (store R') = (lookupDoc (storeEnv E) (store R))(uoUid msg \<mapsto> d) \<and>
    lookupDoc (storeEnv E) (NewStorager (cli (store R'))) (uoUid msg) = Some d \<and>
    (\<forall>u d'. u \<noteq> uoUid msg \<longrightarrow> persisted (storeEnv E) (cli (store R)) u d' \<longrightarrow>
       lookupDoc (storeEnv E) (NewStorager (cli (store R'))) u = Some d') \<and>
    comets R' = comets R"
  using onUserOnline_done [OF assms(1-4)] assms(5)
  by (auto simp: login_done_def Let_def lookupDoc_restart)

theorem login_updates_document_witness:
  "\<exists>R'. onUserOnline exEnv (exLogin 2 ''new'') exRouter = (None, R') \<and>
    lookupDoc mapEnv (store R') ''u'' =
      Some (exDoc\<lparr>DocSess := [exWeb, newTerminal (exLogin 2 ''new'')]\<rparr>) \<and> comets R' = comets exRouter"
proof -
  have "onlineDoc (exLogin 2 ''new'') exDoc = exDoc\<lparr>DocSess := [exWeb, newTerminal (exLogin 2 ''new'')]\<rparr>"
    by (simp add: onlineDoc_def mutexPlats_phone phone_def)
  then show ?thesis
    using login_updates_document [of exEnv exRouter "exLogin 2 ''new''" _, OF _ _ _ _ refl] mapEnv_ok exSt_users_ok
    by (auto simp: startDoc_exSt exLogin_ascii ascii_def)
qed

text \<open>Authentication follows the history of logins: after any logins of any users, in any order,
  a code authenticates a user on a platform exactly if it is the code that platform's latest
  login left, counting a login of an excluded phone as the end of it.\<close>

theorem auth_follows_logins:
  assumes "redis_ok (storeEnv E)" "users_ok (storeEnv E) (store R)" "\<forall>msg \<in> set ms. asciiMsg msg"
  shows "fst (RpcSyncHandle E (AuthRequest uid t code) (runLogins E ms R)) =
    (if fold absLogin (filter (\<lambda>msg. uoLogin msg \<and> uoUid msg = uid) ms)
          (logged (startDoc (storeEnv E) (store R) uid)) t = Some code
     then RPC_RET_SUCCESS else RPC_RET_FAILED)"
proof -
  note run = runLogins_ok [OF assms, of uid]
  show ?thesis
    using Auth_logged [OF assms(1) conjunct1 [OF run], of uid t code] run by simp
qed

theorem auth_follows_logins_witness:
  "fst (RpcSyncHandle exEnv (AuthRequest ''u'' 1 ''old'') (runLogins exEnv [exLogin 1 ''a'', exLogin 2 ''b''] exRouter)) = -1 \<and>
   fst (RpcSyncHandle exEnv (AuthRequest ''u'' 2 ''b'') (runLogins exEnv [exLogin 1 ''a'', exLogin 2 ''b''] exRouter)) = 0"
  using auth_follows_logins [of exEnv exRouter "[exLogin 1 ''a'', exLogin 2 ''b'']"] mapEnv_ok exSt_users_ok
  by (simp add: exLogin_ascii ascii_def absLogin_def mutexPlats_phone phone_def)

text \<open>After any logins the store keeps one document per user with one terminal per platform and at
  most one phone, every further login is handled without a panic, and of two different phone
  platforms of a user at most one authenticates.\<close>

theorem logins_keep_one_phone:
  assumes "redis_ok (storeEnv E)" "users_ok (storeEnv E) (store R)" "\<forall>msg \<in> set ms. asciiMsg msg"
    "asciiMsg msg" "phone t" "phone t'" "t \<noteq> t'"
  shows "users_ok (storeEnv E) (store (runLogins E ms R)) \<and>
    fst (onUserOnline E msg (runLogins E ms R)) = None \<and>
    \<not> (fst (RpcSyncHandle E (AuthRequest uid t code) (runLogins E ms R)) = RPC_RET_SUCCESS \<and>
       fst (RpcSyncHandle E (AuthRequest uid t' code') (runLogins E ms R)) = RPC_RET_SUCCESS)"
proof -
  let ?R = "runLogins E ms R" and ?d = "startDoc (storeEnv E) (store (runLogins E ms R)) uid"
  note ok = conjunct1 [OF runLogins_ok [OF assms(1-3)]]
  have "fst (onUserOnline E msg ?R) = None"
    using onUserOnline_done [OF assms(1) ok assms(4)] by (cases "uoLogin msg") (auto simp: onUserOnline_def)
  moreover have "logged ?d t = None \<or> logged ?d t' = None"
  proof (rule ccontr)
    assume "\<not> (logged ?d t = None \<or> logged ?d t' = None)"
    then obtain s s' where "docPlat t ?d = Some s" "docPlat t' ?d = Some s'"
      by (auto simp: logged_def split: option.splits)
    then have "t \<in> Plat ` set (DocSess ?d)" "t' \<in> Plat ` set (DocSess ?d)"
      using docPlat_in by fastforce+
    moreover have "plats_ok ?d"
      using ok by (auto simp: users_ok_def startDoc_def plats_ok_empty split: option.split)
    ultimately show False using assms(5-7) unfolding plats_ok_set by blast
  qed
  ultimately show ?thesis
    using ok Auth_logged [OF assms(1) ok, of uid t code] Auth_logged [OF assms(1) ok, of uid t' code']
    by (auto split: if_splits)
qed

theorem logins_keep_one_phone_witness:
  "\<not> (fst (RpcSyncHandle exEnv (AuthRequest ''u'' 1 ''a'') (runLogins exEnv [exLogin 1 ''a'', exLogin 2 ''b''] exRouter)) = 0 \<and>
      fst (RpcSyncHandle exEnv (AuthRequest ''u'' 2 ''b'') (runLogins exEnv [exLogin 1 ''a'', exLogin 2 ''b''] exRouter)) = 0)"
  using logins_keep_one_phone [of exEnv exRouter "[exLogin 1 ''a'', exLogin 2 ''b'']" "exLogin 1 ''c''" 1 2 "''u''" "''a''" "''b''"]
    mapEnv_ok exSt_users_ok
  by (simp add: exLogin_ascii ascii_def phone_def)

end
