(* ===== verification/RouterPush.thy ===== *)
theory RouterPush
  imports RouterProps RdsTrace
begin

text \<open>
  The router's other duties: a push, callback or message reaches every matching terminal of its
  receiver or is stored for it; the load dispatcher's choice of a comet; what an online and an
  offline report leave behind.
\<close>

section \<open>What a lookup or a save keeps\<close>

definition core :: "Session \<Rightarrow> string \<times> int \<times> string" where
  "core s = (SessId s, Plat s, IOSToken s)"

lemma core_modOff [simp]: "core (modOff f s) = core s"
  by (simp add: core_def modOff_def)

text \<open>
  Objects stay where they are, arrays keep their elements and sessions all but their state and
  queues: what a loop over a slice relies on while the sessions are saved under it.
\<close>

definition keeps :: "'r Storager \<Rightarrow> 'r Storager \<Rightarrow> bool" where
  "keeps st st' \<longleftrightarrow> fresh st \<le> fresh st' \<and>
     (\<forall>a < fresh st. arrHeap st' a = arrHeap st a \<and> core (sessHeap st' a) = core (sessHeap st a))"

lemma keeps_refl [simp]: "keeps st st"
  by (simp add: keeps_def)

lemma keeps_trans: "keeps st st' \<Longrightarrow> keeps st' st'' \<Longrightarrow> keeps st st''"
  by (auto simp: keeps_def)

lemma keeps_extends: "extends st st' \<Longrightarrow> keeps st st'"
  by (simp add: keeps_def extends_def)

lemma keeps_other [simp]:
  "keeps st (st'\<lparr>memStore := m\<rparr>) = keeps st st'" "keeps st (st'\<lparr>cli := c\<rparr>) = keeps st st'"
  "keeps st (modSess a (modOff f) st') = keeps st st'"
  by (auto simp: keeps_def)

lemma FindSessions_keeps:
  assumes "FindSessions e uid st = (r, st')"
  shows "keeps st st'"
proof (cases "memStore st uid")
  case (Some p)
  then show ?thesis using assms keeps_extends [OF extends_new(1)]
    by (auto simp: FindSessions_def Let_def split: prod.splits)
next
  case None
  have alloc: "keeps st st1" if "allocDoc d (st\<lparr>cli := c\<rparr>) = (q, st1)" for d c q st1
    using keeps_extends [OF allocDoc_spec(1) [OF that]] by (simp add: keeps_def)
  from None assms show ?thesis
    by (auto simp: FindSessions_def Let_def split: option.splits prod.splits dest: alloc)
qed

lemma SaveSessions_keeps [simp]: "keeps st (snd (SaveSessions e q st')) = keeps st st'"
  by (simp add: SaveSessions_def Let_def keeps_def split: option.split prod.split)

lemma save_ops_keep:
  "keeps st (SavePushMsg e uid plat msg st)" "keeps st (SaveCallbackMsg e uid plat msg st)"
  "keeps st (SaveImMsg e uid plat msg st)"
  by (auto simp: SavePushMsg_def SaveCallbackMsg_def SaveImMsg_def Let_def
      split: prod.split option.split dest: FindSessions_keeps)

lemma SaveOfflineMsg_frame:
  "keeps (store R) (store (SaveOfflineMsg E mt uid plat msg R))"
  "comets (SaveOfflineMsg E mt uid plat msg R) = comets R"
  "world (SaveOfflineMsg E mt uid plat msg R) = world R"
  "topics (SaveOfflineMsg E mt uid plat msg R) = topics R"
  by (simp_all add: SaveOfflineMsg_def save_ops_keep)

section \<open>Delivery as a function of the terminals\<close>

text \<open>
  Push to each terminal in turn; the result is the terminals whose push failed and that can have
  offline messages, and the outside world after the calls.
\<close>

fun deliver :: "'w transport \<Rightarrow> RpcClient \<Rightarrow> int \<Rightarrow> MsgDownward \<Rightarrow> Session list \<Rightarrow> 'w \<Rightarrow> Session list \<times> 'w" where
  "deliver t p mt msg [] w = ([], w)"
| "deliver t p mt msg (it # its) w =
     (let (err, w) = PushTo t p mt (SessId it) (Plat it) (IOSToken it) (mdFlag msg) (mdBody msg) w;
          (failed, w) = deliver t p mt msg its w
      in (if err \<noteq> None \<and> Plat it \<noteq> PLAT_WEB then it # failed else failed, w))"

definition specSaveOff :: "int \<Rightarrow> bytes \<Rightarrow> Session \<Rightarrow> SessionsDoc \<Rightarrow> SessionsDoc" where
  "specSaveOff mt body it =
     (if mt = MSGTYPE_PUSH then specSavePush (Plat it) body
      else if mt = MSGTYPE_CALLBACK then specSaveCallback (Plat it) body
      else if mt = MSGTYPE_MESSAGE then specSaveIm (Plat it) body
      else (\<lambda>d. d))"

definition saveAll :: "('r, 'w) renv \<Rightarrow> int \<Rightarrow> bytes \<Rightarrow> Session list \<Rightarrow> ('r, 'w) Router \<Rightarrow> ('r, 'w) Router" where
  "saveAll E mt body = fold (\<lambda>it. SaveOfflineMsg E mt (SessId it) (Plat it) body)"

lemma saveAll_simps [simp]:
  "saveAll E mt body [] R = R"
  "saveAll E mt body (it # its) R = saveAll E mt body its (SaveOfflineMsg E mt (SessId it) (Plat it) body R)"
  by (simp_all add: saveAll_def)

lemma SaveOfflineMsg_world: "SaveOfflineMsg E mt uid plat msg (R\<lparr>world := w\<rparr>) =
    (SaveOfflineMsg E mt uid plat msg R)\<lparr>world := w\<rparr>"
  by (simp add: SaveOfflineMsg_def)

lemma saveAll_world: "saveAll E mt body its (R\<lparr>world := w\<rparr>) = (saveAll E mt body its R)\<lparr>world := w\<rparr>"
  by (induction its arbitrary: R) (simp_all add: SaveOfflineMsg_world)

text \<open>Reading the terminals through the slice while they are saved gives the same as reading them first.\<close>

definition reads :: "('r, 'w) Router \<Rightarrow> slice \<Rightarrow> nat list \<Rightarrow> Session list \<Rightarrow> bool" where
  "reads R s0 is its \<longleftrightarrow> arr s0 < fresh (store R) \<and>
     list_all2 (\<lambda>i it. arrHeap (store R) (arr s0) ! i < fresh (store R) \<and>
       core (sessHeap (store R) (arrHeap (store R) (arr s0) ! i)) = core it) is its"

lemma reads_keeps: "reads R s0 is its \<Longrightarrow> keeps (store R) (store R') \<Longrightarrow> reads R' s0 is its"
  unfolding reads_def keeps_def by (auto elim!: list_all2_mono)

lemma pushLoop_deliver:
  assumes "reads R s0 is its"
  shows "pushLoop E c mt msg tt s0 is R =
    (let (failed, w) = deliver (trans E) (rpcClient c) mt msg (filter (\<lambda>it. (Plat it AND tt) > 0) its) (world R)
     in (saveAll E mt (mdBody msg) failed R)\<lparr>world := w\<rparr>)"
  using assms
proof (induction "is" arbitrary: its R)
  case Nil
  then show ?case by (simp add: reads_def)
next
  case (Cons i "is")
  then obtain it its' where its: "its = it # its'" by (auto simp: reads_def list_all2_Cons1)
  let ?it = "sessHeap (store R) (arrHeap (store R) (arr s0) ! i)"
  have it: "SessId ?it = SessId it" "Plat ?it = Plat it" "IOSToken ?it = IOSToken it"
    and rest: "reads R s0 is its'"
    using Cons.prems by (auto simp: reads_def its core_def)
  show ?case
  proof (cases "(Plat it AND tt) > 0")
    case False
    then show ?thesis using Cons.IH [OF rest] by (simp add: its it)
  next
    case True
    obtain err w where push: "PushTo (trans E) (rpcClient c) mt (SessId it) (Plat it) (IOSToken it)
        (mdFlag msg) (mdBody msg) (world R) = (err, w)" by fastforce
    let ?R1 = "R\<lparr>world := w\<rparr>"
    let ?R = "if err \<noteq> None \<and> Plat it \<noteq> PLAT_WEB
      then SaveOfflineMsg E mt (SessId it) (Plat it) (mdBody msg) ?R1 else ?R1"
    have "reads ?R s0 is its'"
      using reads_keeps [OF rest, of ?R] SaveOfflineMsg_frame(1) [of ?R1] by auto
    note IH = Cons.IH [OF this]
    obtain failed w' where rest: "deliver (trans E) (rpcClient c) mt msg (filter (\<lambda>it. (Plat it AND tt) > 0) its') w
        = (failed, w')" by fastforce
    have "world ?R = w" by (simp add: SaveOfflineMsg_frame)
    with IH rest True push show ?thesis
      by (cases "err \<noteq> None \<and> Plat it \<noteq> PLAT_WEB")
        (auto simp: its it rPush_def SaveOfflineMsg_world saveAll_world)
  qed
qed

lemma offlineLoop_saves:
  assumes "reads R s0 is its"
  shows "offlineLoop E mt msg tt s0 is R = saveAll E mt (mdBody msg) (filter (\<lambda>it. (Plat it AND tt) > 0) its) R"
  using assms
proof (induction "is" arbitrary: its R)
  case Nil
  then show ?case by (simp add: reads_def)
next
  case (Cons i "is")
  then obtain it its' where its: "its = it # its'" by (auto simp: reads_def list_all2_Cons1)
  let ?it = "sessHeap (store R) (arrHeap (store R) (arr s0) ! i)"
  have it: "SessId ?it = SessId it" "Plat ?it = Plat it" and rest: "reads R s0 is its'"
    using Cons.prems by (auto simp: reads_def its core_def)
  let ?R = "if (Plat it AND tt) > 0 then SaveOfflineMsg E mt (SessId it) (Plat it) (mdBody msg) R else R"
  have "reads ?R s0 is its'" using reads_keeps [OF rest, of ?R] by (simp add: SaveOfflineMsg_frame)
  from Cons.IH [OF this] show ?case by (cases "(Plat it AND tt) > 0") (simp_all add: its it)
qed

section \<open>What is stored\<close>

lemma SaveOfflineMsg_cached:
  assumes "st_wf (store R)" "cached (store R) uid = Some d"
  shows "st_wf (store (SaveOfflineMsg E mt uid (Plat it) body R))"
    "cached (store (SaveOfflineMsg E mt uid (Plat it) body R)) = (cached (store R))(uid \<mapsto> specSaveOff mt body it d)"
proof -
  note P = runOp_cached [OF assms, of "storeEnv E" "OpSavePush (Plat it) body", simplified]
  note C = runOp_cached [OF assms, of "storeEnv E" "OpSaveCallback (Plat it) body", simplified]
  note M = runOp_cached [OF assms, of "storeEnv E" "OpSaveIm (Plat it) body", simplified]
  show "st_wf (store (SaveOfflineMsg E mt uid (Plat it) body R))"
    using P(1) C(1) M(1) assms(1) by (simp add: SaveOfflineMsg_def)
  have "cached (store R) = (cached (store R))(uid \<mapsto> d)" using assms(2) by (simp add: fun_upd_idem)
  then show "cached (store (SaveOfflineMsg E mt uid (Plat it) body R)) =
      (cached (store R))(uid \<mapsto> specSaveOff mt body it d)"
    using P(2) C(2) M(2) by (simp add: SaveOfflineMsg_def specSaveOff_def)
qed

lemma saveAll_cached:
  assumes "st_wf (store R)" "cached (store R) uid = Some d" "\<forall>it \<in> set its. SessId it = uid"
  shows "st_wf (store (saveAll E mt body its R)) \<and> comets (saveAll E mt body its R) = comets R \<and>
    world (saveAll E mt body its R) = world R \<and>
    cached (store (saveAll E mt body its R)) = (cached (store R))(uid \<mapsto> fold (specSaveOff mt body) its d)"
  using assms
proof (induction its arbitrary: R d)
  case Nil
  then show ?case by (simp add: fun_upd_idem)
next
  case (Cons it its)
  note S = SaveOfflineMsg_cached [OF Cons.prems(1,2), of E mt it body]
  have c: "cached (store (SaveOfflineMsg E mt uid (Plat it) body R)) uid = Some (specSaveOff mt body it d)"
    by (simp add: S(2))
  show ?case using Cons.IH [OF S(1) c] Cons.prems(3) S(2) by (simp add: SaveOfflineMsg_frame fun_eq_iff)
qed

lemma handle_reads:
  assumes "handle (store R) uid q"
  shows "reads R (Sess (sssHeap (store R) q)) [0..<slen (Sess (sssHeap (store R) q))] (DocSess (docOf (store R) q))"
proof -
  let ?st = "store R" and ?s = "Sess (sssHeap (store R) q)"
  have w: "arr ?s < fresh ?st" "slen ?s \<le> length (arrHeap ?st (arr ?s))" "\<forall>a \<in> set (sessRefs ?st q). a < fresh ?st"
    using assms by (simp_all add: handle_def wfp_def)
  have "arrHeap ?st (arr ?s) ! i < fresh ?st" if "i < slen ?s" for i
    using that w nth_mem [of i "sessRefs ?st q"] by (simp add: sessRefs_def elems_def)
  with w show ?thesis
    by (auto simp: reads_def list_all2_conv_all_nth docOf_def sessRefs_def elems_def)
qed

lemma deliver_subset: "set (fst (deliver t p mt msg its w)) \<subseteq> set its"
proof (induction its arbitrary: w)
  case (Cons it its)
  obtain err w1 where "PushTo t p mt (SessId it) (Plat it) (IOSToken it) (mdFlag msg) (mdBody msg) w = (err, w1)"
    by fastforce
  moreover obtain failed w2 where "deliver t p mt msg its w1 = (failed, w2)" by fastforce
  ultimately show ?case using Cons.IH [of w1] by auto
qed simp

text \<open>
  What \<^verbatim>\<open>pushReceiver\<close> comes to: the lookup, then the calls, then one save per terminal in
  \<open>failed\<close>.
\<close>

definition deliverAll :: "('r, 'w) renv \<Rightarrow> int \<Rightarrow> MsgDownward \<Rightarrow> string \<Rightarrow> Session list \<Rightarrow> ('r, 'w) Router \<Rightarrow>
    Session list \<times> 'w" where
  "deliverAll E mt msg cid targets R =
     (case findComet cid (comets R) of None \<Rightarrow> (targets, world R)
      | Some c \<Rightarrow> deliver (trans E) (rpcClient c) mt msg targets (world R))"

lemma deliverAll_subset: "deliverAll E mt msg cid targets R = (failed, w) \<Longrightarrow> set failed \<subseteq> set targets"
  using deliver_subset [of "trans E" _ mt msg targets "world R"]
  by (auto simp: deliverAll_def split: option.splits) (metis fst_conv subsetD)

lemma pushReceiver_saves:
  assumes "FindSessions (storeEnv E) (rcUid rc) (store R) = (Some q, st')" "handle st' (rcUid rc) q"
    and "targets = filter (\<lambda>it. (Plat it AND rcTermtype rc) > 0) (DocSess (docOf st' q))"
    and "deliverAll E mt msg (DocComet (docOf st' q)) targets R = (failed, w)"
  shows "pushReceiver E mt msg rc R = (saveAll E mt (mdBody msg) failed (R\<lparr>store := st'\<rparr>))\<lparr>world := w\<rparr>"
proof -
  let ?R = "R\<lparr>store := st'\<rparr>"
  have com: "CometId (sssHeap st' q) = DocComet (docOf st' q)" by (simp add: docOf_def)
  have rd: "reads ?R (Sess (sssHeap st' q)) [0..<slen (Sess (sssHeap st' q))] (DocSess (docOf st' q))"
    using handle_reads [of ?R "rcUid rc" q] assms(2) by simp
  show ?thesis
  proof (cases "findComet (DocComet (docOf st' q)) (comets R)")
    case None
    then have eq: "failed = targets" "w = world R" using assms(4) by (auto simp: deliverAll_def)
    have "pushReceiver E mt msg rc R = saveAll E mt (mdBody msg) failed ?R"
      using None assms(1,3) com eq offlineLoop_saves [OF rd] by (simp add: pushReceiver_def)
    moreover have "?R = ?R\<lparr>world := w\<rparr>" by (simp add: eq)
    ultimately show ?thesis by (metis saveAll_world)
  next
    case (Some c)
    then have "deliver (trans E) (rpcClient c) mt msg targets (world R) = (failed, w)"
      using assms(4) by (simp add: deliverAll_def)
    then show ?thesis using Some assms(1,3) com pushLoop_deliver [OF rd, of E c mt msg "rcTermtype rc"]
      by (simp add: pushReceiver_def)
  qed
qed

section \<open>Claim about pushes\<close>

text \<open>
  The loop without the loop: the call for the terminal at place \<open>i\<close> is made in the world after
  the first \<open>i\<close> calls.
\<close>

lemma filter_upt_Suc: "filter P [0..<Suc n] = (if P 0 then [0] else []) @ map Suc (filter (\<lambda>i. P (Suc i)) [0..<n])"
  by (subst upt_conv_Cons) (simp_all add: map_Suc_upt [symmetric] filter_map comp_def del: upt_Suc)

lemma deliver_eq:
  assumes "\<And>it w. PushTo t p mt (SessId it) (Plat it) (IOSToken it) (mdFlag msg) (mdBody msg) w = push it w"
  shows "deliver t p mt msg its w =
    (map ((!) its) (filter (\<lambda>i. fst (push (its ! i) (fold (\<lambda>it w. snd (push it w)) (take i its) w)) \<noteq> None \<and>
        Plat (its ! i) \<noteq> PLAT_WEB) [0..<length its]),
     fold (\<lambda>it w. snd (push it w)) its w)"
proof (induction its arbitrary: w)
  case (Cons it its)
  obtain err w1 where "push it w = (err, w1)" by fastforce
  then show ?case
    unfolding length_Cons filter_upt_Suc by (simp add: assms Cons.IH comp_def)
qed simp

text \<open>C20: a push, callback or message for a receiver with a stored document: if his comet is known,
  one call is made for every terminal whose platform bit is among the requested ones, in the
  document's order, and the message is stored for those of them, and only those, that are not
  web pages and whose call gave an error; for a web page it is lost then. If the comet is not
  known no call is made, and the message is stored for all requested terminals, the web pages
  too, although the comment of the loop says that they keep no offline messages. No other
  user's document changes.\<close>

theorem push_delivers_or_stores:
  fixes E :: "('r, 'w) renv" and R :: "('r, 'w) Router"
  assumes "st_wf (store R)" "lookupDoc (storeEnv E) (store R) (rcUid rc) = Some d" "DocId d = rcUid rc"
    and "\<forall>it \<in> set (DocSess d). SessId it = rcUid rc"
    and "targets = filter (\<lambda>it. (Plat it AND rcTermtype rc) > 0) (DocSess d)"
    and "R' = pushReceiver E mt msg rc R"
  shows "comets R' = comets R \<and>
    (case findComet (DocComet d) (comets R) of
       None \<Rightarrow> world R' = world R \<and>
         cached (store R') = (cached (store R))(rcUid rc \<mapsto> fold (specSaveOff mt (mdBody msg)) targets d)
     | Some c \<Rightarrow>
        (let push = (\<lambda>it. PushTo (trans E) (rpcClient c) mt (SessId it) (Plat it) (IOSToken it) (mdFlag msg) (mdBody msg));
             after = (\<lambda>i. fold (\<lambda>it w. snd (push it w)) (take i targets) (world R));
             failed = filter (\<lambda>i. fst (push (targets ! i) (after i)) \<noteq> None \<and> Plat (targets ! i) \<noteq> PLAT_WEB)
               [0..<length targets]
         in world R' = after (length targets) \<and>
           cached (store R') = (cached (store R))(rcUid rc \<mapsto>
             fold (specSaveOff mt (mdBody msg)) (map ((!) targets) failed) d)))"
proof -
  let ?e = "storeEnv E" and ?uid = "rcUid rc"
  have loads: "loads ?e (store R) ?uid"
    using assms(2,3) by (auto simp: loads_def key_ok_def lookupDoc_def)
  from FindSessions_cases [OF assms(1) loads] assms(2)
  obtain q st' where F: "FindSessions ?e ?uid (store R) = (Some q, st')" "st_wf st'" "handle st' ?uid q"
    "docOf st' q = d" "cached st' = (cached (store R))(?uid \<mapsto> d)"
    by (metis option.inject option.distinct(1))
  let ?R = "R\<lparr>store := st'\<rparr>"
  obtain failed w where dl: "deliverAll E mt msg (DocComet (docOf st' q)) targets R = (failed, w)" by fastforce
  have R': "R' = (saveAll E mt (mdBody msg) failed ?R)\<lparr>world := w\<rparr>"
    using pushReceiver_saves [OF F(1,3) _ dl] assms(5,6) F(4) by simp
  have sub: "\<forall>it \<in> set failed. SessId it = ?uid"
    using deliverAll_subset [OF dl] assms(4,5) by auto
  have wf: "st_wf (store ?R)" and c: "cached (store ?R) ?uid = Some d" using F(2,5) by simp_all
  have stored: "cached (store R') = (cached (store R))(?uid \<mapsto> fold (specSaveOff mt (mdBody msg)) failed d)"
    "world R' = w" "comets R' = comets R"
    using saveAll_cached [OF wf c sub, of E mt "mdBody msg"] R' F(5) by simp_all
  show ?thesis
  proof (cases "findComet (DocComet d) (comets R)")
    case None
    then show ?thesis using dl stored by (simp add: deliverAll_def F(4))
  next
    case (Some c)
    then have "deliver (trans E) (rpcClient c) mt msg targets (world R) = (failed, w)"
      using dl by (simp add: deliverAll_def F(4))
    then show ?thesis using Some stored deliver_eq [OF refl, of "trans E" "rpcClient c" mt msg targets "world R"]
      by (simp add: Let_def)
  qed
qed

text \<open>A comet whose link is down: the message is stored for the phone and lost for the web page.\<close>

definition downEnv :: "(redis, (nat \<times> rpcRequest) list) renv" where
  "downEnv = exEnv\<lparr>trans := logTransport\<lparr>call := (\<lambda>h m req w. (None, w @ [(h, req)]))\<rparr>\<rparr>"

lemma downEnv_simps: "storeEnv downEnv = mapEnv"
  "PushTo (trans downEnv) p mt uid plat tok flag body w =
     (Some CallError, w @ [(conn p, PushRequst mt flag uid plat tok body)])"
  by (simp_all add: downEnv_def PushTo_def callChecked_def)

theorem push_delivers_or_stores_witness:
  "let R' = pushReceiver downEnv MSGTYPE_MESSAGE \<lparr>mdReceivers = [], mdFlag = 0, mdBody = [7]\<rparr>
     \<lparr>rcUid = ''u'', rcTermtype = 9\<rparr> exRouter
   in world R' = [(7, PushRequst MSGTYPE_MESSAGE 0 ''u'' 1 [] [7]), (7, PushRequst MSGTYPE_MESSAGE 0 ''u'' 8 [] [7])] \<and>
     cached (store R') = [''u'' \<mapsto> specSaveIm 1 [7] exDoc]"
proof -
  let ?rc = "\<lparr>rcUid = ''u'', rcTermtype = 9\<rparr>"
  have wf: "st_wf (store exRouter)" and look: "lookupDoc (storeEnv downEnv) (store exRouter) (rcUid ?rc) = Some exDoc"
    and ids: "DocId exDoc = rcUid ?rc" "\<forall>it \<in> set (DocSess exDoc). SessId it = rcUid ?rc"
    using exSt(1) by (simp_all add: lookupDoc_exSt downEnv_simps)
  have t: "[exPhone, exWeb] = filter (\<lambda>it. (Plat it AND rcTermtype ?rc) > 0) (DocSess exDoc)" by simp
  have c: "findComet ''c1'' [''c1'' \<mapsto> exComet ''c1'' 7 2] = Some (exComet ''c1'' 7 2)" "conn (rpcClient (exComet ''c1'' 7 2)) = 7"
    by (simp_all add: findComet_def exComet_def)
  have two: "[0..<length [exPhone, exWeb]] = [0, 1]" by (simp add: upt_rec)
  from push_delivers_or_stores [OF wf look ids t refl, of MSGTYPE_MESSAGE "\<lparr>mdReceivers = [], mdFlag = 0, mdBody = [7]\<rparr>"]
  show ?thesis
    by (simp add: c downEnv_simps Let_def two specSaveOff_def exSt(2))
qed

end
