(* ===== verification/RouterReports.thy ===== *)
theory RouterReports
  imports RouterPush
begin

text \<open>
  The load dispatcher's choice of a comet, and what the online and offline reports of a comet
  leave in the store and in the comet's counter.
\<close>

section \<open>The balancer\<close>

text \<open>
  \<^verbatim>\<open>minLoad\<close> is 0 both before the first comet and after an idle one, so an idle comet makes the
  balancer start afresh. What is left to choose from, for any loads: the comets after the last
  idle one, unless there are none or a load is negative.
\<close>

definition lastBusy :: "comet list \<Rightarrow> comet list" where
  "lastBusy order = rev (takeWhile (\<lambda>c. online c \<noteq> 0) (rev order))"

definition choices :: "comet list \<Rightarrow> comet list" where
  "choices order = (if lastBusy order = [] \<or> (\<exists>c \<in> set order. online c < 0) then order else lastBusy order)"

definition least :: "comet \<Rightarrow> comet list \<Rightarrow> bool" where
  "least c cs \<longleftrightarrow> c \<in> set cs \<and> (\<forall>c' \<in> set cs. online c \<le> online c')"

lemma lastBusy_simps [simp]:
  "lastBusy [] = []" "lastBusy [v] = (if online v = 0 then [] else [v])"
  "lastBusy (order @ [v]) = (if online v = 0 then [] else lastBusy order @ [v])"
  by (simp_all add: lastBusy_def)

lemma lastBusy_set: "c \<in> set (lastBusy order) \<Longrightarrow> c \<in> set order \<and> online c \<noteq> 0"
  unfolding lastBusy_def by (metis set_rev set_takeWhileD)

lemma lastBusy_empty: "lastBusy order = [] \<Longrightarrow> order \<noteq> [] \<Longrightarrow> \<exists>c \<in> set order. online c = 0"
  by (cases order rule: rev_cases) (auto split: if_splits)

lemma lastBusy_all: "\<forall>c \<in> set order. online c \<noteq> 0 \<Longrightarrow> lastBusy order = order"
  unfolding lastBusy_def by (subst iffD2 [OF takeWhile_eq_all_conv]) simp_all

lemma choices_all: "\<forall>c \<in> set order. online c \<noteq> 0 \<Longrightarrow> choices order = order"
  by (simp add: choices_def lastBusy_all)

lemma choices_subset: "set (choices order) \<subseteq> set order"
  using lastBusy_set by (auto simp: choices_def)

lemma balance_least:
  "order \<noteq> [] \<Longrightarrow> \<exists>c. fold balanceStep order (0, None) = (online c, Some c) \<and> least c (choices order)"
proof (induction order rule: rev_induct)
  case (snoc v order)
  show ?case
  proof (cases "order = []")
    case True
    then show ?thesis by (intro exI [of _ v]) (simp add: balanceStep_def choices_def least_def)
  next
    case False
    then obtain c where c: "fold balanceStep order (0, None) = (online c, Some c)" "least c (choices order)"
      using snoc.IH by blast
    let ?c = "if online c = 0 \<or> online v < online c then v else c"
    have "fold balanceStep (order @ [v]) (0, None) = (online ?c, Some ?c)"
      using c(1) by (auto simp: balanceStep_def)
    moreover have "least ?c (choices (order @ [v]))"
    proof (cases "\<exists>c' \<in> set order. online c' < 0")
      case True
      then have o: "choices order = order" "choices (order @ [v]) = order @ [v]" by (auto simp: choices_def)
      with True c(2) have "online c < 0" by (auto simp: least_def)
      then show ?thesis using c(2) unfolding o by (auto simp: least_def)
    next
      case nonneg: False
      show ?thesis
      proof (cases "lastBusy order = []")
        case True
        then have "online c = 0" using lastBusy_empty [OF True False] nonneg c(2)
          by (fastforce simp: choices_def least_def)
        then show ?thesis using nonneg True by (auto simp: choices_def least_def)
      next
        case False
        then have "choices order = lastBusy order" using nonneg by (auto simp: choices_def)
        with c(2) have b: "c \<in> set order" "0 < online c" "c \<in> set (lastBusy order)"
          "\<forall>c' \<in> set (lastBusy order). online c \<le> online c'"
          using lastBusy_set nonneg by (fastforce simp: least_def)+
        then show ?thesis using nonneg by (fastforce simp: choices_def least_def)
      qed
    qed
    ultimately show ?thesis by blast
  qed
qed simp

lemma poolBalancer_choice:
  assumes "order \<noteq> []"
  shows "\<exists>c. poolBalancer order = Some c \<and> least c (choices order) \<and> c \<in> set order"
  using balance_least [OF assms] choices_subset by (fastforce simp: poolBalancer_def least_def)

lemma platOfName_web: "platOfName s = 8 \<longleftrightarrow> s = ''Web''"
  by (auto simp: platOfName_def)

lemma dispatcher_answer:
  assumes "st_wf (store R)" "loads (storeEnv E) (store R) uid" "order \<noteq> []"
  shows "\<exists>c. fst (loadDispatcher E order ''POST'' uid platS R) =
      Some (if platS = ''Web'' then wsAddr c else tcpAddr c) \<and>
    (case Option.bind (lookupDoc (storeEnv E) (store R) uid) (\<lambda>d. findComet (DocComet d) (comets R)) of
       Some own \<Rightarrow> c = own
     | None \<Rightarrow> c \<in> set order \<and> least c (choices order))"
proof -
  obtain c where c: "poolBalancer order = Some c" "least c (choices order)" "c \<in> set order"
    using poolBalancer_choice [OF assms(3)] by blast
  show ?thesis
  proof (cases rule: FindSessions_cases [OF assms(1,2), case_names none some])
    case (none st')
    then show ?thesis using c by (intro exI [of _ c]) (simp add: loadDispatcher_def balancer_def platOfName_web)
  next
    case (some d q st')
    have "CometId (sssHeap st' q) = DocComet d" using some(5) by (auto simp: docOf_def)
    then show ?thesis using some(1,2) c
      by (cases "findComet (DocComet d) (comets R)")
        (auto simp: loadDispatcher_def balancer_def platOfName_web)
  qed
qed

text \<open>C21: the dispatcher answers a POST with an address of the comet the user is attached to, if that
  comet is registered: the websocket address for the web, the TCP address for the rest.
  Otherwise of a comet the balancer chooses, whatever the loads: one of least load among all if
  no comet is idle, if the last one ranged over is, or if a load is negative, and else only one
  of least load among those ranged over after the last idle comet, which is busier than an idle
  one the balancer has forgotten.\<close>

theorem dispatcher_balances:
  assumes "st_wf (store R)" "loads (storeEnv E) (store R) uid" "order \<noteq> []"
    and "busy = rev (takeWhile (\<lambda>c. online c \<noteq> 0) (rev order))"
  shows "\<exists>c. fst (loadDispatcher E order ''POST'' uid platS R) =
      Some (if platS = ''Web'' then wsAddr c else tcpAddr c) \<and>
    (case Option.bind (lookupDoc (storeEnv E) (store R) uid) (\<lambda>d. findComet (DocComet d) (comets R)) of
       Some own \<Rightarrow> c = own
     | None \<Rightarrow>
        if (\<forall>c' \<in> set order. online c' \<noteq> 0) \<or> busy = [] \<or> (\<exists>c' \<in> set order. online c' < 0)
        then c \<in> set order \<and> (\<forall>c' \<in> set order. online c \<le> online c')
        else c \<in> set busy \<and> (\<forall>c' \<in> set busy. online c \<le> online c') \<and>
          (\<exists>idle \<in> set order. online idle < online c))"
proof -
  have busy: "busy = lastBusy order" by (simp add: assms(4) lastBusy_def)
  have choice: "if (\<forall>c' \<in> set order. online c' \<noteq> 0) \<or> busy = [] \<or> (\<exists>c' \<in> set order. online c' < 0)
        then c \<in> set order \<and> (\<forall>c' \<in> set order. online c \<le> online c')
        else c \<in> set busy \<and> (\<forall>c' \<in> set busy. online c \<le> online c') \<and>
          (\<exists>idle \<in> set order. online idle < online c)"
    if "least c (choices order)" for c
  proof (cases "(\<forall>c' \<in> set order. online c' \<noteq> 0) \<or> busy = [] \<or> (\<exists>c' \<in> set order. online c' < 0)")
    case True
    then have "choices order = order" using lastBusy_all by (auto simp: choices_def busy)
    then show ?thesis using that True by (simp add: least_def)
  next
    case False
    then obtain z where z: "z \<in> set order" "online z = 0" by blast
    have c: "choices order = busy" using False by (simp add: choices_def busy)
    then have "c \<in> set busy" using that by (simp add: least_def)
    then have "c \<in> set order" "online c \<noteq> 0" using lastBusy_set busy by blast+
    then have "online z < online c" using False z(2) by fastforce
    then show ?thesis using that c False z(1) by (auto simp: least_def)
  qed
  obtain c where c: "fst (loadDispatcher E order ''POST'' uid platS R) =
      Some (if platS = ''Web'' then wsAddr c else tcpAddr c)"
    "case Option.bind (lookupDoc (storeEnv E) (store R) uid) (\<lambda>d. findComet (DocComet d) (comets R)) of
       Some own \<Rightarrow> c = own | None \<Rightarrow> c \<in> set order \<and> least c (choices order)"
    using dispatcher_answer [OF assms(1-3)] by blast
  show ?thesis
    using c(1) c(2) choice [of c]
    by (intro exI [of _ c] conjI) (assumption, simp split: option.splits)
qed

text \<open>With an idle comet between a comet of load 4 and one of load 1000, the busiest is chosen.\<close>

theorem dispatcher_balances_witness:
  "fst (loadDispatcher exEnv [exComet ''c2'' 8 4, exComet ''idle'' 9 0, exComet ''c3'' 9 1000] ''POST'' ''nobody'' ''iOS'' exRouter) =
     Some (tcpAddr (exComet ''c3'' 9 1000))"
proof -
  have "loads mapEnv exSt ''nobody''" using users_ok_loads [OF exSt_users_ok] .
  moreover have "online (exComet a h n) = n" for a h n by (simp add: exComet_def)
  ultimately show ?thesis
    using dispatcher_balances [of exRouter exEnv "''nobody''" "[exComet ''c2'' 8 4, exComet ''idle'' 9 0, exComet ''c3'' 9 1000]"
        "[exComet ''c3'' 9 1000]" "''iOS''"] exSt(1)
    by (auto simp: lookupDoc_exSt)
qed

section \<open>Reports\<close>

definition docOnline :: "int \<Rightarrow> string \<Rightarrow> string \<Rightarrow> SessionsDoc \<Rightarrow> SessionsDoc" where
  "docOnline t tok cid d = d\<lparr>DocComet := cid,
     DocSess := map (\<lambda>s. if Plat s = t \<and> AuthCode s = tok then s\<lparr>Online := True\<rparr> else s) (DocSess d)\<rparr>"

definition docOffline :: "nat \<Rightarrow> SessionsDoc \<Rightarrow> SessionsDoc" where
  "docOffline k d = d\<lparr>DocSess := (DocSess d)[k := (DocSess d ! k)\<lparr>Online := False\<rparr>]\<rparr>"

text \<open>
  A report changes the comet of the working copy, and terminals of that copy: the terminals are
  those of the cached entry, the comet is not, unless the copy is the entry.
\<close>

lemma report_local:
  assumes wf: "st_wf st" and h: "handle st uid q"
    and eq: "memStore st' = memStore st" "fresh st' = fresh st" "arrHeap st' = arrHeap st" "cli st' = cli st"
    and sss: "sssHeap st' = (sssHeap st)(q := (sssHeap st q)\<lparr>CometId := cid\<rparr>)"
    and sess: "\<And>a. a \<notin> set (sessRefs st q) \<Longrightarrow> sessHeap st' a = sessHeap st a"
  shows "ready_to_save st uid q (docOf st' q) st'"
    "docOf st' q = \<lparr>DocId = uid, DocComet = cid, DocSess = map (sessHeap st') (sessRefs st q)\<rparr>"
    "cached st' uid = Some (docOf st' q) \<or>
     cached st' uid = Some ((docOf st' q)\<lparr>DocComet := DocComet (docOf st q)\<rparr>)"
proof -
  have S: "Sess (sssHeap st' p) = Sess (sssHeap st p)" "SsId (sssHeap st' p) = SsId (sssHeap st p)" for p
    by (simp_all add: sss)
  have refs: "sessRefs st' p = sessRefs st p" for p by (simp add: sessRefs_def elems_def S eq)
  have wfp: "wfp st' p = wfp st p" for p by (simp add: wfp_def S eq refs)
  have sep: "separate st' p p' = separate st p p'" for p p' by (simp add: separate_def S refs)
  have st': "st_wf st'" using wf by (simp add: st_wf_def wfp sep S eq)
  have own: "owner st' uid q" using handle_owner [OF wf h] by (simp add: owner_def wfp sep S eq)
  have other: "cached st' u = cached st u" if "u \<noteq> uid" for u
  proof (cases "memStore st u")
    case (Some p)
    then have "separate st q p" using handle_owner [OF wf h] that by (auto simp: owner_def)
    then have "p \<noteq> q" "map (sessHeap st') (sessRefs st p) = map (sessHeap st) (sessRefs st p)"
      using sess by (auto simp: separate_def)
    then show ?thesis using Some by (simp add: cached_def eq docOf_def refs sss)
  qed (simp add: cached_def eq)
  show "ready_to_save st uid q (docOf st' q) st'" using st' own other eq(4) by (simp add: ready_to_save_def)
  have "SsId (sssHeap st q) = uid" using h by (simp add: handle_def)
  then show "docOf st' q = \<lparr>DocId = uid, DocComet = cid, DocSess = map (sessHeap st') (sessRefs st q)\<rparr>"
    by (simp add: docOf_def refs sss)
  obtain p where p: "memStore st uid = Some p" "Sess (sssHeap st p) = Sess (sssHeap st q)"
    "CometId (sssHeap st p) = CometId (sssHeap st q)"
    using h by (auto simp: handle_def)
  have rp: "sessRefs st p = sessRefs st q" by (rule sessRefs_cong [OF p(2)])
  have "SsId (sssHeap st p) = uid" using wfD(2) [OF wf p(1)] .
  with p rp \<open>SsId (sssHeap st q) = uid\<close>
  show "cached st' uid = Some (docOf st' q) \<or>
     cached st' uid = Some ((docOf st' q)\<lparr>DocComet := DocComet (docOf st q)\<rparr>)"
    by (cases "p = q") (simp_all add: cached_def eq docOf_def refs sss)
qed

lemma fold_onlineReport:
  "fold (onlineReport t tok) rs st = st\<lparr>sessHeap := (\<lambda>a.
     if a \<in> set rs \<and> Plat (sessHeap st a) = t \<and> AuthCode (sessHeap st a) = tok
     then (sessHeap st a)\<lparr>Online := True\<rparr> else sessHeap st a)\<rparr>"
proof (induction rs arbitrary: st)
  case (Cons r rs)
  have one: "onlineReport t tok r st = st\<lparr>sessHeap := (\<lambda>a.
      if a = r \<and> Plat (sessHeap st a) = t \<and> AuthCode (sessHeap st a) = tok
      then (sessHeap st a)\<lparr>Online := True\<rparr> else sessHeap st a)\<rparr>"
    by (rule Storager.equality) (auto simp: onlineReport_def modSess_def fun_eq_iff)
  show ?case by (rule Storager.equality) (auto simp: Cons.IH one fun_eq_iff)
qed simp

lemma onlineReport_done:
  fixes E :: "('r, 'w) renv" and R :: "('r, 'w) Router" and t :: int and uid tok cid :: string
  assumes redis: "redis_ok (storeEnv E)" and ok: "users_ok (storeEnv E) (store R)"
    and look: "lookupDoc (storeEnv E) (store R) uid = Some d" and cid: "ascii cid"
  defines "R' \<equiv> RpcAsyncHandle E (StateNotify uid t tok cid 1) R"
  shows "st_wf (store R')" "lookupDoc (storeEnv E) (store R') = (lookupDoc (storeEnv E) (store R))(uid \<mapsto> docOnline t tok cid d)"
    "persisted (storeEnv E) (cli (store R')) uid (docOnline t tok cid d)" "comets R' = cometAdd cid (comets R)"
    "cached (store R') uid = Some (docOnline t tok cid d)"
proof -
  let ?e = "storeEnv E"
  have wf: "st_wf (store R)" using ok by (simp add: users_ok_def)
  note loads = users_ok_loads [OF ok, of uid]
  from FindSessions_cases [OF wf loads] look
  obtain q st' where F: "FindSessions ?e uid (store R) = (Some q, st')" "st_wf st'" "handle st' uid q" "docOf st' q = d"
    by (metis option.inject option.distinct(1))
  let ?st = "fold (onlineReport t tok) (sessRefs st' q) (modSessions q (\<lambda>v. v\<lparr>CometId := cid\<rparr>) st')"
  have refs: "sessRefs (modSessions q (\<lambda>v. v\<lparr>CometId := cid\<rparr>) st') q = sessRefs st' q"
    by (simp add: sessRefs_def elems_def modSessions_def)
  note L = report_local [OF F(2,3), of ?st cid]
  have pre: "memStore ?st = memStore st'" "fresh ?st = fresh st'" "arrHeap ?st = arrHeap st'" "cli ?st = cli st'"
    "sssHeap ?st = (sssHeap st')(q := (sssHeap st' q)\<lparr>CometId := cid\<rparr>)"
    "\<And>a. a \<notin> set (sessRefs st' q) \<Longrightarrow> sessHeap ?st a = sessHeap st' a"
    by (simp_all add: fold_onlineReport modSessions_def)
  have ds: "DocId d = uid" "asciiDoc d" using look ok by (auto simp: users_ok_def)
  have doc: "docOf ?st q = docOnline t tok cid d"
    using L(2) [OF pre] F(4) ds(1)
    by (auto simp: docOnline_def docOf_def fold_onlineReport modSessions_def)
  have asc: "asciiDoc (docOnline t tok cid d)" using ds(2) cid by (auto simp: asciiDoc_def docOnline_def)
  have R': "R' = saveIn E q (R\<lparr>comets := cometAdd cid (comets R), store := ?st\<rparr>)"
    using F(1) refs by (simp add: R'_def Let_def modStore_def)
  note FL = FindSessions_lookup [OF redis wf loads F(1)]
  note S = save_lookup [OF redis L(1) [OF pre, unfolded doc] asc FL(1) FindSessions_reads [OF redis F(1)]]
  show "st_wf (store R')" "lookupDoc ?e (store R') = (lookupDoc ?e (store R))(uid \<mapsto> docOnline t tok cid d)"
    "persisted ?e (cli (store R')) uid (docOnline t tok cid d)" "comets R' = cometAdd cid (comets R)"
    using S(1-3) by (simp_all add: R')
  have "owner ?st uid q" "st_wf ?st" using L(1) [OF pre] by (simp_all add: ready_to_save_def)
  from SaveSessions_ok(2) [OF redis this(2,1)] asc doc
  show "cached (store R') uid = Some (docOnline t tok cid d)" by (simp add: R')
qed

lemma users_ok_docOnline:
  assumes "users_ok e st" "lookupDoc e st uid = Some d" "ascii cid" "st_wf st'"
    "lookupDoc e st' = (lookupDoc e st)(uid \<mapsto> docOnline t tok cid d)"
  shows "users_ok e st'"
proof -
  have d: "DocId d = uid" "plats_ok d" "asciiDoc d" "\<forall>s \<in> set (DocSess d). SessId s = uid"
    using assms(1,2) by (auto simp: users_ok_def)
  have "map Plat (DocSess (docOnline t tok cid d)) = map Plat (DocSess d)"
    by (simp add: docOnline_def)
  moreover from this have "Plat ` set (DocSess (docOnline t tok cid d)) = Plat ` set (DocSess d)"
    by (metis list.set_map)
  ultimately have "plats_ok (docOnline t tok cid d)" using d(2) by (simp add: plats_ok_set)
  moreover have "DocId (docOnline t tok cid d) = uid" "asciiDoc (docOnline t tok cid d)"
    "\<forall>s \<in> set (DocSess (docOnline t tok cid d)). SessId s = uid"
    using d assms(3) by (auto simp: docOnline_def asciiDoc_def)
  ultimately show ?thesis using assms by (auto simp: users_ok_def)
qed

text \<open>The offline loop stops at the first match, one decrement later.\<close>

definition cometLess :: "string \<Rightarrow> nat \<Rightarrow> (string \<rightharpoonup> comet) \<Rightarrow> (string \<rightharpoonup> comet)" where
  "cometLess cid n p = (case p cid of None \<Rightarrow> p | Some c \<Rightarrow> p(cid \<mapsto> c\<lparr>online := online c - int n\<rparr>))"

lemma cometLess_simps: "cometLess cid 0 p = p" "cometLess cid n (cometSub cid p) = cometLess cid (Suc n) p"
  by (auto simp: cometLess_def cometSub_def fun_eq_iff split: option.split)

lemma offlineReportLoop_match:
  assumes "k < length is"
    "\<And>i. i < k \<Longrightarrow> \<not> (Plat (sessHeap (store R) (arrHeap (store R) (arr s0) ! (is ! i))) = t \<and>
        AuthCode (sessHeap (store R) (arrHeap (store R) (arr s0) ! (is ! i))) = tok)"
    "Plat (sessHeap (store R) (arrHeap (store R) (arr s0) ! (is ! k))) = t"
    "AuthCode (sessHeap (store R) (arrHeap (store R) (arr s0) ! (is ! k))) = tok"
  shows "offlineReportLoop cid t tok s0 is R = (True, modStore
    (modSess (arrHeap (store R) (arr s0) ! (is ! k)) (\<lambda>it. it\<lparr>Online := False\<rparr>))
    (R\<lparr>comets := cometLess cid (Suc k) (comets R)\<rparr>))"
  using assms
proof (induction "is" arbitrary: k R)
  case (Cons i "is")
  show ?case
  proof (cases k)
    case 0
    then show ?thesis using Cons.prems
      by (simp add: Let_def cometLess_simps(2) [of _ 0, symmetric] cometLess_simps(1))
  next
    case (Suc j)
    have "\<not> (Plat (sessHeap (store R) (arrHeap (store R) (arr s0) ! i)) = t \<and>
        AuthCode (sessHeap (store R) (arrHeap (store R) (arr s0) ! i)) = tok)"
      using Cons.prems(2) [of 0] Suc by simp
    moreover have "\<And>i. i < j \<Longrightarrow> \<not> (Plat (sessHeap (store R) (arrHeap (store R) (arr s0) ! (is ! i))) = t \<and>
        AuthCode (sessHeap (store R) (arrHeap (store R) (arr s0) ! (is ! i))) = tok)"
      using Cons.prems(2) Suc by (metis Suc_less_eq nth_Cons_Suc)
    ultimately show ?thesis
      using Cons.IH [of j "R\<lparr>comets := cometSub cid (comets R)\<rparr>"] Cons.prems Suc
      by (auto simp: Let_def cometLess_simps(2))
  qed
qed simp

lemma map_fun_upd_nth: "distinct xs \<Longrightarrow> k < length xs \<Longrightarrow> map (f(xs ! k := v)) xs = (map f xs)[k := v]"
  by (auto simp: list_eq_iff_nth_eq nth_list_update nth_eq_iff_index_eq)

lemma offlineReport_done:
  fixes E :: "('r, 'w) renv" and R :: "('r, 'w) Router" and t :: int and uid tok cid :: string
  assumes wf: "st_wf (store R)" and look: "cached (store R) uid = Some d" "DocComet d = cid"
    and k: "k < length (DocSess d)" "Plat (DocSess d ! k) = t" "AuthCode (DocSess d ! k) = tok"
      "\<And>i. i < k \<Longrightarrow> \<not> (Plat (DocSess d ! i) = t \<and> AuthCode (DocSess d ! i) = tok)"
  defines "R' \<equiv> RpcAsyncHandle E (StateNotify uid t tok cid 0) R"
  shows "cached (store R') uid = Some (docOffline k d)" "cli (store R') = cli (store R)"
    "comets R' = cometLess cid (Suc k) (comets R)"
proof -
  obtain q st' where F: "FindSessions (storeEnv E) uid (store R) = (Some q, st')" "st_wf st'" "handle st' uid q"
    "docOf st' q = d" "cli st' = cli (store R)"
    using FindSessions_cached [OF wf look(1)] by metis
  let ?s = "Sess (sssHeap st' q)"
  let ?st1 = "modSessions q (\<lambda>v. v\<lparr>CometId := cid\<rparr>) st'"
  let ?a = "arrHeap st' (arr ?s) ! k"
  let ?st = "modSess ?a (\<lambda>it. it\<lparr>Online := False\<rparr>) ?st1"
  note D = doc_slice [OF F(3), unfolded F(4)]
  have refs: "distinct (sessRefs st' q)" "length (sessRefs st' q) = slen ?s" "sessRefs st' q ! k = ?a"
    using F(3) k(1) D(1) by (simp_all add: handle_def wfp_def sessRefs_def elems_def)
  have L: "offlineReportLoop cid t tok ?s [0..<slen ?s] (R\<lparr>store := ?st1\<rparr>) =
      (True, modStore (modSess ?a (\<lambda>it. it\<lparr>Online := False\<rparr>)) (R\<lparr>store := ?st1, comets := cometLess cid (Suc k) (comets R)\<rparr>))"
    using offlineReportLoop_match [of k "[0..<slen ?s]" "R\<lparr>store := ?st1\<rparr>" ?s t tok cid] k D(1,2)
    by (fastforce simp: modSessions_def)
  have R': "R' = modStore (modSess ?a (\<lambda>it. it\<lparr>Online := False\<rparr>)) (R\<lparr>store := ?st1, comets := cometLess cid (Suc k) (comets R)\<rparr>)"
    using F(1) L by (simp add: R'_def Let_def modStore_def modSessions_def)
  have "?a \<in> set (sessRefs st' q)" using refs k(1) D(1) by (metis nth_mem)
  then have pre: "memStore ?st = memStore st'" "fresh ?st = fresh st'" "arrHeap ?st = arrHeap st'" "cli ?st = cli st'"
    "sssHeap ?st = (sssHeap st')(q := (sssHeap st' q)\<lparr>CometId := cid\<rparr>)"
    "\<And>a. a \<notin> set (sessRefs st' q) \<Longrightarrow> sessHeap ?st a = sessHeap st' a"
    by (auto simp: modSessions_def)
  note X = report_local [OF F(2,3), of ?st cid, OF pre]
  have "map (sessHeap st') (sessRefs st' q) = DocSess d" using F(4) by (auto simp: docOf_def)
  then have "map (sessHeap ?st) (sessRefs st' q) = (DocSess d)[k := (DocSess d ! k)\<lparr>Online := False\<rparr>]"
    using map_fun_upd_nth [OF refs(1), of k "sessHeap st'"] refs(2,3) k(1) D(1,2) by (simp add: modSessions_def)
  moreover have ids: "DocId d = uid" "DocComet d = cid" using F(3,4) look(2) by (auto simp: docOf_def handle_def)
  ultimately have doc: "docOf ?st q = docOffline k d" using X(2) by (simp add: docOffline_def)
  then have "cached ?st uid = Some (docOffline k d)"
    using X(3) ids F(4) by (auto simp: docOffline_def)
  then show "cached (store R') uid = Some (docOffline k d)" "cli (store R') = cli (store R)"
    "comets R' = cometLess cid (Suc k) (comets R)"
    using F(5) pre(4) by (simp_all add: R')
qed

text \<open>C22: the report that a terminal of a user went online is stored and counted once for the comet, but
  the report that the same terminal went offline takes one from the comet's counter for every
  terminal up to it, and is forgotten at a restart: after the two reports the terminal at place
  k of the document has cost the counter k, the process knows it to be offline, and a new
  process finds it online again.\<close>

theorem offline_report_unbalanced:
  assumes "redis_ok (storeEnv E)" "users_ok (storeEnv E) (store R)" "ascii cid"
    and "lookupDoc (storeEnv E) (store R) uid = Some d" "comets R cid = Some c"
    and "k < length (DocSess d)" "t = Plat (DocSess d ! k)" "tok = AuthCode (DocSess d ! k)"
    and "R1 = RpcAsyncHandle E (StateNotify uid t tok cid 1) R"
    and "R2 = RpcAsyncHandle E (StateNotify uid t tok cid 0) R1"
  shows "comets R1 cid = Some (c\<lparr>online := online c + 1\<rparr>) \<and>
    comets R2 cid = Some (c\<lparr>online := online c - int k\<rparr>) \<and>
    lookupDoc (storeEnv E) (store R2) uid = Some (docOffline k (docOnline t tok cid d)) \<and>
    lookupDoc (storeEnv E) (NewStorager (cli (store R2))) uid = Some (docOnline t tok cid d)"
proof -
  note O = onlineReport_done [OF assms(1,2,4,3), of t tok, folded assms(9)]
  let ?d = "docOnline t tok cid d"
  have "distinct (map Plat (DocSess d))" using assms(2,4) by (auto simp: users_ok_def plats_ok_set)
  then have first: "Plat (DocSess d ! i) \<noteq> t" if "i < k" for i
    using that assms(6,7) nth_eq_iff_index_eq [of "map Plat (DocSess d)" i k] by auto
  have nth: "Plat (DocSess ?d ! i) = Plat (DocSess d ! i) \<and> AuthCode (DocSess ?d ! i) = AuthCode (DocSess d ! i)"
    if "i < length (DocSess d)" for i
    using that by (simp add: docOnline_def)
  have len: "length (DocSess ?d) = length (DocSess d)" "DocComet ?d = cid" by (simp_all add: docOnline_def)
  have F: "cached (store R2) uid = Some (docOffline k ?d) \<and> cli (store R2) = cli (store R1) \<and>
      comets R2 = cometLess cid (Suc k) (comets R1)"
    unfolding assms(10)
    using offlineReport_done [OF O(1,5) len(2), of k t tok E] first nth len(1) assms(6-8) by auto
  show ?thesis
    using F O(3,4) assms(5)
    by (simp add: cometAdd_def cometLess_def lookupDoc_cached lookupDoc_restart)
qed

theorem offline_report_unbalanced_witness:
  "map_option online (comets (RpcAsyncHandle exEnv (StateNotify ''u'' 8 ''web'' ''c1'' 0)
     (RpcAsyncHandle exEnv (StateNotify ''u'' 8 ''web'' ''c1'' 1) exRouter)) ''c1'') = Some 1"
proof -
  have "online (exComet a h n) = n" for a h n by (simp add: exComet_def)
  then show ?thesis
    using offline_report_unbalanced [of exEnv exRouter "''c1''" "''u''" exDoc "exComet ''c1'' 7 2" 1 8 "''web''", OF _ _ _ _ _ _ _ _ refl refl]
      mapEnv_ok exSt_users_ok
    by (simp add: lookupDoc_exSt ascii_def)
qed

end
