(* ===== verification/OfflineQueue.thy ===== *)
theory OfflineQueue
  imports Prelude
begin

text \<open>
  The contract of an offline queue, which three stores of the program provide (the callback and
  the message queue of \<^verbatim>\<open>rds\<close>, and those of \<^verbatim>\<open>redisstore\<close> and \<^verbatim>\<open>mgostore\<close>) and the delivery
  after a registration relies on: saving admits one message to the queue by a fixed rule,
  taking hands out all of it and leaves it empty.
\<close>

locale offline_queue =
  fixes ready :: "'s \<Rightarrow> bool"
    and content :: "'s \<Rightarrow> 'i list"
    and admit :: "'i list \<Rightarrow> 'm \<Rightarrow> 'i list"
    and save :: "'m \<Rightarrow> 's \<Rightarrow> 's"
    and take_all :: "'s \<Rightarrow> 'i list \<times> 's"
  assumes ready_save: "ready s \<Longrightarrow> ready (save m s)"
    and content_save: "ready s \<Longrightarrow> content (save m s) = admit (content s) m"
    and ready_take: "ready s \<Longrightarrow> ready (snd (take_all s))"
    and take_content: "ready s \<Longrightarrow> fst (take_all s) = content s"
    and content_take: "ready s \<Longrightarrow> content (snd (take_all s)) = []"
begin

lemma saves:
  "ready s \<Longrightarrow> ready (fold save ms s) \<and> content (fold save ms s) = foldl admit (content s) ms"
  by (induction ms arbitrary: s) (simp_all add: ready_save content_save)

text \<open>What was admitted comes out once, in order, and a second take finds nothing.\<close>

lemma drain:
  assumes "ready s"
  shows "fst (take_all (fold save ms s)) = foldl admit (content s) ms"
    "fst (take_all (snd (take_all (fold save ms s)))) = []"
  using saves [OF assms, of ms] by (simp_all add: take_content ready_take content_take)

lemma invariant:
  assumes "ready s" "P (content s)" "\<And>q m. P q \<Longrightarrow> P (admit q m)"
  shows "P (content (fold save ms s))"
proof -
  have "P (foldl admit q ms)" if "P q" for q
    using that by (induction ms arbitrary: q) (simp_all add: assms(3))
  then show ?thesis using saves [OF assms(1), of ms] assms(2) by simp
qed

end

text \<open>Admission of everything at the end, and of what is not there yet: the queues' contents.\<close>

lemma foldl_snoc: "foldl (\<lambda>q m. q @ [f m]) q ms = q @ map f ms"
  by (induction ms arbitrary: q) auto

lemma foldl_distinct:
  assumes "\<And>m. g (f m) = m"
  shows "map g (foldl (\<lambda>q m. if m \<in> g ` set q then q else q @ [f m]) [] ms) = rev (remdups (rev ms))"
proof (induction ms rule: rev_induct)
  case (snoc m ms)
  let ?q = "foldl (\<lambda>q m. if m \<in> g ` set q then q else q @ [f m]) [] ms"
  have "g ` set ?q = set ms" using snoc by (metis list.set_map set_remdups set_rev)
  then show ?case using snoc assms by (auto simp flip: rev_swap)
qed simp

end
