(* ===== verification/RdsProps.thy ===== *)
theory RdsProps
  imports RdsExample OfflineQueue
begin

text \<open>
  The queues of the session store as instances of the offline-queue contract, and the
  properties of the store.
\<close>

section \<open>One terminal's queues\<close>

lemma docPlat_updDoc:
  assumes "\<And>s. Plat (f s) = Plat s"
  shows "docPlat plat (updDoc plat' f d) = (if plat = plat' then map_option f (docPlat plat d) else docPlat plat d)"
proof -
  have "find (\<lambda>s. Plat s = plat) (updFirst plat' f ss) =
      (if plat = plat' then map_option f (find (\<lambda>s. Plat s = plat) ss) else find (\<lambda>s. Plat s = plat) ss)" for ss
    by (induction ss) (auto simp: assms)
  then show ?thesis by (simp add: docPlat_def updDoc_def)
qed

lemma modOff_simps [simp]: "Plat (modOff f s) = Plat s" "OffMsg (modOff f s) = f (OffMsg s)" "Online (modOff f s) = Online s"
  by (simp_all add: modOff_def)

lemma docPlat_modOff [simp]:
  "docPlat plat (updDoc plat' (modOff f) d) =
     (if plat = plat' then map_option (modOff f) (docPlat plat d) else docPlat plat d)"
  by (rule docPlat_updDoc) simp

lemma docWeb_modOff [simp]: "docWeb (updDoc plat (modOff f) d) = docWeb d"
  by (cases "docPlat 8 d") (auto simp: docWeb_def)

definition hasTerminal :: "string \<Rightarrow> int \<Rightarrow> 'r Storager \<Rightarrow> bool" where
  "hasTerminal uid plat st \<longleftrightarrow> st_wf st \<and>
     (case cached st uid of None \<Rightarrow> False | Some d \<Rightarrow> docPlat plat d \<noteq> None)"

definition waiting :: "(Body \<Rightarrow> Item list) \<Rightarrow> string \<Rightarrow> int \<Rightarrow> 'r Storager \<Rightarrow> Item list" where
  "waiting sel uid plat st = (case cached st uid of None \<Rightarrow> [] | Some d \<Rightarrow> queued sel plat d)"

definition admitCb :: "Item list \<Rightarrow> bytes \<Rightarrow> Item list" where
  "admitCb q m = (if m \<in> Msg ` set q then q else q @ [\<lparr>WebOnline = False, Msg = m\<rparr>])"

definition admitIm :: "bytes list \<Rightarrow> bytes \<Rightarrow> bytes list" where
  "admitIm q m = (if length q > 50 then drop 1 (take 50 q) else q) @ [m]"

definition takeIm :: "'r env \<Rightarrow> string \<Rightarrow> int \<Rightarrow> 'r Storager \<Rightarrow> bytes list \<times> 'r Storager" where
  "takeIm e uid plat st = map_prod (map Msg) id (GetImMsg e uid plat st)"

lemma hasTerminalE:
  assumes "hasTerminal uid plat st"
  obtains d s where "st_wf st" "cached st uid = Some d" "docPlat plat d = Some s"
  using assms by (auto simp: hasTerminal_def split: option.splits)

lemma hasTerminal_op:
  assumes "hasTerminal uid plat st"
  shows "hasTerminal uid plat (runOp e uid op st)"
proof -
  from assms obtain d s where d: "st_wf st" "cached st uid = Some d" "docPlat plat d = Some s"
    by (rule hasTerminalE)
  have "docPlat plat (specOp op d) \<noteq> None"
    using d(3) by (cases op) (auto simp: specSavePush_def specSaveCallback_def specSaveIm_def
      specGetPush_def specGetCallback_def specGetIm_def split: option.split)
  with runOp_cached [OF d(1,2)] show ?thesis by (simp add: hasTerminal_def)
qed

interpretation cbQueue: offline_queue "hasTerminal uid plat" "waiting CB uid plat" admitCb
  "SaveCallbackMsg e uid plat" "GetCallbackMsg e uid plat"
  for uid plat and e :: "'r env"
proof unfold_locales
  fix st :: "'r Storager" and m
  assume ready: "hasTerminal uid plat st"
  then obtain d s where d: "st_wf st" "cached st uid = Some d" "docPlat plat d = Some s"
    by (rule hasTerminalE)
  note run = runOp_cached [OF d(1,2), of e]
  have l: "loads e st uid" using d(2) by (auto simp: loads_def cached_def)
  show "hasTerminal uid plat (SaveCallbackMsg e uid plat m st)"
    using hasTerminal_op [OF ready, of e "OpSaveCallback plat m"] by simp
  show "hasTerminal uid plat (snd (GetCallbackMsg e uid plat st))"
    using hasTerminal_op [OF ready, of e "OpGetCallback plat"] by simp
  show "waiting CB uid plat (SaveCallbackMsg e uid plat m st) = admitCb (waiting CB uid plat st) m"
    using run(2) [of "OpSaveCallback plat m"] d
    by (auto simp: waiting_def queued_def admitCb_def specSaveCallback_def saveCbBody_def)
  show "fst (GetCallbackMsg e uid plat st) = waiting CB uid plat st"
    using GetCallbackMsg_refines(2) [OF d(1) l] d lookupDoc_cached [OF d(2)] by (simp add: waiting_def)
  show "waiting CB uid plat (snd (GetCallbackMsg e uid plat st)) = []"
    using run(2) [of "OpGetCallback plat"] d by (simp add: waiting_def queued_def specGetCallback_def)
qed

interpretation imQueue: offline_queue "hasTerminal uid plat" "\<lambda>st. map Msg (waiting Im uid plat st)" admitIm
  "SaveImMsg e uid plat" "takeIm e uid plat"
  for uid plat and e :: "'r env"
proof unfold_locales
  fix st :: "'r Storager" and m
  assume ready: "hasTerminal uid plat st"
  then obtain d s where d: "st_wf st" "cached st uid = Some d" "docPlat plat d = Some s"
    by (rule hasTerminalE)
  note run = runOp_cached [OF d(1,2), of e]
  have l: "loads e st uid" using d(2) by (auto simp: loads_def cached_def)
  show "hasTerminal uid plat (SaveImMsg e uid plat m st)"
    using hasTerminal_op [OF ready, of e "OpSaveIm plat m"] by simp
  show "hasTerminal uid plat (snd (takeIm e uid plat st))"
    using hasTerminal_op [OF ready, of e "OpGetIm plat"] by (simp add: takeIm_def)
  show "map Msg (waiting Im uid plat (SaveImMsg e uid plat m st)) = admitIm (map Msg (waiting Im uid plat st)) m"
    using run(2) [of "OpSaveIm plat m"] d
    by (simp add: waiting_def queued_def admitIm_def specSaveIm_def saveImBody_def Let_def drop_map take_map)
  show "fst (takeIm e uid plat st) = map Msg (waiting Im uid plat st)"
    using GetImMsg_refines(2) [OF d(1) l] d lookupDoc_cached [OF d(2)]
    by (simp add: waiting_def takeIm_def)
  show "map Msg (waiting Im uid plat (snd (takeIm e uid plat st))) = []"
    using run(2) [of "OpGetIm plat"] d by (simp add: waiting_def queued_def specGetIm_def takeIm_def)
qed

lemma hasTerminal_exSt: "hasTerminal ''u'' 1 exSt" "waiting CB ''u'' 1 exSt = []" "waiting Im ''u'' 1 exSt = []"
  by (simp_all add: hasTerminal_def waiting_def exSt docPlat_def queued_def zeroBody_def)

lemma admitIm_fill: "length ms \<le> 51 \<Longrightarrow> foldl admitIm [] ms = ms"
  by (induction ms rule: rev_induct) (simp_all add: admitIm_def)

section \<open>A comet goes offline\<close>

definition offlineDoc :: "SessionsDoc \<Rightarrow> SessionsDoc" where
  "offlineDoc d = d\<lparr>DocSess := map (\<lambda>s. s\<lparr>Online := False\<rparr>) (DocSess d)\<rparr>"

lemma fold_modSess:
  fixes st :: "'r Storager" and f :: "Session \<Rightarrow> Session"
  assumes "distinct as"
  defines "st' \<equiv> fold (\<lambda>a. modSess a f) as st"
  shows "memStore st' = memStore st \<and> arrHeap st' = arrHeap st \<and> sssHeap st' = sssHeap st \<and>
    fresh st' = fresh st \<and> cli st' = cli st \<and>
    sessHeap st' = (\<lambda>a. if a \<in> set as then f (sessHeap st a) else sessHeap st a)"
  using assms(1) unfolding st'_def
proof (induction as arbitrary: st)
  case (Cons a as)
  then show ?case using Cons.IH [of "modSess a f st"] by (auto simp: fun_eq_iff)
qed simp

text \<open>The terminals of one cached document are marked offline.\<close>

definition markOffline :: "ref \<Rightarrow> 'r Storager \<Rightarrow> 'r Storager" where
  "markOffline p st = fold (\<lambda>a. modSess a (\<lambda>s. s\<lparr>Online := False\<rparr>)) (sessRefs st p) st"

lemma markOffline_spec:
  assumes "st_wf st" "memStore st uid = Some p"
  shows "st_wf (markOffline p st)" "memStore (markOffline p st) = memStore st"
    "docOf (markOffline p st) p = offlineDoc (docOf st p)"
    "memStore st uid' = Some p' \<Longrightarrow> uid' \<noteq> uid \<Longrightarrow> docOf (markOffline p st) p' = docOf st p'"
proof -
  let ?f = "\<lambda>s :: Session. s\<lparr>Online := False\<rparr>" and ?st = "markOffline p st"
  have "distinct (sessRefs st p)" using wfD [OF assms] by (simp add: wfp_def)
  from fold_modSess [OF this, of ?f st] have f: "memStore ?st = memStore st" "arrHeap ?st = arrHeap st"
    "sssHeap ?st = sssHeap st" "fresh ?st = fresh st"
    "sessHeap ?st = (\<lambda>a. if a \<in> set (sessRefs st p) then ?f (sessHeap st a) else sessHeap st a)"
    by (simp_all add: markOffline_def)
  then have refs: "sessRefs ?st = sessRefs st" "wfp ?st = wfp st" "separate ?st = separate st"
    by (simp_all add: fun_eq_iff sessRefs_def elems_def wfp_def separate_def)
  show "st_wf ?st" using assms(1) by (simp add: st_wf_def f refs)
  show "memStore ?st = memStore st" by (rule f(1))
  show "docOf ?st p = offlineDoc (docOf st p)" by (simp add: docOf_def refs f offlineDoc_def)
  show "docOf ?st p' = docOf st p'" if "memStore st uid' = Some p'" "uid' \<noteq> uid"
  proof -
    have "separate st p p'" using wf_separate [OF assms that(1)] that(2) by simp
    then show ?thesis by (auto simp: docOf_def refs f separate_def)
  qed
qed

lemma offlineEntry_spec:
  assumes "st_wf st"
  shows "st_wf (offlineEntry e comet uid st)" "memStore (offlineEntry e comet uid st) = memStore st"
    "cached (offlineEntry e comet uid st) = (cached st)(uid := map_option
       (\<lambda>d. if DocComet d = comet then offlineDoc d else d) (cached st uid))"
proof -
  let ?st' = "offlineEntry e comet uid st"
  have "st_wf ?st' \<and> memStore ?st' = memStore st \<and> cached ?st' = (cached st)(uid := map_option
       (\<lambda>d. if DocComet d = comet then offlineDoc d else d) (cached st uid))"
  proof (cases "\<exists>p. memStore st uid = Some p \<and> CometId (sssHeap st p) = comet")
    case False
    then have "?st' = st" by (auto simp: offlineEntry_def split: option.split)
    with False assms show ?thesis by (cases "memStore st uid") (auto simp: cached_def fun_eq_iff docOf_def)
  next
    case True
    then obtain p where p: "memStore st uid = Some p" "CometId (sssHeap st p) = comet" by blast
    note M = markOffline_spec [OF assms p(1)]
    obtain c where c: "?st' = (markOffline p st)\<lparr>cli := c\<rparr>"
      using p by (cases "jenc e (docOf (markOffline p st) p)") (auto simp: offlineEntry_def markOffline_def Let_def)
    have "DocComet (docOf st p) = comet" using p(2) by (simp add: docOf_def)
    with M p(1) c show ?thesis by (auto simp: fun_eq_iff cached_def map_option_case split: option.split)
  qed
  then show "st_wf ?st'" "memStore ?st' = memStore st" "cached ?st' = (cached st)(uid := map_option
       (\<lambda>d. if DocComet d = comet then offlineDoc d else d) (cached st uid))" by blast+
qed

section \<open>Properties\<close>

text \<open>C8: one operation on any user whose stored document is his own: the heap of shared sessions stays
  well-formed, the user's document becomes what the operation's specification makes of the
  document a lookup finds (in the cache or in redis), and no other user's document changes,
  whether or not redis answers the save.\<close>

theorem store_operation_refines:
  assumes "st_wf st" "loads e st uid"
  shows "st_wf (runOp e uid op st) \<and>
    cached (runOp e uid op st) =
      (case lookupDoc e st uid of None \<Rightarrow> cached st | Some d \<Rightarrow> (cached st)(uid \<mapsto> specOp op d))"
  using runOp_refines [OF assms, of op] by (simp add: refines_def)

theorem store_operation_refines_witness:
  "st_wf (runOp mapEnv ''u'' (OpSavePush 1 [7]) (NewStorager [''u'' \<mapsto> putDoc exDoc])) \<and>
   cached (runOp mapEnv ''u'' (OpSavePush 1 [7]) (NewStorager [''u'' \<mapsto> putDoc exDoc])) =
     (case lookupDoc mapEnv (NewStorager [''u'' \<mapsto> putDoc exDoc]) ''u'' of
        None \<Rightarrow> cached (NewStorager [''u'' \<mapsto> putDoc exDoc])
      | Some d \<Rightarrow> (cached (NewStorager [''u'' \<mapsto> putDoc exDoc]))(''u'' \<mapsto> specOp (OpSavePush 1 [7]) d))"
  by (rule store_operation_refines)
    (rule wf_NewStorager, simp add: loads_def key_ok_def NewStorager_def)

text \<open>C9: a run of the six operations by any users in any order, in a live process whose redis may
  fail at any call: the document of each user is what his own operations, in their order, make
  of it.\<close>

theorem store_runs_refine:
  assumes "st_wf st" "\<forall>x \<in> set ops. cached st (fst x) \<noteq> None" "cached st uid = Some d"
  shows "st_wf (runOps e ops st) \<and> cached (runOps e ops st) uid = Some (fold specOp (opsOf uid ops) d)"
  by (rule runOps_cached [OF assms])

theorem store_runs_refine_witness:
  "st_wf (runOps mapEnv [(''u'', OpSaveIm 1 [1]), (''u'', OpGetPush 8)] exSt) \<and>
   cached (runOps mapEnv [(''u'', OpSaveIm 1 [1]), (''u'', OpGetPush 8)] exSt) ''u'' =
     Some (fold specOp (opsOf ''u'' [(''u'', OpSaveIm 1 [1]), (''u'', OpGetPush 8)]) exDoc)"
  by (rule store_runs_refine) (simp_all add: exSt)

text \<open>C10: with a healthy redis nothing is lost in a restart: after any run of operations, a new
  process on the same redis finds for a user the document that his operations made.\<close>

theorem store_survives_restart:
  assumes "redis_ok e" "st_wf st" "\<forall>x \<in> set ops. cached st (fst x) \<noteq> None" "cached st uid = Some d"
    "persisted e (cli st) uid d" "asciiDoc d"
  shows "lookupDoc e (NewStorager (cli (runOps e ops st))) uid = Some (fold specOp (opsOf uid ops) d)"
  by (rule lookupDoc_restart [OF runOps_persisted [OF assms]])

theorem store_survives_restart_witness:
  "lookupDoc mapEnv (NewStorager (cli (runOps mapEnv [(''u'', OpSaveCallback 1 [1]), (''u'', OpSavePush 8 [2])] exSt))) ''u''
   = Some (fold specOp (opsOf ''u'' [(''u'', OpSaveCallback 1 [1]), (''u'', OpSavePush 8 [2])]) exDoc)"
  by (rule store_survives_restart) (simp_all add: mapEnv_ok exSt exDoc_ascii)

text \<open>C11: the callback queue of a terminal delivers every callback once: callbacks saved to an empty
  queue come out without duplicates, each at the place of its first save, and taking them
  empties the queue.\<close>

theorem callbacks_delivered_once_in_order:
  assumes "hasTerminal uid plat st" "waiting CB uid plat st = []"
  shows "map Msg (fst (GetCallbackMsg e uid plat (fold (SaveCallbackMsg e uid plat) ms st))) = rev (remdups (rev ms)) \<and>
    fst (GetCallbackMsg e uid plat (snd (GetCallbackMsg e uid plat (fold (SaveCallbackMsg e uid plat) ms st)))) = []"
proof -
  have "foldl admitCb [] ms = foldl (\<lambda>q m. if m \<in> Msg ` set q then q else q @ [\<lparr>WebOnline = False, Msg = m\<rparr>]) [] ms"
    by (simp add: admitCb_def [abs_def])
  then have "map Msg (foldl admitCb [] ms) = rev (remdups (rev ms))"
    using foldl_distinct [of Msg "\<lambda>m. \<lparr>WebOnline = False, Msg = m\<rparr>" ms] by simp
  then show ?thesis using cbQueue.drain [OF assms(1), of e ms] assms(2) by simp
qed

theorem callbacks_delivered_once_in_order_witness:
  "map Msg (fst (GetCallbackMsg mapEnv ''u'' 1 (fold (SaveCallbackMsg mapEnv ''u'' 1) [[1], [2], [1]] exSt)))
     = rev (remdups (rev [[1], [2], [1]])) \<and>
   fst (GetCallbackMsg mapEnv ''u'' 1 (snd (GetCallbackMsg mapEnv ''u'' 1
     (fold (SaveCallbackMsg mapEnv ''u'' 1) [[1], [2], [1]] exSt)))) = []"
  by (rule callbacks_delivered_once_in_order) (simp_all add: hasTerminal_exSt)

text \<open>Up to 51 instant messages saved to an empty queue come out complete and in order, and only
  once.\<close>

theorem messages_delivered_in_order:
  assumes "hasTerminal uid plat st" "waiting Im uid plat st = []" "length ms \<le> 51"
  shows "map Msg (fst (GetImMsg e uid plat (fold (SaveImMsg e uid plat) ms st))) = ms \<and>
    fst (GetImMsg e uid plat (snd (GetImMsg e uid plat (fold (SaveImMsg e uid plat) ms st)))) = []"
proof -
  have "foldl admitIm [] ms = ms" by (rule admitIm_fill [OF assms(3)])
  moreover have "fst (takeIm e uid plat st') = map Msg (fst (GetImMsg e uid plat st'))"
    "snd (takeIm e uid plat st') = snd (GetImMsg e uid plat st')" for st'
    by (simp_all add: takeIm_def)
  ultimately show ?thesis using imQueue.drain [OF assms(1), of e ms] assms(2) by simp
qed

theorem messages_delivered_in_order_witness:
  "map Msg (fst (GetImMsg mapEnv ''u'' 1 (fold (SaveImMsg mapEnv ''u'' 1) [[1], [2], [1]] exSt))) = [[1], [2], [1]] \<and>
   fst (GetImMsg mapEnv ''u'' 1 (snd (GetImMsg mapEnv ''u'' 1
     (fold (SaveImMsg mapEnv ''u'' 1) [[1], [2], [1]] exSt)))) = []"
  by (rule messages_delivered_in_order) (simp_all add: hasTerminal_exSt)

text \<open>C12: the queue of instant messages never holds more than 51, however many are saved, but the step
  that keeps it short drops two messages: a save to a full queue loses the oldest message and
  also the newest one that was waiting.\<close>

theorem message_queue_bounded:
  assumes "hasTerminal uid plat st" "length (waiting Im uid plat st) \<le> 51"
  shows "length (waiting Im uid plat (fold (SaveImMsg e uid plat) ms st)) \<le> 51 \<and>
    (length (waiting Im uid plat st) = 51 \<longrightarrow>
      map Msg (waiting Im uid plat (SaveImMsg e uid plat m st)) =
        map (\<lambda>i. Msg (waiting Im uid plat st ! i)) [1..<50] @ [m])"
proof -
  have "length (map Msg (waiting Im uid plat (fold (SaveImMsg e uid plat) ms st))) \<le> 51"
    by (rule imQueue.invariant [OF assms(1)]) (use assms(2) in \<open>auto simp: admitIm_def\<close>)
  moreover have "drop 1 (take 50 q) = map (\<lambda>i. q ! i) [1..<50]" if "length q = 51" for q :: "bytes list"
    using that by (intro nth_equalityI) auto
  moreover have "map (\<lambda>i. map Msg (waiting Im uid plat st) ! i) [1..<50]
      = map (\<lambda>i. Msg (waiting Im uid plat st ! i)) [1..<50]" if "length (waiting Im uid plat st) = 51"
    using that by simp
  ultimately show ?thesis
    using imQueue.content_save [OF assms(1), of e m]
    by (auto simp: admitIm_def simp del: One_nat_def)
qed

theorem message_queue_bounded_witness:
  "length (waiting Im ''u'' 1 (SaveImMsg mapEnv ''u'' 1 [9] (fold (SaveImMsg mapEnv ''u'' 1) (replicate 51 [7]) exSt))) = 50"
proof -
  let ?st = "fold (SaveImMsg mapEnv ''u'' 1) (replicate 51 [7]) exSt"
  have "hasTerminal ''u'' 1 ?st" "map Msg (waiting Im ''u'' 1 ?st) = replicate 51 [7]"
    using imQueue.saves [OF hasTerminal_exSt(1), of mapEnv "replicate 51 [7]"]
      admitIm_fill [of "replicate 51 [7]"] hasTerminal_exSt(3) by simp_all
  moreover from this have "length (waiting Im ''u'' 1 ?st) = 51"
    by (metis length_map length_replicate)
  ultimately have "map Msg (waiting Im ''u'' 1 (SaveImMsg mapEnv ''u'' 1 [9] ?st)) =
      map (\<lambda>i. Msg (waiting Im ''u'' 1 ?st ! i)) [1..<50] @ [[9]]"
    using message_queue_bounded [of "''u''" 1 ?st mapEnv "[]" "[9]"] by simp
  then have "length (map Msg (waiting Im ''u'' 1 (SaveImMsg mapEnv ''u'' 1 [9] ?st))) = 50"
    by simp
  then show ?thesis by simp
qed

text \<open>The push kept for a terminal is the last one saved, with a count of the saves that wraps
  around at 65536: after n saves without a delivery the count has grown by n modulo 65536.\<close>

theorem push_counter_wraps:
  assumes "st_wf st" "cached st uid = Some d" "docPlat plat d = Some s" "ms \<noteq> []"
  shows "\<exists>d' s'. cached (fold (SavePushMsg e uid plat) ms st) uid = Some d' \<and> docPlat plat d' = Some s' \<and>
    PushMsg (BodyPush (OffMsg s')) = last ms \<and>
    unat (OffCnt (BodyPush (OffMsg s'))) = (unat (OffCnt (BodyPush (OffMsg s))) + length ms) mod 65536"
  using assms
proof (induction ms arbitrary: st d s)
  case (Cons m ms)
  let ?f = "modOff (savePushBody m)"
  note run = runOp_cached [OF Cons.prems(1,2), of e "OpSavePush plat m"]
  have d': "cached (SavePushMsg e uid plat m st) uid = Some (updDoc plat ?f d)"
    using run(2) by (simp add: specSavePush_def)
  have s': "docPlat plat (updDoc plat ?f d) = Some (?f s)" using Cons.prems(3) by simp
  have wf': "st_wf (SavePushMsg e uid plat m st)" using run(1) by simp
  have cnt: "unat (OffCnt (BodyPush (OffMsg (?f s)))) = (unat (OffCnt (BodyPush (OffMsg s))) + 1) mod 65536"
    by (simp add: savePushBody_def unat_word_ariths)
  show ?case
  proof (cases "ms = []")
    case True
    have "PushMsg (BodyPush (OffMsg (?f s))) = m" by (simp add: savePushBody_def)
    then show ?thesis unfolding True
      by (intro exI [of _ "updDoc plat ?f d"] exI [of _ "?f s"] conjI)
        (use d' s' cnt in \<open>simp_all del: docPlat_modOff\<close>)
  next
    case False
    from Cons.IH [OF wf' d' s' False] obtain d2 s2 where
      "cached (fold (SavePushMsg e uid plat) ms (SavePushMsg e uid plat m st)) uid = Some d2"
      "docPlat plat d2 = Some s2" "PushMsg (BodyPush (OffMsg s2)) = last ms"
      "unat (OffCnt (BodyPush (OffMsg s2))) = (unat (OffCnt (BodyPush (OffMsg (?f s)))) + length ms) mod 65536"
      by blast
    with False cnt show ?thesis by (simp add: mod_simps)
  qed
qed simp

theorem push_counter_wraps_witness:
  "\<exists>d' s'. cached (fold (SavePushMsg mapEnv ''u'' 1) (replicate 65536 [7]) exSt) ''u'' = Some d' \<and>
    docPlat 1 d' = Some s' \<and> PushMsg (BodyPush (OffMsg s')) = last (replicate 65536 [7]) \<and>
    unat (OffCnt (BodyPush (OffMsg s'))) =
      (unat (OffCnt (BodyPush (OffMsg exPhone))) + length (replicate 65536 [7::byte])) mod 65536"
  by (rule push_counter_wraps [where d = exDoc]) (simp_all add: exSt docPlat_def)

lemma offline_push_empty:
  assumes "GetPushMsg e uid plat st = (Some a, st')"
  shows "derefPush st' a = \<lparr>OffCnt = 0, PushMsg = []\<rparr>"
proof -
  obtain s st1 where find: "FindSessions e uid st = (s, st1)" by fastforce
  with assms obtain p where p: "s = Some p" "firstPlat plat st1 p = Some a"
      "st' = snd (SaveSessions e p (modSess a (modOff clearPush) st1))"
    by (auto simp: GetPushMsg_def Let_def split: option.splits)
  have "sessHeap (snd (SaveSessions e p st2)) = sessHeap st2" for st2 :: "'a Storager"
    by (auto simp: SaveSessions_def Let_def split: option.splits prod.splits)
  then show ?thesis using p(3) by (simp add: derefPush_def clearPush_def)
qed

text \<open>C13: the push that \<^verbatim>\<open>GetPushMsg\<close> hands out is always the empty one with count 0: it returns a pointer
  into the cached session and then clears what it points to, so a push that was stored is
  lost at delivery.\<close>

theorem offline_push_is_lost:
  assumes "GetPushMsg e uid plat st = (Some a, st')"
  shows "derefPush st' a = \<lparr>OffCnt = 0, PushMsg = []\<rparr>"
  by (rule offline_push_empty [OF assms])

lemma derefPush_witness_state:
  obtains a st' where "GetPushMsg mapEnv ''u'' 1 (SavePushMsg mapEnv ''u'' 1 [7] exSt) = (Some a, st')"
proof -
  note run = runOp_cached [OF exSt(1), of "''u''" exDoc mapEnv "OpSavePush 1 [7]"]
  have c: "cached (SavePushMsg mapEnv ''u'' 1 [7] exSt) ''u'' = Some (specSavePush 1 [7] exDoc)"
    using run exSt by simp
  have "st_wf (SavePushMsg mapEnv ''u'' 1 [7] exSt)" using run exSt by simp
  from this c obtain q st1 where q: "FindSessions mapEnv ''u'' (SavePushMsg mapEnv ''u'' 1 [7] exSt) = (Some q, st1)"
      "docOf st1 q = specSavePush 1 [7] exDoc"
    by (rule FindSessions_cached)
  have "docPlat 1 (docOf st1 q) \<noteq> None" unfolding q(2) by (simp add: specSavePush_def docPlat_def updDoc_def)
  then obtain a where "firstPlat 1 st1 q = Some a" by (auto simp: docPlat_docOf)
  with q that show thesis by (simp add: GetPushMsg_def)
qed

theorem offline_push_is_lost_witness:
  "\<exists>a st'. GetPushMsg mapEnv ''u'' 1 (SavePushMsg mapEnv ''u'' 1 [7] exSt) = (Some a, st') \<and>
     PushMsg (derefPush st' a) = []"
proof -
  obtain a st' where get: "GetPushMsg mapEnv ''u'' 1 (SavePushMsg mapEnv ''u'' 1 [7] exSt) = (Some a, st')"
    by (rule derefPush_witness_state)
  then show ?thesis using offline_push_is_lost [OF get] by simp
qed

text \<open>C14: comet and router each cache a user's document over the same redis: an operation of one
  process overwrites, from its cache, what the other has stored since, so that after a restart
  only the later writer's document is found.\<close>

theorem two_processes_lose_updates:
  assumes "redis_ok e" "st_wf stA" "cached stA uid = Some d" "asciiDoc d"
  shows "lookupDoc e (NewStorager (cli (runOp e uid (OpSavePush plat msg)
      (stA\<lparr>cli := cli (runOp e uid op stB)\<rparr>)))) uid = Some (specSavePush plat msg d)"
proof -
  let ?st = "stA\<lparr>cli := cli (runOp e uid op stB)\<rparr>"
  have st: "st_wf ?st" "cached ?st uid = Some d" using assms by simp_all
  have "asciiDoc (specOp (OpSavePush plat msg) d)" using assms(4) by (rule asciiDoc_specOp)
  then obtain b where b: "jenc e (specSavePush plat msg d) = Some b" "jdec e b = Some (specSavePush plat msg d)"
    using redis_okD(5) [OF assms(1)] by auto
  have saved: "persisted e (cli (runOp e uid (OpSavePush plat msg) ?st)) uid (specSavePush plat msg d)"
    using SavePushMsg_writes [OF st, of e plat msg] b redis_okD(2) [OF assms(1)]
    by (simp add: persisted_def)
  then show ?thesis by (rule lookupDoc_restart)
qed

theorem two_processes_lose_updates_witness:
  "lookupDoc mapEnv (NewStorager (cli (runOp mapEnv ''u'' (OpSavePush 1 [7])
      (exSt\<lparr>cli := cli (runOp mapEnv ''u'' (OpSaveCallback 1 [9]) exSt)\<rparr>)))) ''u''
    = Some (specSavePush 1 [7] exDoc)"
  by (rule two_processes_lose_updates) (simp_all add: mapEnv_ok exSt exDoc_ascii)

text \<open>When a comet goes offline, every cached user attached to it has all his terminals marked
  offline and keeps everything else, and no other user changes, for any order in which the
  cache is visited.\<close>

theorem offline_comet_marks_its_users:
  assumes "st_wf st" "distinct order" "set order = dom (memStore st)"
  shows "st_wf (OfflineComet e comet order st) \<and>
    cached (OfflineComet e comet order st) uid =
      map_option (\<lambda>d. if DocComet d = comet then offlineDoc d else d) (cached st uid)"
proof -
  have "st_wf (OfflineComet e comet us st) \<and> cached (OfflineComet e comet us st) uid = (if uid \<in> set us
      then map_option (\<lambda>d. if DocComet d = comet then offlineDoc d else d) (cached st uid) else cached st uid)"
    if "distinct us" for us
    using that assms(1)
  proof (induction us arbitrary: st)
    case (Cons u us)
    note entry = offlineEntry_spec [OF Cons.prems(2), of e comet u]
    from Cons.IH [OF _ entry(1)] Cons.prems(1) entry(3) show ?case
      by (auto simp: OfflineComet_def)
  qed (simp add: OfflineComet_def)
  from this [OF assms(2)] assms(3) show ?thesis by (auto simp: cached_def)
qed

theorem offline_comet_marks_its_users_witness:
  "st_wf (OfflineComet mapEnv ''c1'' [''u''] exSt) \<and>
   cached (OfflineComet mapEnv ''c1'' [''u''] exSt) ''u'' =
     map_option (\<lambda>d. if DocComet d = ''c1'' then offlineDoc d else d) (cached exSt ''u'')"
proof (rule offline_comet_marks_its_users)
  have "memStore exSt u \<noteq> None \<longleftrightarrow> u = ''u''" for u
    using exSt(2) cached_None [of exSt u] by (metis fun_upd_apply option.distinct(1))
  then show "set [''u''] = dom (memStore exSt)" by auto
qed (simp_all add: exSt)

end
