(* ===== verification/RouterInv.thy ===== *)
theory RouterInv
  imports RouterReports RdsProps
begin

text \<open>
  The router as a machine that takes one input after the other: a queue message, a report or a
  call of a comet, a request to the load dispatcher, an event of a comet's client, the exit of
  a comet. What every input keeps: the documents of the users stay well-formed, the
  comets stay filed under their own ids, no queue message makes the handler panic; and what only a
  login changes: the codes the users authenticate with.
\<close>

section \<open>What only a login changes\<close>

definition face :: "Session \<Rightarrow> string \<times> int \<times> string \<times> string \<times> bool" where
  "face s = (SessId s, Plat s, AuthCode s, IOSToken s, Login s)"

definition same_face :: "SessionsDoc \<Rightarrow> SessionsDoc \<Rightarrow> bool" where
  "same_face d d' \<longleftrightarrow> DocId d' = DocId d \<and> map face (DocSess d') = map face (DocSess d) \<and>
     (ascii (DocComet d) \<longrightarrow> ascii (DocComet d'))"

lemma same_face_refl [simp]: "same_face d d"
  by (simp add: same_face_def)

lemma same_face_trans: "same_face d d' \<Longrightarrow> same_face d' d'' \<Longrightarrow> same_face d d''"
  by (simp add: same_face_def)

lemma map_face_eq:
  assumes "map face ss' = map face ss"
  shows "map Plat ss' = map Plat ss" "s \<in> set ss' \<Longrightarrow> \<exists>s0 \<in> set ss. face s = face s0"
    "map_option face (find (\<lambda>s. Plat s = p) ss') = map_option face (find (\<lambda>s. Plat s = p) ss)"
proof -
  have "map Plat ss = map (fst \<circ> snd) (map face ss)" for ss by (simp add: face_def comp_def)
  then show "map Plat ss' = map Plat ss" using assms by metis
  show "s \<in> set ss' \<Longrightarrow> \<exists>s0 \<in> set ss. face s = face s0"
    using assms by (metis imageE image_eqI list.set_map)
  have "map_option face (find (\<lambda>s. Plat s = p) ss) = find (\<lambda>f. fst (snd f) = p) (map face ss)" for ss
    by (induction ss) (auto simp: face_def)
  then show "map_option face (find (\<lambda>s. Plat s = p) ss') = map_option face (find (\<lambda>s. Plat s = p) ss)"
    using assms by simp
qed

text \<open>A document of one user, with the platforms a login keeps and text that survives storing.\<close>

definition user_doc :: "string \<Rightarrow> SessionsDoc \<Rightarrow> bool" where
  "user_doc uid d \<longleftrightarrow> DocId d = uid \<and> plats_ok d \<and> asciiDoc d \<and> (\<forall>s \<in> set (DocSess d). SessId s = uid)"

lemma users_ok_iff:
  "users_ok e st \<longleftrightarrow> st_wf st \<and> (\<forall>uid d. lookupDoc e st uid = Some d \<longrightarrow> user_doc uid d)"
  by (simp add: users_ok_def user_doc_def)

lemma user_doc_face:
  assumes "user_doc uid d" "same_face d d'"
  shows "user_doc uid d'"
proof -
  have m: "map face (DocSess d') = map face (DocSess d)" using assms(2) by (simp add: same_face_def)
  note F = map_face_eq [OF m]
  have "Plat ` set (DocSess d') = Plat ` set (DocSess d)" using F(1) by (metis list.set_map)
  then have "plats_ok d'" using assms(1) F(1) by (simp add: user_doc_def plats_ok_set)
  moreover have "SessId s = uid \<and> ascii (SessId s) \<and> ascii (AuthCode s) \<and> ascii (IOSToken s)"
    if "s \<in> set (DocSess d')" for s
    using F(2) [OF that] assms(1) by (auto simp: user_doc_def asciiDoc_def face_def)
  ultimately show ?thesis using assms by (auto simp: user_doc_def asciiDoc_def same_face_def)
qed

lemma logged_face:
  assumes "same_face d d'"
  shows "logged d' = logged d"
proof
  fix p
  have view: "logged d p = (case map_option face (docPlat p d) of None \<Rightarrow> None
      | Some (_, _, code, _, login) \<Rightarrow> if login then Some code else None)" for d
    by (cases "docPlat p d") (simp_all add: logged_def face_def)
  have "map_option face (docPlat p d') = map_option face (docPlat p d)"
    using assms map_face_eq(3) [of "DocSess d'" "DocSess d" p] by (simp add: same_face_def docPlat_def)
  then show "logged d' p = logged d p" by (simp only: view)
qed

section \<open>Steps of the store that keep the users\<close>

definition keeps_users :: "'r env \<Rightarrow> 'r Storager \<Rightarrow> 'r Storager \<Rightarrow> bool" where
  "keeps_users e st st' \<longleftrightarrow> st_wf st' \<and>
     (\<forall>u. rel_option same_face (lookupDoc e st u) (lookupDoc e st' u))"

lemma keeps_users_refl: "st_wf st \<Longrightarrow> keeps_users e st st"
  by (simp add: keeps_users_def option.rel_refl)

lemma keeps_users_trans:
  assumes "keeps_users e st st'" "keeps_users e st' st''"
  shows "keeps_users e st st''"
proof -
  have "rel_option same_face (lookupDoc e st u) (lookupDoc e st'' u)" for u
  proof (cases "lookupDoc e st' u")
    case None
    then show ?thesis using assms by (auto simp: keeps_users_def dest!: spec [of _ u])
  next
    case (Some d)
    with assms have "rel_option same_face (lookupDoc e st u) (Some d)" "rel_option same_face (Some d) (lookupDoc e st'' u)"
      by (metis keeps_users_def)+
    then show ?thesis by (auto simp: option_rel_Some1 option_rel_Some2 intro: same_face_trans)
  qed
  then show ?thesis using assms(2) by (simp add: keeps_users_def)
qed

lemma keeps_users_ok:
  assumes "users_ok e st" "keeps_users e st st'"
  shows "users_ok e st'"
  unfolding users_ok_iff
proof (intro conjI allI impI)
  show "st_wf st'" using assms(2) by (simp add: keeps_users_def)
  fix uid d'
  assume "lookupDoc e st' uid = Some d'"
  with assms(2) have "rel_option same_face (lookupDoc e st uid) (Some d')" by (metis keeps_users_def)
  then obtain d where "lookupDoc e st uid = Some d" "same_face d d'" by (auto simp: option_rel_Some2)
  with assms(1) show "user_doc uid d'" by (auto simp: users_ok_iff intro: user_doc_face)
qed

lemma keeps_users_logged:
  assumes "keeps_users e st st'"
  shows "logged (startDoc e st' uid) = logged (startDoc e st uid)"
proof -
  have "rel_option same_face (lookupDoc e st uid) (lookupDoc e st' uid)" using assms by (simp add: keeps_users_def)
  then show ?thesis by (cases rule: option.rel_cases) (simp_all add: startDoc_def logged_face)
qed

lemma keeps_users_upd:
  assumes "st_wf st'" "lookupDoc e st' = (lookupDoc e st)(uid \<mapsto> d')" "lookupDoc e st uid = Some d" "same_face d d'"
  shows "keeps_users e st st'"
  using assms by (simp add: keeps_users_def option.rel_refl)

lemma FindSessions_keeps_users:
  assumes "redis_ok e" "users_ok e st"
  shows "keeps_users e st (snd (FindSessions e uid st))"
proof -
  obtain r st' where F: "FindSessions e uid st = (r, st')" by fastforce
  have "st_wf st" using assms(2) by (simp add: users_ok_def)
  from FindSessions_lookup [OF assms(1) this users_ok_loads [OF assms(2)] F] F show ?thesis
    by (simp add: keeps_users_def option.rel_refl)
qed

text \<open>A change of a cached document that touches redis at most at that user's key.\<close>

lemma cached_upd_lookup:
  assumes "cached st' = (cached st)(uid \<mapsto> d')" "\<And>u. u \<noteq> uid \<Longrightarrow> fst (rget e (cli st') u) = fst (rget e (cli st) u)"
  shows "lookupDoc e st' = (lookupDoc e st)(uid \<mapsto> d')"
proof
  fix u
  show "lookupDoc e st' u = ((lookupDoc e st)(uid \<mapsto> d')) u"
    using assms(2) [of u] by (cases "u = uid"; cases "cached st u") (simp_all add: lookupDoc_eq assms(1))
qed

lemma same_face_updDoc: "same_face d (updDoc plat (modOff f) d)"
proof -
  have "map face (updFirst plat (modOff f) ss) = map face ss" for ss
    by (induction ss) (auto simp: face_def modOff_def)
  then show ?thesis by (simp add: same_face_def updDoc_def)
qed

lemma same_face_specOp: "same_face d (specOp op d)"
  by (cases op) (auto simp: specSavePush_def specSaveCallback_def specSaveIm_def specGetPush_def
      specGetCallback_def specGetIm_def same_face_updDoc split: option.split)

lemma runOp_keeps_users:
  assumes "redis_ok e" "st_wf st" "cached st uid = Some d"
  shows "keeps_users e st (runOp e uid op st)"
proof (rule keeps_users_upd)
  note run = runOp_cached [OF assms(2,3), of e op]
  show "st_wf (runOp e uid op st)" by (rule run(1))
  show "lookupDoc e st uid = Some d" by (rule lookupDoc_cached [OF assms(3)])
  show "same_face d (specOp op d)" by (rule same_face_specOp)
  show "lookupDoc e (runOp e uid op st) = (lookupDoc e st)(uid \<mapsto> specOp op d)"
    using run(2) runOp_cli [OF assms(2,3), of e op, unfolded wroteTo_def] redis_okD(3) [OF assms(1)]
    by (intro cached_upd_lookup) (auto split: option.splits)
qed

section \<open>The handlers one by one\<close>

lemma SaveOfflineMsg_keeps_users:
  assumes "redis_ok (storeEnv E)" "st_wf (store R)" "cached (store R) uid = Some d"
  shows "keeps_users (storeEnv E) (store R) (store (SaveOfflineMsg E mt uid plat body R))"
  using runOp_keeps_users [OF assms, of "OpSavePush plat body"] runOp_keeps_users [OF assms, of "OpSaveCallback plat body"]
    runOp_keeps_users [OF assms, of "OpSaveIm plat body"] keeps_users_refl [OF assms(2)]
  by (simp add: SaveOfflineMsg_def)

lemma saveAll_keeps_users:
  assumes "redis_ok (storeEnv E)" "st_wf (store R)" "cached (store R) uid = Some d" "\<forall>it \<in> set its. SessId it = uid"
  shows "keeps_users (storeEnv E) (store R) (store (saveAll E mt body its R))"
  using assms(2-)
proof (induction its arbitrary: R d)
  case Nil
  then show ?case by (simp add: keeps_users_refl)
next
  case (Cons it its)
  let ?R = "SaveOfflineMsg E mt uid (Plat it) body R"
  note S = SaveOfflineMsg_cached [OF Cons.prems(1,2), of E mt it body]
  have c: "cached (store ?R) uid = Some (specSaveOff mt body it d)" by (simp add: S(2))
  have "keeps_users (storeEnv E) (store ?R) (store (saveAll E mt body its ?R))"
    using Cons.IH [OF S(1) c] Cons.prems(3) by simp
  with SaveOfflineMsg_keeps_users [OF assms(1) Cons.prems(1,2)] Cons.prems(3) show ?case
    by (auto intro: keeps_users_trans)
qed

lemma saveAll_frame: "comets (saveAll E mt body its R) = comets R" "topics (saveAll E mt body its R) = topics R"
  by (induction its arbitrary: R) (simp_all add: SaveOfflineMsg_frame)

lemma pushReceiver_keeps_users:
  assumes "redis_ok (storeEnv E)" "users_ok (storeEnv E) (store R)"
  shows "keeps_users (storeEnv E) (store R) (store (pushReceiver E mt msg rc R)) \<and>
    comets (pushReceiver E mt msg rc R) = comets R \<and> topics (pushReceiver E mt msg rc R) = topics R"
proof -
  let ?e = "storeEnv E" and ?uid = "rcUid rc"
  have wf: "st_wf (store R)" using assms(2) by (simp add: users_ok_def)
  note find = FindSessions_keeps_users [OF assms, of ?uid]
  show ?thesis
  proof (cases rule: FindSessions_cases [OF wf users_ok_loads [OF assms(2), of ?uid], case_names none some])
    case (none st')
    then show ?thesis using find by (simp add: pushReceiver_def)
  next
    case (some d q st')
    let ?R = "R\<lparr>store := st'\<rparr>"
    let ?ts = "filter (\<lambda>it. (Plat it AND rcTermtype rc) > 0) (DocSess (docOf st' q))"
    obtain failed w where dl: "deliverAll E mt msg (DocComet (docOf st' q)) ?ts R = (failed, w)" by fastforce
    have "user_doc ?uid d" using some(1) assms(2) by (simp add: users_ok_iff)
    then have ids: "\<forall>it \<in> set failed. SessId it = ?uid"
      using deliverAll_subset [OF dl] some(5) by (auto simp: user_doc_def)
    have c: "cached (store ?R) ?uid = Some d" "st_wf (store ?R)" using some(3,6) by simp_all
    have "keeps_users ?e (store ?R) (store (saveAll E mt (mdBody msg) failed ?R))"
      by (rule saveAll_keeps_users [OF assms(1) c(2,1) ids])
    moreover have "keeps_users ?e (store R) st'" using find some(2) by simp
    ultimately show ?thesis
      using pushReceiver_saves [OF some(2,4) refl dl] by (auto simp: saveAll_frame intro: keeps_users_trans)
  qed
qed

lemma pushReceivers_keep_users:
  assumes "redis_ok (storeEnv E)" "users_ok (storeEnv E) (store R)"
  shows "keeps_users (storeEnv E) (store R) (store (fold (pushReceiver E mt msg) rcs R)) \<and>
    comets (fold (pushReceiver E mt msg) rcs R) = comets R \<and> topics (fold (pushReceiver E mt msg) rcs R) = topics R"
  using assms(2)
proof (induction rcs arbitrary: R)
  case Nil
  then show ?case by (simp add: keeps_users_refl users_ok_def)
next
  case (Cons rc rcs)
  note P = pushReceiver_keeps_users [OF assms(1) Cons.prems, of mt msg rc]
  from Cons.IH [OF keeps_users_ok [OF Cons.prems conjunct1 [OF P]]] P show ?case
    by (auto intro: keeps_users_trans)
qed

lemma onSessionTimeout_keeps_users:
  assumes "redis_ok (storeEnv E)" "users_ok (storeEnv E) (store R)"
  shows "keeps_users (storeEnv E) (store R) (store (onSessionTimeout E msg R))"
    "comets (onSessionTimeout E msg R) = comets R" "topics (onSessionTimeout E msg R) = topics R"
proof -
  have "snd (SessionOnline e uid plat st) = snd (FindSessions e uid st)" for e :: "'a env" and uid plat st
    by (simp add: SessionOnline_def split: prod.split option.split)
  with FindSessions_keeps_users [OF assms] show "keeps_users (storeEnv E) (store R) (store (onSessionTimeout E msg R))"
    by (auto simp: onSessionTimeout_def Let_def split: prod.split) (metis snd_conv)+
qed (simp_all add: onSessionTimeout_def Let_def split: prod.split)

lemma loadDispatcher_keeps_users:
  assumes "redis_ok (storeEnv E)" "users_ok (storeEnv E) (store R)"
  shows "keeps_users (storeEnv E) (store R) (store (snd (loadDispatcher E order meth uid platS R)))"
    "comets (snd (loadDispatcher E order meth uid platS R)) = comets R"
    "topics (snd (loadDispatcher E order meth uid platS R)) = topics R"
proof -
  obtain s st where F: "FindSessions (storeEnv E) uid (store R) = (s, st)" by fastforce
  have b: "snd (balancer E order uid plat R) = R\<lparr>store := st\<rparr>" for plat
    by (simp add: balancer_def F Let_def split: option.split)
  then have l: "snd (loadDispatcher E order meth uid platS R) = (if meth = ''POST'' then R\<lparr>store := st\<rparr> else R)"
    by (simp add: loadDispatcher_def split: prod.split) (metis snd_conv)
  show "comets (snd (loadDispatcher E order meth uid platS R)) = comets R"
    "topics (snd (loadDispatcher E order meth uid platS R)) = topics R" by (simp_all add: l)
  show "keeps_users (storeEnv E) (store R) (store (snd (loadDispatcher E order meth uid platS R)))"
    using FindSessions_keeps_users [OF assms, of uid] assms(2) F
    by (auto simp: l users_ok_def intro: keeps_users_refl)
qed

section \<open>Reports\<close>

text \<open>
  A report names a comet in the working copy and changes terminals in nothing but their state;
  it keeps the users whether it saves or not.
\<close>

lemma report_keeps_users:
  assumes redis: "redis_ok e" and ok: "users_ok e st0" and asc: "ascii cid"
    and find: "FindSessions e uid st0 = (Some q, st)" and h: "handle st uid q"
    and eq: "memStore st' = memStore st" "fresh st' = fresh st" "arrHeap st' = arrHeap st" "cli st' = cli st"
    and sss: "sssHeap st' = (sssHeap st)(q := (sssHeap st q)\<lparr>CometId := cid\<rparr>)"
    and sess: "\<And>a. a \<notin> set (sessRefs st q) \<Longrightarrow> sessHeap st' a = sessHeap st a"
    and faces: "\<And>a. face (sessHeap st' a) = face (sessHeap st a)"
  shows "keeps_users e st0 st'" "keeps_users e st0 (snd (SaveSessions e q st'))"
proof -
  have wf0: "st_wf st0" using ok by (simp add: users_ok_def)
  note K = FindSessions_keeps_users [OF redis ok, of uid, unfolded find snd_conv]
  have wf: "st_wf st" using K by (simp add: keeps_users_def)
  note L = report_local [OF wf h eq sss sess]
  let ?d = "docOf st q"
  have look: "lookupDoc e st uid = Some ?d" by (rule lookupDoc_cached [OF handle_doc [OF h wf]])
  then have user: "user_doc uid ?d" using keeps_users_ok [OF ok K] by (simp add: users_ok_iff)
  have same: "same_face ?d (docOf st' q)" "same_face ?d ((docOf st' q)\<lparr>DocComet := DocComet ?d\<rparr>)"
    using L(2) faces h asc by (simp_all add: same_face_def docOf_def handle_def)
  have "asciiDoc (docOf st' q)" using user_doc_face [OF user same(1)] by (simp add: user_doc_def)
  note S = save_lookup [OF redis L(1) this refl refl]
  show "keeps_users e st0 (snd (SaveSessions e q st'))"
    by (rule keeps_users_trans [OF K keeps_users_upd [OF S(1,2) look same(1)]])
  have rs: "st_wf st'" "cli st' = cli st" "\<And>u. u \<noteq> uid \<Longrightarrow> cached st' u = cached st u"
    using L(1) by (simp_all add: ready_to_save_def)
  obtain d' where d': "cached st' uid = Some d'" "same_face ?d d'" using L(3) same by blast
  have "cached st' = (cached st)(uid \<mapsto> d')" using rs(3) d'(1) by (auto simp: fun_eq_iff)
  then have "lookupDoc e st' = (lookupDoc e st)(uid \<mapsto> d')" by (rule cached_upd_lookup) (simp add: rs(2))
  from keeps_users_trans [OF K keeps_users_upd [OF rs(1) this look d'(2)]] show "keeps_users e st0 st'" .
qed

lemma offlineReportLoop_effect:
  assumes "offlineReportLoop cid t tok s0 is R = (b, R')"
  shows "topics R' = topics R \<and> (\<exists>n. comets R' = cometLess cid n (comets R)) \<and>
    (store R' = store R \<or> (\<exists>i \<in> set is. store R' =
       modSess (arrHeap (store R) (arr s0) ! i) (\<lambda>it. it\<lparr>Online := False\<rparr>) (store R)))"
  using assms
proof (induction "is" arbitrary: R)
  case Nil
  then show ?case by (auto intro: exI [of _ 0] simp: cometLess_simps(1))
next
  case (Cons i "is")
  let ?R = "R\<lparr>comets := cometSub cid (comets R)\<rparr>"
  have one: "\<exists>n. cometSub cid (comets R) = cometLess cid n (comets R)"
    by (metis cometLess_simps)
  have more: "\<exists>n. cometLess cid m (cometSub cid (comets R)) = cometLess cid n (comets R)" for m
    by (metis cometLess_simps(2))
  show ?case
  proof (cases "Plat (sessHeap (store R) (arrHeap (store R) (arr s0) ! i)) = t \<and>
      AuthCode (sessHeap (store R) (arrHeap (store R) (arr s0) ! i)) = tok")
    case True
    then show ?thesis using Cons.prems one by (auto simp: Let_def)
  next
    case False
    then have "offlineReportLoop cid t tok s0 is ?R = (b, R')" using Cons.prems by (auto simp: Let_def)
    from Cons.IH [OF this] more show ?thesis by auto
  qed
qed

text \<open>The comets are filed under their own ids.\<close>

definition filed :: "(string \<rightharpoonup> comet) \<Rightarrow> bool" where
  "filed p \<longleftrightarrow> (\<forall>cid c. p cid = Some c \<longrightarrow> comId c = cid)"

lemma filed_ops:
  "filed p \<Longrightarrow> filed (cometAdd cid p)" "filed p \<Longrightarrow> filed (cometLess cid n p)"
  "filed p \<Longrightarrow> filed (deleteComet cid p)" "filed p \<Longrightarrow> comId c = cid \<Longrightarrow> filed (insertComet cid c p)"
  by (auto simp: filed_def cometAdd_def cometLess_def deleteComet_def insertComet_def split: option.splits if_splits)

text \<open>A report leaves the state usable, and the pool filed.\<close>

definition report_ok :: "('r, 'w) renv \<Rightarrow> ('r, 'w) Router \<Rightarrow> ('r, 'w) Router \<Rightarrow> bool" where
  "report_ok E R R' \<longleftrightarrow> keeps_users (storeEnv E) (store R) (store R') \<and> topics R' = topics R \<and>
     (filed (comets R) \<longrightarrow> filed (comets R'))"

lemma offlineReport_ok:
  assumes users: "redis_ok (storeEnv E)" "users_ok (storeEnv E) (store R)" "ascii cid"
    and found: "FindSessions (storeEnv E) uid (store R) = (Some q, st')" "handle st' uid q"
  shows "report_ok E R (RpcAsyncHandle E (StateNotify uid t tok cid 0) R)"
proof -
  let ?R' = "RpcAsyncHandle E (StateNotify uid t tok cid 0) R"
  let ?st1 = "modSessions q (\<lambda>v. v\<lparr>CometId := cid\<rparr>) st'" and ?s = "Sess (sssHeap st' q)"
  obtain b R2 where L: "offlineReportLoop cid t tok ?s [0..<slen ?s] (R\<lparr>store := ?st1\<rparr>) = (b, R2)" by fastforce
  note eff = offlineReportLoop_effect [OF this]
  have R': "?R' = (if b then R2 else saveIn E q R2)"
    using found(1) L by (simp add: Let_def modStore_def modSessions_def)
  have "arrHeap st' (arr ?s) ! i \<in> set (sessRefs st' q)" if "i < slen ?s" for i
    using that found(2) nth_mem [of i "sessRefs st' q"] by (simp add: handle_def wfp_def sessRefs_def elems_def)
  then have "memStore (store R2) = memStore st'" "fresh (store R2) = fresh st'" "arrHeap (store R2) = arrHeap st'"
    "cli (store R2) = cli st'" "sssHeap (store R2) = (sssHeap st')(q := (sssHeap st' q)\<lparr>CometId := cid\<rparr>)"
    "\<And>a. a \<notin> set (sessRefs st' q) \<Longrightarrow> sessHeap (store R2) a = sessHeap st' a"
    "\<And>a. face (sessHeap (store R2) a) = face (sessHeap st' a)"
    using eff by (auto simp: modSessions_def face_def split: if_splits)
  note report_keeps_users [OF users found this]
  moreover have "filed (comets R) \<Longrightarrow> filed (comets R2)" "topics R2 = topics R"
    using eff by (auto intro: filed_ops)
  ultimately show ?thesis using R' by (simp add: report_ok_def)
qed

lemma onlineReport_ok:
  assumes users: "redis_ok (storeEnv E)" "users_ok (storeEnv E) (store R)" "ascii cid"
    and found: "FindSessions (storeEnv E) uid (store R) = (Some q, st')" "handle st' uid q"
  shows "report_ok E R (RpcAsyncHandle E (StateNotify uid t tok cid 1) R)"
proof -
  let ?st1 = "modSessions q (\<lambda>v. v\<lparr>CometId := cid\<rparr>) st'"
  let ?st = "fold (onlineReport t tok) (sessRefs st' q) ?st1"
  have "sessRefs ?st1 q = sessRefs st' q" by (simp add: sessRefs_def elems_def modSessions_def)
  then have R': "RpcAsyncHandle E (StateNotify uid t tok cid 1) R =
      saveIn E q (R\<lparr>comets := cometAdd cid (comets R), store := ?st\<rparr>)"
    using found(1) by (simp add: Let_def modStore_def)
  have "memStore ?st = memStore st'" "fresh ?st = fresh st'" "arrHeap ?st = arrHeap st'" "cli ?st = cli st'"
    "sssHeap ?st = (sssHeap st')(q := (sssHeap st' q)\<lparr>CometId := cid\<rparr>)"
    "\<And>a. a \<notin> set (sessRefs st' q) \<Longrightarrow> sessHeap ?st a = sessHeap st' a"
    "\<And>a. face (sessHeap ?st a) = face (sessHeap st' a)"
    by (simp_all add: fold_onlineReport modSessions_def face_def)
  from report_keeps_users(2) [OF users found this] R' show ?thesis by (simp add: report_ok_def filed_ops)
qed

lemma Report_keeps_users:
  assumes "redis_ok (storeEnv E)" "users_ok (storeEnv E) (store R)" "ascii cid"
  shows "report_ok E R (RpcAsyncHandle E (StateNotify uid t tok cid state) R)"
proof -
  have wf: "st_wf (store R)" using assms(2) by (simp add: users_ok_def)
  note refl = keeps_users_refl [OF wf, of "storeEnv E"]
  show ?thesis
  proof (cases rule: FindSessions_cases [OF wf users_ok_loads [OF assms(2), of uid], case_names none some])
    case (none st')
    then show ?thesis using FindSessions_keeps_users [OF assms(1,2), of uid] refl by (simp add: report_ok_def)
  next
    case (some d q st')
    consider "state = 0" | "state = 1" | "state \<noteq> 0 \<and> state \<noteq> 1" by blast
    then show ?thesis
      by cases (use offlineReport_ok [OF assms some(2,4)] onlineReport_ok [OF assms some(2,4)] refl in
        \<open>simp_all add: report_ok_def\<close>)
  qed
qed

section \<open>A comet that exits\<close>

lemma offlineEntry_reads:
  assumes "redis_ok e" "st_wf st" "u \<noteq> uid"
  shows "fst (rget e (cli (offlineEntry e comet uid st)) u) = fst (rget e (cli st) u)"
proof (cases "memStore st uid")
  case None
  then show ?thesis by (simp add: offlineEntry_def)
next
  case (Some p)
  let ?st = "fold (\<lambda>a. modSess a (\<lambda>s. s\<lparr>Online := False\<rparr>)) (sessRefs st p) st"
  have "distinct (sessRefs st p)" "SsId (sssHeap st p) = uid"
    using wfD [OF assms(2) Some] by (simp_all add: wfp_def)
  with fold_modSess [of "sessRefs st p" "\<lambda>s. s\<lparr>Online := False\<rparr>" st]
  have "SsId (sssHeap ?st p) = uid" "cli ?st = cli st" by simp_all
  then show ?thesis using Some redis_okD(3) [OF assms(1,3)]
    by (cases "jenc e (docOf ?st p)") (simp_all add: offlineEntry_def Let_def)
qed

lemma offlineEntry_keeps_users:
  assumes "redis_ok e" "st_wf st"
  shows "keeps_users e st (offlineEntry e comet uid st)"
proof (cases "cached st uid")
  case None
  then have "offlineEntry e comet uid st = st" by (simp add: offlineEntry_def cached_None)
  then show ?thesis using keeps_users_refl [OF assms(2)] by simp
next
  case (Some d)
  let ?d = "if DocComet d = comet then offlineDoc d else d"
  note S = offlineEntry_spec [OF assms(2), of e comet uid]
  have "same_face d ?d" by (simp add: same_face_def offlineDoc_def face_def)
  moreover have "lookupDoc e (offlineEntry e comet uid st) = (lookupDoc e st)(uid \<mapsto> ?d)"
    using S(3) Some offlineEntry_reads [OF assms] by (intro cached_upd_lookup) simp_all
  ultimately show ?thesis using keeps_users_upd [OF S(1) _ lookupDoc_cached [OF Some]] by blast
qed

lemma OfflineComet_keeps_users:
  assumes "redis_ok e" "st_wf st"
  shows "keeps_users e st (OfflineComet e comet order st)"
  using assms(2)
proof (induction order arbitrary: st)
  case Nil
  then show ?case by (simp add: OfflineComet_def keeps_users_refl)
next
  case (Cons uid order)
  note entry = offlineEntry_keeps_users [OF assms(1) Cons.prems, of comet uid]
  have "st_wf (offlineEntry e comet uid st)" using entry by (simp add: keeps_users_def)
  from Cons.IH [OF this] entry show ?case by (auto simp: OfflineComet_def intro: keeps_users_trans)
qed

section \<open>The machine\<close>

text \<open>
  A link event is received by the goroutine of a comet in the pool, or by one that still holds
  a comet the pool has dropped.
\<close>

datatype routerInput =
    QueueMessage string bytes
  | CometReport rpcRequest
  | CometCall rpcRequest
  | HttpRequest "comet list" string string string
  | LinkEvent string int
  | StaleLinkEvent comet int
  | CometExit "string list" string

fun routerStep :: "('r, 'w) renv \<Rightarrow> routerInput \<Rightarrow> ('r, 'w) Router \<Rightarrow> ('r, 'w) Router" where
  "routerStep E (QueueMessage topic b) R = onNsq E topic b R"
| "routerStep E (CometReport m) R = RpcAsyncHandle E m R"
| "routerStep E (CometCall m) R = snd (RpcSyncHandle E m R)"
| "routerStep E (HttpRequest order meth uid platS) R = snd (loadDispatcher E order meth uid platS R)"
| "routerStep E (LinkEvent cid i) R =
     (case findComet cid (comets R) of None \<Rightarrow> R | Some c \<Rightarrow> snd (checkRpc E True c i R))"
| "routerStep E (StaleLinkEvent c i) R = snd (checkRpc E False c i R)"
| "routerStep E (CometExit order cid) R = onCometExit E order cid R"

definition runRouter :: "('r, 'w) renv \<Rightarrow> routerInput list \<Rightarrow> ('r, 'w) Router \<Rightarrow> ('r, 'w) Router" where
  "runRouter E = fold (routerStep E)"

text \<open>Texts that get stored are ASCII: the logins of the queue and the comet id of a report.\<close>

definition queueBody :: "bytes \<Rightarrow> bytes" where
  "queueBody body = (case DecodeString body of None \<Rightarrow> body | Some b \<Rightarrow> b)"

lemma HandleMessage_body: "HandleMessage hdl topic body s = hdl topic (queueBody body) s"
  by (simp add: HandleMessage_def queueBody_def split: option.split)

definition asciiBody :: "('r, 'w) renv \<Rightarrow> bytes \<Rightarrow> bool" where
  "asciiBody E b \<longleftrightarrow> (case unOnline E b of None \<Rightarrow> True | Some m \<Rightarrow> asciiMsg m)"

fun asciiInput :: "('r, 'w) renv \<Rightarrow> routerInput \<Rightarrow> bool" where
  "asciiInput E (QueueMessage topic body) = asciiBody E (queueBody body)"
| "asciiInput E (CometReport (StateNotify uid t tok cid state)) = ascii cid"
| "asciiInput E i = True"

text \<open>The login an input is, with the topics \<open>ts\<close> of the configuration.\<close>

definition loginBody :: "('r, 'w) renv \<Rightarrow> string list \<Rightarrow> string \<Rightarrow> bytes \<Rightarrow> UserOnlineState option" where
  "loginBody E ts topic b =
     (if length ts > 4 \<and> topic = ts ! 0 \<and> topic \<noteq> ts ! 4
      then (case unOnline E b of Some m \<Rightarrow> if uoLogin m then Some m else None | None \<Rightarrow> None) else None)"

fun loginOf :: "('r, 'w) renv \<Rightarrow> string list \<Rightarrow> routerInput \<Rightarrow> UserOnlineState option" where
  "loginOf E ts (QueueMessage topic body) = loginBody E ts topic (queueBody body)"
| "loginOf E ts i = None"

definition router_ok :: "('r, 'w) renv \<Rightarrow> ('r, 'w) Router \<Rightarrow> bool" where
  "router_ok E R \<longleftrightarrow> users_ok (storeEnv E) (store R) \<and> filed (comets R)"

lemma RpcSyncHandle_keeps_users:
  assumes "redis_ok (storeEnv E)" "users_ok (storeEnv E) (store R)"
  shows "keeps_users (storeEnv E) (store R) (store (snd (RpcSyncHandle E m R))) \<and>
    topics (snd (RpcSyncHandle E m R)) = topics R \<and>
    (filed (comets R) \<longrightarrow> filed (comets (snd (RpcSyncHandle E m R))))"
proof (cases m)
  case (AuthRequest uid t code)
  obtain s st where F: "FindSessions (storeEnv E) uid (store R) = (s, st)" by fastforce
  then have "snd (RpcSyncHandle E m R) = R\<lparr>store := st\<rparr>" by (simp add: AuthRequest Let_def split: option.split)
  then show ?thesis using FindSessions_keeps_users [OF assms, of uid] F by simp
next
  case (CometRegister cid tcp ws rpc)
  have "store (snd (RpcSyncHandle E m R)) = store R" "topics (snd (RpcSyncHandle E m R)) = topics R"
    by (simp_all add: CometRegister Let_def split: option.split prod.split sum.split)
  moreover have "filed (comets (snd (RpcSyncHandle E m R)))" if "filed (comets R)"
    using that by (simp add: CometRegister Let_def filed_ops split: option.split prod.split sum.split)
  ultimately show ?thesis using assms(2) by (simp add: users_ok_def keeps_users_refl)
next
  case (MsgUpwardRequst uid t msg)
  have "store (snd (RpcSyncHandle E m R)) = store R" "topics (snd (RpcSyncHandle E m R)) = topics R"
    "comets (snd (RpcSyncHandle E m R)) = comets R"
    by (simp_all add: MsgUpwardRequst Let_def split: prod.split)
  then show ?thesis using assms(2) by (simp add: users_ok_def keeps_users_refl)
qed (use assms(2) in \<open>simp_all add: users_ok_def keeps_users_refl\<close>)

lemma checkRpc_frame:
  "store (snd (checkRpc E pooled c i R)) = store R" "topics (snd (checkRpc E pooled c i R)) = topics R"
  "filed (comets R) \<Longrightarrow> filed (comets (snd (checkRpc E pooled c i R)))"
proof -
  show "filed (comets R) \<Longrightarrow> filed (comets (snd (checkRpc E pooled c i R)))"
    by (auto simp: checkRpc_def filed_ops split: prod.split sum.split)
qed (simp_all add: checkRpc_def split: prod.split sum.split)

text \<open>What one queue message does, \<open>login\<close> being the login it carries.\<close>

definition nsq_effect :: "('r, 'w) renv \<Rightarrow> UserOnlineState option \<Rightarrow> ('r, 'w) Router \<Rightarrow> gopanic option \<Rightarrow>
    ('r, 'w) Router \<Rightarrow> bool" where
  "nsq_effect E login R panic R' \<longleftrightarrow> (4 < length (topics R) \<longrightarrow> panic = None) \<and> comets R' = comets R \<and> topics R' = topics R \<and>
     (case login of None \<Rightarrow> keeps_users (storeEnv E) (store R) (store R')
      | Some msg \<Rightarrow> asciiMsg msg \<and> login_done E msg R R')"

lemma onUserOnline_effect:
  assumes redis: "redis_ok (storeEnv E)" and ok: "users_ok (storeEnv E) (store R)" and a: "asciiMsg msg"
    and R': "onUserOnline E msg R = (panic, R')"
  shows "nsq_effect E (if uoLogin msg then Some msg else None) R panic R'"
proof (cases "uoLogin msg")
  case False
  have "st_wf (store R)" using ok by (simp add: users_ok_def)
  with False R' show ?thesis using keeps_users_refl by (auto simp: onUserOnline_def nsq_effect_def)
next
  case True
  obtain R1 where "onUserOnline E msg R = (None, R1)" "login_done E msg R R1"
    using onUserOnline_done [OF redis ok a True] by blast
  then show ?thesis using R' a True by (auto simp: nsq_effect_def login_done_def Let_def)
qed

lemma NsqHandler_effect:
  assumes redis: "redis_ok (storeEnv E)" and ok: "users_ok (storeEnv E) (store R)"
    and asc: "asciiBody E b" and R': "NsqHandler E topic b R = (panic, R')"
  shows "nsq_effect E (loginBody E (topics R) topic b) R panic R'"
proof -
  have "st_wf (store R)" using ok by (simp add: users_ok_def)
  note refl = keeps_users_refl [OF this, of "storeEnv E"]
  show ?thesis
  proof (cases "4 < length (topics R) \<and> topic \<noteq> topics R ! 4 \<and> topic = topics R ! 0")
    case False
    then have "loginBody E (topics R) topic b = None" by (auto simp: loginBody_def)
    moreover note onSessionTimeout_keeps_users [OF redis ok]
    moreover note pushReceivers_keep_users [OF redis ok, of "topicType topic"]
    ultimately show ?thesis using R' False refl
      by (auto simp: NsqHandler_def nsq_effect_def Let_def split: if_splits option.splits)
  next
    case True
    then have N: "NsqHandler E topic b R = (case unOnline E b of None \<Rightarrow> (None, R) | Some msg \<Rightarrow> onUserOnline E msg R)"
      and L: "loginBody E (topics R) topic b =
        (case unOnline E b of Some m \<Rightarrow> if uoLogin m then Some m else None | None \<Rightarrow> None)"
      by (auto simp: NsqHandler_def loginBody_def Let_def)
    show ?thesis
    proof (cases "unOnline E b")
      case None
      then show ?thesis using N L R' refl by (simp add: nsq_effect_def)
    next
      case (Some msg)
      then show ?thesis using onUserOnline_effect [OF redis ok, of msg panic R'] N L R' asc by (simp add: asciiBody_def)
    qed
  qed
qed

lemma NsqHandler_step:
  assumes "redis_ok (storeEnv E)" "users_ok (storeEnv E) (store R)" "asciiBody E b" "NsqHandler E topic b R = (panic, R')"
  shows "4 < length (topics R) \<Longrightarrow> panic = None" "comets R' = comets R" "topics R' = topics R"
    "case loginBody E (topics R) topic b of
       None \<Rightarrow> keeps_users (storeEnv E) (store R) (store R')
     | Some msg \<Rightarrow> asciiMsg msg \<and> login_done E msg R R'"
  using NsqHandler_effect [OF assms] by (simp_all add: nsq_effect_def)

text \<open>One input is a login or keeps the users.\<close>

lemma routerStep_cases:
  assumes "redis_ok (storeEnv E)" "router_ok E R" "asciiInput E i"
  shows "filed (comets (routerStep E i R)) \<and> topics (routerStep E i R) = topics R \<and>
    (case loginOf E (topics R) i of
       None \<Rightarrow> keeps_users (storeEnv E) (store R) (store (routerStep E i R))
     | Some msg \<Rightarrow> asciiMsg msg \<and> login_done E msg R (routerStep E i R))"
proof -
  have ok: "users_ok (storeEnv E) (store R)" "filed (comets R)" using assms(2) by (simp_all add: router_ok_def)
  have wf: "st_wf (store R)" using ok(1) by (simp add: users_ok_def)
  note refl = keeps_users_refl [OF wf, of "storeEnv E"]
  show ?thesis
  proof (cases i)
    case (QueueMessage topic body)
    obtain panic R' where N: "NsqHandler E topic (queueBody body) R = (panic, R')" by fastforce
    from assms(3) have "asciiBody E (queueBody body)" by (simp add: QueueMessage)
    note S = NsqHandler_step [OF assms(1) ok(1) this N]
    have eq: "routerStep E i R = R'" "loginOf E (topics R) i = loginBody E (topics R) topic (queueBody body)"
      by (simp_all add: QueueMessage onNsq_def HandleMessage_body N)
    show ?thesis unfolding eq using S(2-4) ok(2) by simp
  next
    case (CometReport m)
    then show ?thesis using assms(3) ok(2) refl Report_keeps_users [OF assms(1) ok(1), unfolded report_ok_def]
      by (cases m) (simp_all del: RpcAsyncHandle.simps(1))
  next
    case (CometCall m)
    then show ?thesis using RpcSyncHandle_keeps_users [OF assms(1) ok(1)] ok(2) by simp
  next
    case (HttpRequest order meth uid platS)
    then show ?thesis using loadDispatcher_keeps_users [OF assms(1) ok(1)] ok(2) by simp
  next
    case (LinkEvent cid event)
    then show ?thesis using ok(2) refl by (simp add: checkRpc_frame split: option.split)
  next
    case (StaleLinkEvent c event)
    then show ?thesis using ok(2) refl by (simp add: checkRpc_frame)
  next
    case (CometExit order cid)
    then show ?thesis using OfflineComet_keeps_users [OF assms(1) wf] ok(2)
      by (simp add: onCometExit_def Let_def filed_ops)
  qed
qed

definition codes :: "('r, 'w) renv \<Rightarrow> ('r, 'w) Router \<Rightarrow> string \<Rightarrow> int \<rightharpoonup> string" where
  "codes E R uid = logged (startDoc (storeEnv E) (store R) uid)"

lemma routerStep_ok:
  assumes "redis_ok (storeEnv E)" "router_ok E R" "asciiInput E i"
  shows "router_ok E (routerStep E i R)" "topics (routerStep E i R) = topics R"
    "codes E (routerStep E i R) uid = (case loginOf E (topics R) i of None \<Rightarrow> codes E R uid
       | Some msg \<Rightarrow> if uoUid msg = uid then absLogin msg (codes E R uid) else codes E R uid)"
proof -
  let ?R = "routerStep E i R"
  have ok: "users_ok (storeEnv E) (store R)" using assms(2) by (simp add: router_ok_def)
  note S = routerStep_cases [OF assms]
  show "topics ?R = topics R" using S by blast
  show "router_ok E ?R"
    using S keeps_users_ok [OF ok] login_done_users_ok [OF ok]
    by (auto simp: router_ok_def split: option.splits)
  show "codes E ?R uid = (case loginOf E (topics R) i of None \<Rightarrow> codes E R uid
       | Some msg \<Rightarrow> if uoUid msg = uid then absLogin msg (codes E R uid) else codes E R uid)"
  proof (cases "loginOf E (topics R) i")
    case None
    with S have "keeps_users (storeEnv E) (store R) (store ?R)" by simp
    from keeps_users_logged [OF this] show ?thesis by (simp add: None codes_def)
  next
    case (Some msg)
    then have "asciiMsg msg" "login_done E msg R ?R" using S by simp_all
    moreover have "uoLogin msg" using Some by (cases i) (auto simp: loginBody_def split: if_splits option.splits)
    moreover have "ascii (uoUid msg)" using \<open>asciiMsg msg\<close> by (simp add: asciiMsg_def)
    ultimately have "startDoc (storeEnv E) (store ?R) uid =
        (if uoUid msg = uid then onlineDoc msg (startDoc (storeEnv E) (store R) uid) else startDoc (storeEnv E) (store R) uid)"
      "uoUid msg = uid \<Longrightarrow> logged (onlineDoc msg (startDoc (storeEnv E) (store R) uid)) = absLogin msg (codes E R uid)"
      using logged_onlineDoc [OF users_ok_start(1) [OF ok], of uid msg]
      by (auto simp: login_done_def Let_def startDoc_def codes_def)
    then show ?thesis by (simp add: Some codes_def)
  qed
qed

text \<open>The logins of one user among the inputs.\<close>

definition loginsOf :: "('r, 'w) renv \<Rightarrow> string list \<Rightarrow> string \<Rightarrow> routerInput list \<Rightarrow> UserOnlineState list" where
  "loginsOf E ts uid is = filter (\<lambda>msg. uoUid msg = uid) (List.map_filter (loginOf E ts) is)"

lemma runRouter_ok:
  assumes "redis_ok (storeEnv E)" "router_ok E R" "\<forall>i \<in> set is. asciiInput E i"
  shows "router_ok E (runRouter E is R) \<and> topics (runRouter E is R) = topics R \<and>
    codes E (runRouter E is R) uid = fold absLogin (loginsOf E (topics R) uid is) (codes E R uid)"
  using assms(2,3)
proof (induction "is" arbitrary: R)
  case Nil
  then show ?case by (simp add: runRouter_def loginsOf_def List.map_filter_def)
next
  case (Cons i "is")
  have a: "asciiInput E i" using Cons.prems(2) by simp
  note S = routerStep_ok [OF assms(1) Cons.prems(1) a]
  have "loginsOf E (topics R) uid (i # is) = (case loginOf E (topics R) i of None \<Rightarrow> loginsOf E (topics R) uid is
      | Some msg \<Rightarrow> if uoUid msg = uid then msg # loginsOf E (topics R) uid is else loginsOf E (topics R) uid is)"
    by (simp add: loginsOf_def List.map_filter_def split: option.split)
  with Cons.IH [OF S(1)] Cons.prems(2) S(2) S(3) [of uid] show ?case
    by (auto simp: runRouter_def split: option.split)
qed

lemma Auth_codes:
  assumes "redis_ok (storeEnv E)" "router_ok E R"
  shows "fst (RpcSyncHandle E (AuthRequest uid t code) R) =
    (if codes E R uid t = Some code then RPC_RET_SUCCESS else RPC_RET_FAILED)"
  using Auth_logged [OF assms(1), of R uid t code] assms(2) by (simp add: router_ok_def codes_def)

text \<open>A start: nothing registered, a redis that holds documents of users only.\<close>

lemma router_ok_start:
  assumes "comets R = Map.empty" "store R = NewStorager r"
    and "\<And>uid d. persisted (storeEnv E) r uid d \<Longrightarrow> user_doc uid d"
  shows "router_ok E R"
proof -
  have "user_doc uid d" if "lookupDoc (storeEnv E) (NewStorager r) uid = Some d" for uid d
    using that by (intro assms(3)) (auto simp: lookupDoc_def NewStorager_def persisted_def split: option.splits)
  then show ?thesis using assms(1,2) by (simp add: router_ok_def filed_def users_ok_iff wf_NewStorager)
qed

lemma codes_one_phone:
  assumes "router_ok E R" "phone t" "phone t'" "t \<noteq> t'"
  shows "codes E R uid t = None \<or> codes E R uid t' = None"
proof (rule ccontr)
  let ?d = "startDoc (storeEnv E) (store R) uid"
  assume "\<not> (codes E R uid t = None \<or> codes E R uid t' = None)"
  then obtain s s' where "docPlat t ?d = Some s" "docPlat t' ?d = Some s'"
    by (auto simp: codes_def logged_def split: option.splits)
  then have "t \<in> Plat ` set (DocSess ?d)" "t' \<in> Plat ` set (DocSess ?d)"
    using docPlat_in by fastforce+
  moreover have "plats_ok ?d"
    using assms(1) by (auto simp: router_ok_def users_ok_def startDoc_def plats_ok_empty split: option.split)
  ultimately show False using assms(2-4) unfolding plats_ok_set by blast
qed

section \<open>A history to try things on\<close>

definition loginMessage :: "int \<Rightarrow> string \<Rightarrow> routerInput" where
  "loginMessage t code = QueueMessage ''userOnline'' (EncodeToString (putOnline (exLogin t code)))"

definition exHistory :: "routerInput list" where
  "exHistory = [loginMessage 1 ''a'', CometReport (StateNotify ''u'' 1 ''a'' ''c1'' 1),
     CometCall (AuthRequest ''u'' 1 ''a''), HttpRequest [] ''POST'' ''u'' ''Web'',
     loginMessage 2 ''b'', CometReport (StateNotify ''u'' 1 ''a'' ''c1'' 0), LinkEvent ''c1'' 0,
     StaleLinkEvent (exComet ''c1'' 5 0) 0, CometExit [''u''] ''c1'']"

lemma queueBody_published [simp]: "queueBody (EncodeToString b) = b"
  by (simp add: queueBody_def)

lemma exHistory_ascii: "\<forall>i \<in> set exHistory. asciiInput exEnv i"
  by (simp add: exHistory_def loginMessage_def asciiBody_def exLogin_ascii ascii_def)

lemma exHistory_logins:
  "loginsOf exEnv (topics exRouter) ''u'' exHistory = [exLogin 1 ''a'', exLogin 2 ''b'']"
  by (simp add: loginsOf_def exHistory_def loginMessage_def List.map_filter_def loginBody_def)

lemma exRouter_ok: "router_ok exEnv exRouter"
  using exSt_users_ok by (simp add: router_ok_def filed_def exComet_def)

lemma codes_exRouter: "codes exEnv exRouter ''u'' = logged exDoc"
  by (simp add: codes_def startDoc_exSt)

section \<open>Properties\<close>

text \<open>C19: whatever inputs the router has handled, in any order (queue messages of any topic, reports and
  calls of comets, requests to the dispatcher, events of the links, also of those to comets the pool has dropped, exits of comets): its state
  is well-formed (the heap of the session cache is, every user's document is his own, has one
  terminal per platform, at most one phone and text that survives storing, and every comet is
  filed under its own id), the next queue message does not make the handler panic, and no user can
  authenticate with two phones.\<close>

theorem router_stays_well_formed:
  assumes "redis_ok (storeEnv E)" "router_ok E R" "\<forall>i \<in> set is. asciiInput E i"
    and "4 < length (topics R)" "asciiBody E b" "phone t" "phone t'" "t \<noteq> t'"
  shows "router_ok E (runRouter E is R) \<and>
    fst (NsqHandler E topic b (runRouter E is R)) = None \<and>
    \<not> (fst (RpcSyncHandle E (AuthRequest uid t code) (runRouter E is R)) = RPC_RET_SUCCESS \<and>
       fst (RpcSyncHandle E (AuthRequest uid t' code') (runRouter E is R)) = RPC_RET_SUCCESS)"
proof -
  let ?R = "runRouter E is R"
  from runRouter_ok [OF assms(1-3), of uid] have ok: "router_ok E ?R" "topics ?R = topics R" by simp_all
  then have users: "users_ok (storeEnv E) (store ?R)" by (simp add: router_ok_def)
  obtain panic R' where N: "NsqHandler E topic b ?R = (panic, R')" by fastforce
  have "panic = None" using NsqHandler_step(1) [OF assms(1) users assms(5) N] assms(4) ok(2) by simp
  then show ?thesis
    using ok(1) N codes_one_phone [OF ok(1) assms(6-8), of uid]
      Auth_codes [OF assms(1) ok(1), of uid t code] Auth_codes [OF assms(1) ok(1), of uid t' code']
    by (auto split: if_splits)
qed

theorem router_stays_well_formed_witness:
  "router_ok exEnv (runRouter exEnv exHistory exRouter) \<and>
   fst (NsqHandler exEnv ''userOnline'' (putOnline (exLogin 3 ''c'')) (runRouter exEnv exHistory exRouter)) = None"
  using router_stays_well_formed [of exEnv exRouter exHistory "putOnline (exLogin 3 ''c'')" 1 2 "''userOnline''"]
    mapEnv_ok exRouter_ok exHistory_ascii
  by (simp add: asciiBody_def exLogin_ascii ascii_def phone_def)

text \<open>C18: authentication follows the history: after any inputs, in any order, a code authenticates a user
  on a platform exactly if it is the code that the latest login of that user on that platform
  left, counting a login of an excluded phone as its end. Pushes, reports, restarts of comets
  and the logins of other users change no code.\<close>

theorem auth_follows_history:
  assumes "redis_ok (storeEnv E)" "router_ok E R" "\<forall>i \<in> set is. asciiInput E i"
  shows "fst (RpcSyncHandle E (AuthRequest uid t code) (runRouter E is R)) =
    (if fold absLogin (loginsOf E (topics R) uid is) (codes E R uid) t = Some code
     then RPC_RET_SUCCESS else RPC_RET_FAILED)"
proof -
  from runRouter_ok [OF assms, of uid] have run: "router_ok E (runRouter E is R)"
    "codes E (runRouter E is R) uid = fold absLogin (loginsOf E (topics R) uid is) (codes E R uid)" by simp_all
  from Auth_codes [OF assms(1) run(1)] run(2) show ?thesis by simp
qed

theorem auth_follows_history_witness:
  "fst (RpcSyncHandle exEnv (AuthRequest ''u'' 2 ''b'') (runRouter exEnv exHistory exRouter)) = 0 \<and>
   fst (RpcSyncHandle exEnv (AuthRequest ''u'' 1 ''a'') (runRouter exEnv exHistory exRouter)) = -1 \<and>
   fst (RpcSyncHandle exEnv (AuthRequest ''u'' 8 ''web'') (runRouter exEnv exHistory exRouter)) = 0"
proof -
  have "redis_ok (storeEnv exEnv)" using mapEnv_ok by simp
  note auth_follows_history [OF this exRouter_ok exHistory_ascii, of "''u''", unfolded exHistory_logins codes_exRouter]
  moreover have "logged exDoc 8 = Some ''web''" by (simp add: logged_def docPlat_def)
  ultimately show ?thesis by (simp add: absLogin_def mutexPlats_phone phone_def)
qed

end
