(* ===== verification/JsonProto.thy ===== *)
theory JsonProto
  imports Binary Base64 Complex_Main
begin

text \<open>
  \<^verbatim>\<open>src/internal/protocol/json.go\<close>: the message format of the websocket side, a JSON object
  run through the exclusive-or ring and base64, and \<^verbatim>\<open>Pack\<close> of \<^verbatim>\<open>code.go\<close>, which
  chooses between the two formats.

  \<open>json\<close> is what \<^verbatim>\<open>encoding/json\<close> makes of an \<^verbatim>\<open>interface{}\<close>; a number is the exact
  value of its \<^verbatim>\<open>float64\<close>. The text of a JSON value is that of the library: \<open>jtext\<close> and
  \<open>jparse\<close> of a \<open>jsonlib\<close> stand for \<^verbatim>\<open>Marshal\<close> and \<^verbatim>\<open>Unmarshal\<close>.
\<close>

section \<open>JSON values\<close>

datatype json =
    JNull
  | JBool bool
  | JNum rat
  | JStr bytes
  | JArr "json list"
  | JObj "(string \<times> json) list"

record jsonlib =
  jtext :: "json \<Rightarrow> bytes"
  jparse :: "bytes \<Rightarrow> json option"

text \<open>
  What \<^verbatim>\<open>Marshal\<close> and \<^verbatim>\<open>Unmarshal\<close> are documented to do with the objects this file
  builds: an object has a text that is not empty, and the text reads back as the object.
\<close>

definition jsonlib_ok :: "jsonlib \<Rightarrow> bool" where
  "jsonlib_ok L \<longleftrightarrow> (\<forall>kvs. jtext L (JObj kvs) \<noteq> [] \<and> jparse L (jtext L (JObj kvs)) = Some (JObj kvs))"

section \<open>Encode and Decode\<close>

definition Encode :: "bytes \<Rightarrow> gopanic + bytes" where
  "Encode buff = sbind (CodecEncode buff (length buff) ENCODE_LOOP_XOR)
     (\<lambda>b. Inr (EncodeToString b))"

datatype jsonErr = Base64Error | SyntaxError | UnKnowCmdType

definition Decode :: "bytes \<Rightarrow> gopanic + (jsonErr + bytes)" where
  "Decode buff =
     (case DecodeString buff of None \<Rightarrow> Inr (Inl Base64Error)
      | Some b \<Rightarrow> sbind (CodecDecode b (length b) ENCODE_LOOP_XOR) (\<lambda>b. Inr (Inr b)))"

section \<open>packJson\<close>

text \<open>
  The object of a message. Keys appear in the order in which \<^verbatim>\<open>Marshal\<close> writes the keys of a
  map, which is sorted. The message types without a branch leave \<^verbatim>\<open>buf\<close> nil.
\<close>

definition jint :: "int \<Rightarrow> json" where "jint i = JNum (of_int i)"

definition cmdObject :: "Header \<Rightarrow> (string \<times> json) list \<Rightarrow> json" where
  "cmdObject h data =
     JObj [(''cmd'', jint (GetMsgType h)), (''data'', JObj data), (''tid'', jint (uint (Tid h)))]"

fun jsonBody :: "message \<Rightarrow> json option" where
  "jsonBody (MPush h ah p msg) = Some (cmdObject h [(''msg'', JStr msg)])"
| "jsonBody (MCallback h ah msg) = Some (cmdObject h [(''msg'', JStr msg)])"
| "jsonBody (MImDown h ah flag msg) = Some (cmdObject h [(''msg'', JStr msg)])"
| "jsonBody (MResp h ah p) = Some (cmdObject h [(''code'', jint (uint (Code p)))])"
| "jsonBody (MKick h ah reason) = Some (cmdObject h [(''reson'', jint (uint reason))])"
| "jsonBody m = None"

definition packJson :: "jsonlib \<Rightarrow> message \<Rightarrow> gopanic + bytes" where
  "packJson L m =
     Encode (case jsonBody m of None \<Rightarrow> [] | Some v \<Rightarrow> jtext L v)"

definition Pack :: "jsonlib \<Rightarrow> message \<Rightarrow> int \<Rightarrow> gopanic + bytes" where
  "Pack L m protocol =
     (if protocol = PROTOCOL_TYPE_BINARY then packBinary m
      else if protocol = PROTOCOL_TYPE_JSON then packJson L m
      else Inr [])"

section \<open>UnPackJson\<close>

text \<open>
  A map read of a missing key gives nil, and a type assertion on a value of another type
  panics. Of two equal keys in the text the later one wins. Conversions from \<^verbatim>\<open>float64\<close>
  to integers drop the fraction; \<^verbatim>\<open>byte\<close> and \<^verbatim>\<open>uint32\<close> keep the low bits.
\<close>

definition field :: "(string \<times> json) list \<Rightarrow> string \<Rightarrow> json" where
  "field kvs k = (case map_of (rev kvs) k of None \<Rightarrow> JNull | Some v \<Rightarrow> v)"

definition truncFloat :: "rat \<Rightarrow> int" where
  "truncFloat x = (if 0 \<le> x then \<lfloor>x\<rfloor> else \<lceil>x\<rceil>)"

fun asNumber :: "json \<Rightarrow> gopanic + int" where
  "asNumber (JNum x) = Inr (truncFloat x)"
| "asNumber _ = Inl TypeAssertion"

fun asObject :: "json \<Rightarrow> gopanic + (string \<times> json) list" where
  "asObject (JObj kvs) = Inr kvs"
| "asObject _ = Inl TypeAssertion"

fun asString :: "json \<Rightarrow> gopanic + bytes" where
  "asString (JStr s) = Inr s"
| "asString _ = Inl TypeAssertion"

text \<open>Copying at most 32 bytes into a zeroed \<^verbatim>\<open>[32]byte\<close>.\<close>

definition fill32 :: "bytes \<Rightarrow> bytes" where
  "fill32 s = take 32 s @ replicate (32 - length s) 0"

definition zeroHeader :: Header where "zeroHeader = \<lparr>Line = 0, Tid = 0\<rparr>"

definition newHeader :: "int \<Rightarrow> int \<Rightarrow> Header" where
  "newHeader cmd tid = (SetEncode (SetMsgType zeroHeader cmd) 0)\<lparr>Tid := word_of_int tid\<rparr>"

text \<open>The body of \<^verbatim>\<open>UnPackJson\<close> after \<^verbatim>\<open>json.Unmarshal\<close> into a map.\<close>

definition unpackBody :: "(string \<times> json) list \<Rightarrow> gopanic + (jsonErr + message)" where
  "unpackBody body =
     sbind (asNumber (field body ''cmd'')) (\<lambda>cmd.
     sbind (asNumber (field body ''tid'')) (\<lambda>tid.
     sbind (asObject (field body ''data'')) (\<lambda>data.
       let h = newHeader cmd tid in
       if cmd = MSGTYPE_REGISTER then
         sbind (asNumber (field data ''version'')) (\<lambda>version.
         sbind (asNumber (field data ''termType'')) (\<lambda>termType.
         sbind (asString (field data ''id'')) (\<lambda>uid.
         sbind (asString (field data ''token'')) (\<lambda>token.
           Inr (Inr (MRegister h \<lparr>Len = 66\<rparr>
             \<lparr>Version = word_of_int version, TerminalType = word_of_int termType,
              RegId = fill32 uid, RegToken = fill32 token\<rparr>))))))
       else if cmd = MSGTYPE_HEARTBEAT then Inr (Inr (MHeader h))
       else if cmd \<in> {MSGTYPE_PUSHRESP, MSGTYPE_CBRESP, MSGTYPE_MSGRESP, MSGTYPE_KICKRESP} then
         sbind (asNumber (field data ''code'')) (\<lambda>code.
           Inr (Inr (MResp h \<lparr>Len = 1\<rparr> \<lparr>Code = word_of_int code\<rparr>)))
       else if cmd = MSGTYPE_MESSAGE then
         sbind (asString (field data ''msg'')) (\<lambda>content.
           Inr (Inr (MImUp h \<lparr>Len = of_nat (length content)\<rparr> content)))
       else Inr (Inl UnKnowCmdType))))"

text \<open>\<^verbatim>\<open>null\<close> unmarshals into a nil map, any other non-object is an error.\<close>

fun asMap :: "json option \<Rightarrow> (string \<times> json) list option" where
  "asMap (Some (JObj kvs)) = Some kvs"
| "asMap (Some JNull) = Some []"
| "asMap _ = None"

definition UnPackJson :: "jsonlib \<Rightarrow> bytes \<Rightarrow> gopanic + (jsonErr + message)" where
  "UnPackJson L buffer =
     sbind (Decode buffer) (\<lambda>r.
       case r of Inl err \<Rightarrow> Inr (Inl err)
       | Inr b \<Rightarrow>
           (case asMap (jparse L b) of None \<Rightarrow> Inr (Inl SyntaxError)
            | Some body \<Rightarrow> unpackBody body))"

section \<open>The transport layer\<close>

lemma Encode_Decode:
  assumes "buff \<noteq> []"
  obtains w where "Encode buff = Inr w" "Decode w = Inr (Inr buff)"
proof -
  have "codec_ok buff (length buff) ENCODE_LOOP_XOR" using assms by (simp add: codec_ok_def)
  then obtain b where b: "CodecEncode buff (length buff) ENCODE_LOOP_XOR = Inr b"
      "length b = length buff" "CodecDecode b (length buff) ENCODE_LOOP_XOR = Inr buff"
    by (rule body.enc_obtain)
  have "Encode buff = Inr (EncodeToString b)" using b by (simp add: Encode_def)
  moreover have "Decode (EncodeToString b) = Inr (Inr buff)" using b by (simp add: Decode_def)
  ultimately show thesis using that by blast
qed

lemma UnPackJson_text:
  assumes "jsonlib_ok L" "Encode (jtext L (JObj kvs)) = Inr w"
  shows "UnPackJson L w = unpackBody kvs"
proof -
  have ne: "jtext L (JObj kvs) \<noteq> []" and rt: "jparse L (jtext L (JObj kvs)) = Some (JObj kvs)"
    using assms(1) by (auto simp: jsonlib_ok_def)
  from ne obtain w' where "Encode (jtext L (JObj kvs)) = Inr w'"
      "Decode w' = Inr (Inr (jtext L (JObj kvs)))"
    by (rule Encode_Decode)
  with assms(2) rt show ?thesis by (simp add: UnPackJson_def)
qed

lemma newHeader_simps [simp]:
  "0 \<le> cmd \<Longrightarrow> cmd < 64 \<Longrightarrow> GetMsgType (newHeader cmd tid) = cmd"
  "0 \<le> cmd \<Longrightarrow> cmd < 64 \<Longrightarrow> GetEncode (newHeader cmd tid) = 0"
  "Tid (newHeader cmd tid) = word_of_int tid"
proof -
  have "GetMsgType (h\<lparr>Tid := w\<rparr>) = GetMsgType h" "GetEncode (h\<lparr>Tid := w\<rparr>) = GetEncode h" for h w
    by (simp_all add: GetMsgType_def GetEncode_def)
  then show "0 \<le> cmd \<Longrightarrow> cmd < 64 \<Longrightarrow> GetMsgType (newHeader cmd tid) = cmd"
    "0 \<le> cmd \<Longrightarrow> cmd < 64 \<Longrightarrow> GetEncode (newHeader cmd tid) = 0"
    "Tid (newHeader cmd tid) = word_of_int tid"
    by (simp_all add: newHeader_def header_simps)
qed

lemma length_fill32 [simp]: "length (fill32 s) = 32"
  by (simp add: fill32_def)

lemma truncFloat_of_int [simp]: "truncFloat (of_int i) = i"
  by (simp add: truncFloat_def)

lemma asNumber_jint [simp]: "asNumber (jint i) = Inr i"
  by (simp add: jint_def)

section \<open>Properties\<close>

lemma field_simps [simp]:
  "field [(a, x), (b, y), (c, z)] k =
     (if k = c then z else if k = b then y else if k = a then x else JNull)"
  "field [(a, x), (b, y), (c, z), (d, u)] k =
     (if k = d then u else if k = c then z else if k = b then y else if k = a then x else JNull)"
  "field [(a, x)] k = (if k = a then x else JNull)"
  by (simp_all add: field_def)

text \<open>A library that keeps the promise: the text of a value is its place in a list of texts.\<close>

definition oneTextLib :: "json \<Rightarrow> jsonlib" where
  "oneTextLib v = \<lparr>jtext = (\<lambda>_. [123]), jparse = (\<lambda>_. Some v)\<rparr>"

text \<open>What a websocket client acknowledges reaches the comet unchanged: for each of the four
  response types, \<^verbatim>\<open>UnPackJson\<close> of the packed response gives a response with the same type,
  transaction id and code, with no encoding and length 1.\<close>

theorem json_response_roundtrip:
  assumes "jtext L v \<noteq> []" "jparse L (jtext L v) = Some v"
    and "v = cmdObject h [(''code'', jint (uint (Code p)))]"
    and "GetMsgType h \<in> {MSGTYPE_PUSHRESP, MSGTYPE_CBRESP, MSGTYPE_MSGRESP, MSGTYPE_KICKRESP}"
  shows "\<exists>w h'. packJson L (MResp h ah p) = Inr w \<and>
    UnPackJson L w = Inr (Inr (MResp h' \<lparr>Len = 1\<rparr> p)) \<and>
    GetMsgType h' = GetMsgType h \<and> Tid h' = Tid h \<and> GetEncode h' = ENCODE_DEFAULT"
proof -
  from assms(1) obtain w where w: "Encode (jtext L v) = Inr w" "Decode w = Inr (Inr (jtext L v))"
    by (rule Encode_Decode)
  let ?h = "newHeader (GetMsgType h) (uint (Tid h))"
  have "packJson L (MResp h ah p) = Inr w"
    using w(1) assms(3) by (simp add: packJson_def)
  moreover have "UnPackJson L w = Inr (Inr (MResp ?h \<lparr>Len = 1\<rparr> p))"
    using w(2) assms by (auto simp: UnPackJson_def cmdObject_def unpackBody_def Let_def)
  moreover have "GetMsgType ?h = GetMsgType h" "Tid ?h = Tid h" "GetEncode ?h = ENCODE_DEFAULT"
    using GetMsgType_range [of h] by simp_all
  ultimately show ?thesis by blast
qed

theorem json_response_roundtrip_witness:
  "\<exists>w h'. packJson (oneTextLib (cmdObject \<lparr>Line = 6, Tid = 9\<rparr> [(''code'', jint (uint (3::byte)))]))
      (MResp \<lparr>Line = 6, Tid = 9\<rparr> \<lparr>Len = 1\<rparr> \<lparr>Code = 3\<rparr>) = Inr w \<and>
    UnPackJson (oneTextLib (cmdObject \<lparr>Line = 6, Tid = 9\<rparr> [(''code'', jint (uint (3::byte)))])) w
      = Inr (Inr (MResp h' \<lparr>Len = 1\<rparr> \<lparr>Code = 3\<rparr>)) \<and>
    GetMsgType h' = GetMsgType \<lparr>Line = 6, Tid = 9\<rparr> \<and> Tid h' = Tid \<lparr>Line = 6, Tid = 9\<rparr> \<and>
    GetEncode h' = ENCODE_DEFAULT"
  by (rule json_response_roundtrip) (simp_all add: oneTextLib_def GetMsgType_def)

text \<open>A websocket registration: from a text that decodes to an object with the registration
  command, \<^verbatim>\<open>UnPackJson\<close> gives a well-formed \<^verbatim>\<open>Register\<close> whose id and token are the first 32
  bytes of the strings sent, padded with zeros, so that the body length 66 it announces is
  right; fractions of the numbers are dropped and version and type are cut to a byte.\<close>

theorem json_register:
  assumes "jtext L v \<noteq> []" "jparse L (jtext L v) = Some v"
    and "v = JObj [(''cmd'', JNum c), (''data'', JObj [(''id'', JStr uid), (''termType'', JNum tt),
               (''token'', JStr token), (''version'', JNum ver)]), (''tid'', JNum tid)]"
    and "truncFloat c = MSGTYPE_REGISTER"
  shows "\<exists>w h r. Encode (jtext L v) = Inr w \<and> UnPackJson L w = Inr (Inr (MRegister h \<lparr>Len = 66\<rparr> r)) \<and>
    wf_message (MRegister h \<lparr>Len = 66\<rparr> r) \<and> GetMsgType h = MSGTYPE_REGISTER \<and>
    Tid h = word_of_int (truncFloat tid) \<and> TerminalType r = word_of_int (truncFloat tt) \<and>
    RegId r = take 32 uid @ replicate (32 - length uid) 0 \<and>
    RegToken r = take 32 token @ replicate (32 - length token) 0"
proof -
  from assms(1) obtain w where w: "Encode (jtext L v) = Inr w" "Decode w = Inr (Inr (jtext L v))"
    by (rule Encode_Decode)
  let ?h = "newHeader MSGTYPE_REGISTER (truncFloat tid)"
  let ?r = "\<lparr>Version = word_of_int (truncFloat ver), TerminalType = word_of_int (truncFloat tt),
    RegId = fill32 uid, RegToken = fill32 token\<rparr>"
  have wf: "wf_ParamReg ?r" by (simp add: wf_ParamReg_def)
  have "UnPackJson L w = Inr (Inr (MRegister ?h \<lparr>Len = 66\<rparr> ?r))"
    using w(2) assms by (simp add: UnPackJson_def unpackBody_def)
  moreover have "wf_message (MRegister ?h \<lparr>Len = 66\<rparr> ?r)"
    using wf by (simp add: wf_message_def codec_ok_def)
  ultimately show ?thesis using w(1) by (auto simp: fill32_def)
qed

theorem json_register_witness:
  "\<exists>w h r. Encode (jtext (oneTextLib (JObj [(''cmd'', JNum 1), (''data'', JObj [(''id'', JStr [117]),
        (''termType'', JNum 8), (''token'', JStr [116]), (''version'', JNum 1)]), (''tid'', JNum 5)]))
      (JObj [(''cmd'', JNum 1), (''data'', JObj [(''id'', JStr [117]),
        (''termType'', JNum 8), (''token'', JStr [116]), (''version'', JNum 1)]), (''tid'', JNum 5)]))
      = Inr w \<and>
    UnPackJson (oneTextLib (JObj [(''cmd'', JNum 1), (''data'', JObj [(''id'', JStr [117]),
        (''termType'', JNum 8), (''token'', JStr [116]), (''version'', JNum 1)]), (''tid'', JNum 5)])) w
      = Inr (Inr (MRegister h \<lparr>Len = 66\<rparr> r)) \<and>
    wf_message (MRegister h \<lparr>Len = 66\<rparr> r) \<and> GetMsgType h = MSGTYPE_REGISTER \<and>
    Tid h = word_of_int (truncFloat 5) \<and> TerminalType r = word_of_int (truncFloat 8) \<and>
    RegId r = take 32 [117] @ replicate (32 - length [117::byte]) 0 \<and>
    RegToken r = take 32 [116] @ replicate (32 - length [116::byte]) 0"
  by (rule json_register [where c = 1 and ver = 1]) (simp_all add: oneTextLib_def truncFloat_def)

text \<open>\<^verbatim>\<open>packJson\<close> serves the five messages a comet sends down to a websocket; for the messages
  without a branch (register, upward message, heartbeat) the buffer stays empty and the
  encoding panics.\<close>

theorem packJson_panics_without_branch:
  assumes "\<forall>kvs. jtext L (JObj kvs) \<noteq> []"
  shows "(\<exists>p. packJson L m = Inl p) \<longleftrightarrow>
    (case m of MRegister _ _ _ \<Rightarrow> True | MImUp _ _ _ \<Rightarrow> True | MHeader _ \<Rightarrow> True | _ \<Rightarrow> False)"
proof -
  have "\<exists>w. Encode (jtext L (JObj kvs)) = Inr w" for kvs
    using assms by (metis Encode_Decode)
  then have ok: "\<exists>w. Encode (jtext L (cmdObject h d)) = Inr w" for h d
    by (simp add: cmdObject_def)
  have bad: "Encode [] = Inl IndexOutOfRange"
    using CodecEncode_xor_0 [of "[]"] by (simp add: Encode_def)
  show ?thesis
  proof (cases "jsonBody m")
    case None
    with bad show ?thesis by (cases m) (auto simp: packJson_def)
  next
    case (Some v)
    then obtain h d where "v = cmdObject h d" by (cases m) auto
    with ok [of h d] Some show ?thesis by (cases m) (auto simp: packJson_def)
  qed
qed

theorem packJson_panics_without_branch_witness:
  "(\<exists>p. packJson (oneTextLib JNull) (MHeader \<lparr>Line = 3, Tid = 0\<rparr>) = Inl p) \<longleftrightarrow>
    (case MHeader \<lparr>Line = 3, Tid = 0\<rparr> of MRegister _ _ _ \<Rightarrow> True | MImUp _ _ _ \<Rightarrow> True
     | MHeader _ \<Rightarrow> True | _ \<Rightarrow> False)"
  by (rule packJson_panics_without_branch) (simp add: oneTextLib_def)

end
