(* ===== verification/Apns.thy ===== *)
theory Apns
  imports JsonProto
begin

text \<open>
  \<^verbatim>\<open>src/comet/apns.go\<close>: the notification an offline iPhone gets instead of a push. The
  APNS client is a parameter, \<open>send\<close>: it gives the HTTP status of Apple's answer or fails.
  \<open>sounds\<close> is the variable \<^verbatim>\<open>iOSSound\<close>, which the package's \<^verbatim>\<open>init\<close> sets (\<open>apnsInit\<close>).
\<close>

record Notification =
  deviceToken :: string
  alertTitle :: bytes
  alertBody :: bytes
  sound :: string
  customMsgId :: bytes

datatype apnsErr = BadBody | SendFailed | BadStatus nat

definition iOSSound :: "string list" where
  "iOSSound = [''default.mp3'', ''chatnotify.mp3'', ''tasknotify.mp3'']"

text \<open>\<^verbatim>\<open>x, _ := m[k].(string)\<close> and \<^verbatim>\<open>.(float64)\<close>: the zero value when the type is another.\<close>

fun strOr :: "json \<Rightarrow> bytes" where
  "strOr (JStr s) = s"
| "strOr _ = []"

fun numOr :: "json \<Rightarrow> int" where
  "numOr (JNum x) = truncFloat x"
| "numOr _ = 0"

definition buildNotification :: "string list \<Rightarrow> (string \<times> json) list \<Rightarrow> string \<Rightarrow> int \<Rightarrow> gopanic + Notification" where
  "buildNotification sounds m token flag =
     (let msgId = strOr (field m ''MSG00101''); content = strOr (field m ''MSG00109'');
          sender = strOr (field m ''MSG00103''); receiver = strOr (field m ''MSG00105'');
          sessType = numOr (field m ''MSG00107'');
          (title, content) = (if sessType = 1 then (sender, content)
            else (receiver, sender @ [58] @ content))
      in if flag < 0 then Inl IndexOutOfRange
         else sbind (idx sounds (nat flag)) (\<lambda>snd.
           Inr \<lparr>deviceToken = token, alertTitle = title, alertBody = content, sound = snd,
             customMsgId = msgId\<rparr>))"

text \<open>
  \<^verbatim>\<open>apnsPush\<close>: a failed send is tried once more; a panic is recovered and reads as the nil
  error, which is \<open>None\<close>.
\<close>

definition apnsPush :: "jsonlib \<Rightarrow> string list \<Rightarrow> (Notification \<Rightarrow> 'w \<Rightarrow> nat option \<times> 'w) \<Rightarrow> string \<Rightarrow> bytes \<Rightarrow> int \<Rightarrow>
    'w \<Rightarrow> apnsErr option \<times> 'w" where
  "apnsPush L sounds send token body flag w =
     (case asMap (jparse L body) of
        None \<Rightarrow> (Some BadBody, w)
      | Some m \<Rightarrow>
          (case buildNotification sounds m token flag of
             Inl panic \<Rightarrow> (None, w)
           | Inr n \<Rightarrow>
               (let (res, w) = send n w;
                    (res, w) = (if res = None then send n w else (res, w))
                in case res of
                     None \<Rightarrow> (Some SendFailed, w)
                   | Some code \<Rightarrow> (if code \<noteq> 200 then Some (BadStatus code) else None, w))))"

text \<open>
  A flag that names no sound makes the notification panic: it is not sent. Before \<^verbatim>\<open>init\<close> has
  read the certificate that is every flag.
\<close>

lemma buildNotification_no_sound:
  assumes "flag < 0 \<or> length sounds \<le> nat flag"
  shows "buildNotification sounds m token flag = Inl IndexOutOfRange"
  using assms by (auto simp: buildNotification_def idx_def Let_def)

lemma apnsPush_no_sound:
  assumes "flag < 0 \<or> length sounds \<le> nat flag"
  shows "snd (apnsPush L sounds send token body flag w) = w"
  using buildNotification_no_sound [OF assms] by (auto simp: apnsPush_def split: option.split)

end
