(* ===== verification/Format.thy ===== *)
theory Format
  imports Prelude
begin

text \<open>
  The formatting the program uses to build keys: \<^verbatim>\<open>fmt.Sprintf\<close> with \<^verbatim>\<open>%d\<close> and
  \<^verbatim>\<open>%s-%d\<close>, and the conversion of a byte array to a string.
\<close>

section \<open>Decimal numbers\<close>

definition digitChar :: "nat \<Rightarrow> char" where
  "digitChar n = char_of (48 + n)"

fun showNat :: "nat \<Rightarrow> string" where
  "showNat n = (if n < 10 then [digitChar n] else showNat (n div 10) @ [digitChar (n mod 10)])"

declare showNat.simps [simp del]

definition showInt :: "int \<Rightarrow> string" where
  "showInt i = (if i < 0 then CHR ''-'' # showNat (nat (- i)) else showNat (nat i))"

lemma of_char_digitChar: "n < 10 \<Longrightarrow> of_char (digitChar n) = (48 + n :: nat)"
proof -
  assume "n < 10"
  then have "(48 + n) mod 256 = 48 + n" by (intro mod_less) linarith
  then show ?thesis by (simp only: digitChar_def of_char_of)
qed

lemma digitChar_inj: "m < 10 \<Longrightarrow> n < 10 \<Longrightarrow> digitChar m = digitChar n \<Longrightarrow> m = n"
  by (metis add_left_cancel of_char_digitChar)

lemma digitChar_not_minus: "n < 10 \<Longrightarrow> digitChar n \<noteq> CHR ''-''"
proof
  assume n: "n < 10" and eq: "digitChar n = CHR ''-''"
  have "of_char (digitChar n) = (of_char (CHR ''-'') :: nat)" by (simp only: eq)
  moreover have "(of_char (CHR ''-'') :: nat) = 45" by simp
  ultimately show False using of_char_digitChar [OF n] by linarith
qed

lemma showNat_not_Nil [simp]: "showNat n \<noteq> []" "[] \<noteq> showNat n"
  by (subst showNat.simps, simp)+

lemma showNat_no_minus: "CHR ''-'' \<notin> set (showNat n)"
proof (induction n rule: showNat.induct)
  case (1 n)
  then show ?case
    using digitChar_not_minus [of n] digitChar_not_minus [of "n mod 10"]
    by (subst showNat.simps) (auto simp: eq_commute [of "CHR ''-''"])
qed

lemma showNat_inj: "showNat m = showNat n \<Longrightarrow> m = n"
proof (induction m arbitrary: n rule: showNat.induct)
  case (1 m)
  show ?case
  proof (cases "m < 10"; cases "n < 10")
    assume "m < 10" "n < 10"
    with "1.prems" show ?thesis
      using digitChar_inj by (simp add: showNat.simps [of m] showNat.simps [of n])
  next
    assume "m < 10" "\<not> n < 10"
    with "1.prems" show ?thesis
      by (simp add: showNat.simps [of m] showNat.simps [of n] append_eq_Cons_conv)
  next
    assume "\<not> m < 10" "n < 10"
    with "1.prems" show ?thesis
      by (simp add: showNat.simps [of m] showNat.simps [of n] append_eq_Cons_conv)
  next
    assume big: "\<not> m < 10" "\<not> n < 10"
    with "1.prems" have "showNat (m div 10) = showNat (n div 10)" "digitChar (m mod 10) = digitChar (n mod 10)"
      by (simp_all add: showNat.simps [of m] showNat.simps [of n])
    with big "1.IH" have "m div 10 = n div 10" "m mod 10 = n mod 10"
      by (auto intro: digitChar_inj)
    then show ?thesis by (metis div_mult_mod_eq)
  qed
qed

section \<open>Session keys\<close>

text \<open>\<^verbatim>\<open>fmt.Sprintf("%s-%d", id, plat)\<close>\<close>

definition idf :: "string \<Rightarrow> int \<Rightarrow> string" where
  "idf uid plat = uid @ ''-'' @ showInt plat"

lemma idf_not_Nil [simp]: "idf uid plat \<noteq> []"
  by (simp add: idf_def)

text \<open>
  The key determines user and platform, whatever characters the user id has, because platform
  numbers are not negative.
\<close>

lemma split_last_unique:
  assumes "xs @ c # ys = xs' @ c # ys'" "c \<notin> set ys" "c \<notin> set ys'"
  shows "xs = xs' \<and> ys = ys'"
proof -
  have rev: "rev ys @ c # rev xs = rev ys' @ c # rev xs'"
    using arg_cong [OF assms(1), of rev] by simp
  have tw: "takeWhile (\<lambda>x. x \<noteq> c) (rev zs @ c # ws) = rev zs" if "c \<notin> set zs" for zs ws
    using that by (induction zs rule: rev_induct) auto
  have "rev ys = rev ys'"
    using arg_cong [OF rev, of "takeWhile (\<lambda>x. x \<noteq> c)"] by (simp only: tw assms(2,3) not_False_eq_True)
  with assms(1) show ?thesis by simp
qed

lemma idf_inj:
  assumes "idf uid plat = idf uid' plat'" "0 \<le> plat" "0 \<le> plat'"
  shows "uid = uid'" "plat = plat'"
proof -
  have "uid @ CHR ''-'' # showNat (nat plat) = uid' @ CHR ''-'' # showNat (nat plat')"
    using assms by (simp add: idf_def showInt_def)
  then have "uid = uid' \<and> showNat (nat plat) = showNat (nat plat')"
    by (rule split_last_unique) (rule showNat_no_minus)+
  then show "uid = uid'" "plat = plat'" 
    using assms(2,3) showNat_inj [of "nat plat" "nat plat'"] by auto
qed

section \<open>Byte arrays and strings\<close>

definition stringOf :: "bytes \<Rightarrow> string" where
  "stringOf b = map (\<lambda>w. char_of (unat w)) b"

definition bytesOf :: "string \<Rightarrow> bytes" where
  "bytesOf s = map (\<lambda>c. of_nat (of_char c)) s"

lemma bytesOf_stringOf [simp]: "bytesOf (stringOf b) = b"
proof -
  have "(of_nat (of_char (char_of (unat w))) :: byte) = w" for w :: byte
    using unsigned_less [where 'b = 8 and 'a = nat, of w] unfolding of_char_of by simp
  then show ?thesis by (simp add: bytesOf_def stringOf_def map_idI)
qed

text \<open>\<^verbatim>\<open>bytesValidLen\<close>: the index of the first zero byte, or the length.\<close>

fun validLen :: "bytes \<Rightarrow> nat \<Rightarrow> nat" where
  "validLen [] i = i"
| "validLen (x # xs) i = (if x = 0 then i else validLen xs (i + 1))"

definition bytesValidLen :: "bytes \<Rightarrow> nat" where
  "bytesValidLen b = validLen b 0"

lemma bytesValidLen_takeWhile: "take (bytesValidLen b) b = takeWhile (\<lambda>x. x \<noteq> 0) b"
proof -
  have "validLen b i = i + length (takeWhile (\<lambda>x. x \<noteq> 0) b)" for i
    by (induction b i rule: validLen.induct) auto
  then show ?thesis by (simp add: bytesValidLen_def flip: takeWhile_eq_take)
qed

end
