(* ===== verification/CometState.thy ===== *)
theory CometState
  imports RdsSpec Rpc Apns Format
begin

text \<open>
  The state of the comet process and the operations of \<^verbatim>\<open>src/comet/session.go\<close> and
  \<^verbatim>\<open>util.go\<close>: the two maps of the connection pool, sessions and their transactions.

  Sessions and transactions are shared by pointer between the maps, the handlers and the
  goroutine that watches each transaction, so both live in heaps of the process. A
  transaction carries its timer, the number of values sent to its exit channel and not yet
  received, whether the channel is closed, and where its goroutine stands. The channel holds one
  value; a worker that waits to send a further one is counted with its value and taken for
  finished. That it panics if the channel is closed while it still waits, which takes three
  acknowledgements before the goroutine runs, is not modelled.
\<close>

section \<open>Data\<close>

datatype conn = TCPConn nat string | WSConn nat string | OtherConn nat

datatype timer = NoTimer | Armed nat | Ticked | Drained | Stopped

datatype gopc = Unstarted | Waiting | Saving | Signalling | Done

record transaction =
  trTid :: int
  trType :: int
  trMsg :: bytes
  trTimer :: timer
  trExit :: nat
  trClosed :: bool
  trPc :: gopc
  trOwner :: ref

record session =
  ses_id :: string
  ses_plat :: int
  ses_conn :: conn
  ses_encode :: int
  ses_tid :: int
  ses_token :: string
  ses_trans :: "ref list"

record ('r, 'w) cenv =
  cStore :: "'r env"
  cTrans :: "'w transport"
  sockWrite :: "conn \<Rightarrow> bytes \<Rightarrow> 'w \<Rightarrow> bool \<times> 'w"
  sockClose :: "conn \<Rightarrow> 'w \<Rightarrow> 'w"
  apnsSounds :: "string list"
  apnsSend :: "Notification \<Rightarrow> 'w \<Rightarrow> nat option \<times> 'w"
  jlib :: jsonlib

record ('r, 'w) Comet =
  cometId :: string
  rpcCli :: RpcClient
  ids :: "string \<rightharpoonup> string"
  sessions :: "string \<rightharpoonup> ref"
  sesObj :: "ref \<Rightarrow> session"
  trObj :: "ref \<Rightarrow> transaction"
  freshRef :: ref
  cstore :: "'r Storager"
  cworld :: 'w

definition zeroSes :: session where
  "zeroSes = \<lparr>ses_id = [], ses_plat = 0, ses_conn = OtherConn 0, ses_encode = 0, ses_tid = 0,
     ses_token = [], ses_trans = []\<rparr>"

definition zeroTrans :: transaction where
  "zeroTrans = \<lparr>trTid = 0, trType = 0, trMsg = [], trTimer = NoTimer, trExit = 0,
     trClosed = False, trPc = Unstarted, trOwner = 0\<rparr>"

section \<open>util.go\<close>

fun protoType :: "conn \<Rightarrow> int" where
  "protoType (TCPConn i a) = PROTOCOL_TYPE_BINARY"
| "protoType (WSConn i a) = PROTOCOL_TYPE_JSON"
| "protoType (OtherConn i) = PROTOCOL_TYPE_DEFAULT"

fun connString :: "conn \<Rightarrow> string" where
  "connString (TCPConn i a) = a"
| "connString (WSConn i a) = a"
| "connString (OtherConn i) = []"

fun closeConn :: "('r, 'w) cenv \<Rightarrow> conn \<Rightarrow> ('r, 'w) Comet \<Rightarrow> ('r, 'w) Comet" where
  "closeConn E (OtherConn i) C = C"
| "closeConn E c C = C\<lparr>cworld := sockClose E c (cworld C)\<rparr>"

text \<open>\<^verbatim>\<open>write\<close> answers \<open>True\<close> for the nil error.\<close>

fun writeConn :: "('r, 'w) cenv \<Rightarrow> conn \<Rightarrow> bytes \<Rightarrow> (('r, 'w) Comet, bool) pcd" where
  "writeConn E (OtherConn i) buf C = (Inr True, C)"
| "writeConn E c buf C =
     (let (ok, w) = sockWrite E c buf (cworld C) in (Inr ok, C\<lparr>cworld := w\<rparr>))"

section \<open>The pool\<close>

definition insertIds :: "string \<Rightarrow> string \<Rightarrow> ('r, 'w) Comet \<Rightarrow> ('r, 'w) Comet" where
  "insertIds addr k C = C\<lparr>ids := (ids C)(addr \<mapsto> k)\<rparr>"

definition deleteIds :: "string \<Rightarrow> ('r, 'w) Comet \<Rightarrow> ('r, 'w) Comet" where
  "deleteIds addr C = C\<lparr>ids := (ids C)(addr := None)\<rparr>"

definition findId :: "string \<Rightarrow> ('r, 'w) Comet \<Rightarrow> string" where
  "findId addr C = (case ids C addr of None \<Rightarrow> [] | Some k \<Rightarrow> k)"

definition insertSessions :: "string \<Rightarrow> ref \<Rightarrow> ('r, 'w) Comet \<Rightarrow> ('r, 'w) Comet" where
  "insertSessions k s C = C\<lparr>sessions := (sessions C)(k \<mapsto> s)\<rparr>"

definition deleteSessions :: "string \<Rightarrow> ('r, 'w) Comet \<Rightarrow> ('r, 'w) Comet" where
  "deleteSessions k C = C\<lparr>sessions := (sessions C)(k := None)\<rparr>"

definition findSessions :: "string \<Rightarrow> ('r, 'w) Comet \<Rightarrow> ref option" where
  "findSessions k C = sessions C k"

section \<open>Sessions and transactions\<close>

definition modSes :: "ref \<Rightarrow> (session \<Rightarrow> session) \<Rightarrow> ('r, 'w) Comet \<Rightarrow> ('r, 'w) Comet" where
  "modSes s f C = C\<lparr>sesObj := (sesObj C)(s := f (sesObj C s))\<rparr>"

definition modTrans :: "ref \<Rightarrow> (transaction \<Rightarrow> transaction) \<Rightarrow> ('r, 'w) Comet \<Rightarrow> ('r, 'w) Comet" where
  "modTrans t f C = C\<lparr>trObj := (trObj C)(t := f (trObj C t))\<rparr>"

definition newSes :: "session \<Rightarrow> (('r, 'w) Comet, ref) pcd" where
  "newSes v C =
     (Inr (freshRef C), C\<lparr>sesObj := (sesObj C)(freshRef C := v), freshRef := freshRef C + 1\<rparr>)"

definition newTransaction :: "int \<Rightarrow> int \<Rightarrow> bytes \<Rightarrow> (('r, 'w) Comet, ref) pcd" where
  "newTransaction tid msgType msg C =
     (Inr (freshRef C),
      C\<lparr>trObj := (trObj C)(freshRef C := zeroTrans\<lparr>trTid := tid, trType := msgType, trMsg := msg\<rparr>),
        freshRef := freshRef C + 1\<rparr>)"

definition MaxUint32 :: int where "MaxUint32 = 2 ^ 31 - 1"

definition bumpTid :: "int \<Rightarrow> int" where
  "bumpTid t = (if t + 1 \<ge> MaxUint32 then 1 else t + 1)"

definition nextTid :: "ref \<Rightarrow> (('r, 'w) Comet, int) pcd" where
  "nextTid s C =
     (let t = bumpTid (ses_tid (sesObj C s)) in (Inr t, modSes s (\<lambda>v. v\<lparr>ses_tid := t\<rparr>) C))"

text \<open>\<^verbatim>\<open>timer.Stop()\<close>: a timer that has ticked keeps its tick in the channel.\<close>

fun stopTimer :: "timer \<Rightarrow> gopanic + timer" where
  "stopTimer NoTimer = Inl NilDeref"
| "stopTimer (Armed n) = Inr Stopped"
| "stopTimer t = Inr t"

definition stopTrans :: "ref \<Rightarrow> (('r, 'w) Comet, unit) pcd" where
  "stopTrans t C =
     (case stopTimer (trTimer (trObj C t)) of
        Inl p \<Rightarrow> (Inl p, C)
      | Inr tm \<Rightarrow> (Inr (), modTrans t (\<lambda>v. v\<lparr>trTimer := tm\<rparr>) C))"

text \<open>Unregistering only stops the timers.\<close>

definition destroy :: "ref \<Rightarrow> (('r, 'w) Comet, unit) pcd" where
  "destroy s C = pforeach (ses_trans (sesObj C s)) stopTrans C"

definition saveTransaction :: "ref \<Rightarrow> ref \<Rightarrow> ('r, 'w) Comet \<Rightarrow> ('r, 'w) Comet" where
  "saveTransaction s t = modSes s (\<lambda>v. v\<lparr>ses_trans := ses_trans v @ [t]\<rparr>)"

definition getTrans :: "ref \<Rightarrow> int \<Rightarrow> ('r, 'w) Comet \<Rightarrow> ref option" where
  "getTrans s tid C = find (\<lambda>t. trTid (trObj C t) = tid) (ses_trans (sesObj C s))"

text \<open>
  \<^verbatim>\<open>checkTrans\<close> arms the timer (60 seconds for a callback, 5 otherwise) and starts the
  goroutine.
\<close>

definition checkTrans :: "ref \<Rightarrow> ref \<Rightarrow> ('r, 'w) Comet \<Rightarrow> ('r, 'w) Comet" where
  "checkTrans s t = modTrans t (\<lambda>v. v\<lparr>trTimer := Armed (if trType v \<noteq> MSGTYPE_CALLBACK then 5 else 60),
     trPc := Waiting, trOwner := s\<rparr>)"

text \<open>\<^verbatim>\<open>delTrans\<close>: the first transaction with the id is stopped, its channel closed, and removed.\<close>

definition delTrans :: "ref \<Rightarrow> int \<Rightarrow> (('r, 'w) Comet, unit) pcd" where
  "delTrans s tid C =
     (case getTrans s tid C of
        None \<Rightarrow> (Inr (), C)
      | Some t \<Rightarrow>
          pbind (stopTrans t) (\<lambda>_ C.
            if trClosed (trObj C t) then (Inl SendOnClosed, C)
            else (Inr (), modSes s (\<lambda>v. v\<lparr>ses_trans := remove1 t (ses_trans v)\<rparr>)
                    (modTrans t (\<lambda>v. v\<lparr>trClosed := True\<rparr>) C))) C)"

text \<open>
  The messages the goroutine keeps for later when its timer ticks: a push for Android, a
  callback or an instant message for anything but the web.
\<close>

definition keepOffline :: "('r, 'w) cenv \<Rightarrow> session \<Rightarrow> transaction \<Rightarrow> ('r, 'w) Comet \<Rightarrow> ('r, 'w) Comet" where
  "keepOffline E p t C =
     (if trType t = MSGTYPE_PUSH \<and> ses_plat p = PLAT_ANDROID
      then C\<lparr>cstore := SavePushMsg (cStore E) (ses_id p) (ses_plat p) (trMsg t) (cstore C)\<rparr>
      else if trType t = MSGTYPE_CALLBACK \<and> ses_plat p \<noteq> PLAT_WEB
      then C\<lparr>cstore := SaveCallbackMsg (cStore E) (ses_id p) (ses_plat p) (trMsg t) (cstore C)\<rparr>
      else if trType t = MSGTYPE_MESSAGE \<and> ses_plat p \<noteq> PLAT_WEB
      then C\<lparr>cstore := SaveImMsg (cStore E) (ses_id p) (ses_plat p) (trMsg t) (cstore C)\<rparr>
      else C)"

text \<open>
  The steps of one transaction goroutine: the timer ticks; the select takes the tick; the
  message is kept; the goroutine sends to its own exit channel, which has room for one value
  only; the select takes an exit value (or finds the channel closed) and the goroutine ends.
\<close>

inductive gostep :: "('r, 'w) cenv \<Rightarrow> ref \<Rightarrow> ('r, 'w) Comet \<Rightarrow> ('r, 'w) Comet \<Rightarrow> bool"
  for E :: "('r, 'w) cenv" where
  tick: "trTimer (trObj C t) = Armed n \<Longrightarrow>
     gostep E t C (modTrans t (\<lambda>v. v\<lparr>trTimer := Ticked\<rparr>) C)"
| timeout: "trPc (trObj C t) = Waiting \<Longrightarrow> trTimer (trObj C t) = Ticked \<Longrightarrow>
     gostep E t C (modTrans t (\<lambda>v. v\<lparr>trTimer := Drained, trPc := Saving\<rparr>) C)"
| save: "trPc (trObj C t) = Saving \<Longrightarrow>
     gostep E t C (modTrans t (\<lambda>v. v\<lparr>trPc := Signalling\<rparr>)
       (keepOffline E (sesObj C (trOwner (trObj C t))) (trObj C t) C))"
| signal: "trPc (trObj C t) = Signalling \<Longrightarrow> \<not> trClosed (trObj C t) \<Longrightarrow> trExit (trObj C t) = 0 \<Longrightarrow>
     gostep E t C (modTrans t (\<lambda>v. v\<lparr>trExit := 1, trPc := Waiting\<rparr>) C)"
| signal_closed: "trPc (trObj C t) = Signalling \<Longrightarrow> trClosed (trObj C t) \<Longrightarrow>
     gostep E t C (modTrans t (\<lambda>v. v\<lparr>trPc := Done\<rparr>) C)"
| exit: "trPc (trObj C t) = Waiting \<Longrightarrow> trExit (trObj C t) > 0 \<or> trClosed (trObj C t) \<Longrightarrow>
     gostep E t C (snd (delTrans (trOwner (trObj C t)) (trTid (trObj C t))
       (modTrans t (\<lambda>v. v\<lparr>trExit := trExit v - 1, trPc := Done\<rparr>) C)))"

inductive_cases gostepE: "gostep E t C C'"

end
