(* ===== verification/CometHandlers.thy ===== *)
theory CometHandlers
  imports CometState
begin

text \<open>
  The handlers of the comet process: client messages (\<^verbatim>\<open>src/comet/socketdo.go\<close>), requests of
  the router (\<^verbatim>\<open>rpcdo.go\<close>) and the delivery of queued messages after a registration
  (\<^verbatim>\<open>offmsg.go\<close>).
\<close>

section \<open>Writing a message and remembering it\<close>

definition cAuth :: "('r, 'w) cenv \<Rightarrow> string \<Rightarrow> int \<Rightarrow> string \<Rightarrow> (('r, 'w) Comet, rpcErr option) pcd" where
  "cAuth E uid plat token C =
     (let (err, w) = Auth (cTrans E) (rpcCli C) uid plat token (cworld C)
      in (Inr err, C\<lparr>cworld := w\<rparr>))"

definition cNotify :: "('r, 'w) cenv \<Rightarrow> string \<Rightarrow> int \<Rightarrow> string \<Rightarrow> int \<Rightarrow> ('r, 'w) Comet \<Rightarrow> ('r, 'w) Comet" where
  "cNotify E uid plat token st C =
     C\<lparr>cworld := snd (Notify (cTrans E) (rpcCli C) uid plat token st (cometId C) (cworld C))\<rparr>"

definition cMsgUpward :: "('r, 'w) cenv \<Rightarrow> string \<Rightarrow> int \<Rightarrow> bytes \<Rightarrow> (('r, 'w) Comet, rpcErr option) pcd" where
  "cMsgUpward E uid plat msg C =
     (let (err, w) = MsgUpward (cTrans E) (rpcCli C) uid plat msg (cworld C)
      in (Inr err, C\<lparr>cworld := w\<rparr>))"

definition cApns :: "('r, 'w) cenv \<Rightarrow> string \<Rightarrow> bytes \<Rightarrow> int \<Rightarrow> ('r, 'w) Comet \<Rightarrow> ('r, 'w) Comet" where
  "cApns E token body flag C =
     C\<lparr>cworld := snd (apnsPush (jlib E) (apnsSounds E) (apnsSend E) token body flag (cworld C))\<rparr>"

text \<open>The header of a new message: type, the session's encoding and a transaction id.\<close>

definition mkHeader :: "int \<Rightarrow> int \<Rightarrow> int \<Rightarrow> Header" where
  "mkHeader msgType encode tid =
     (SetEncode (SetMsgType zeroHeader msgType) encode)\<lparr>Tid := word_of_int tid\<rparr>"

definition response :: "('r, 'w) cenv \<Rightarrow> conn \<Rightarrow> int \<Rightarrow> int \<Rightarrow> u32 \<Rightarrow> byte \<Rightarrow> int \<Rightarrow>
    (('r, 'w) Comet, bool) pcd" where
  "response E c msgType encode tid code protocolType =
     pbind (plift (Pack (jlib E)
         (MResp ((SetEncode (SetMsgType zeroHeader msgType) encode)\<lparr>Tid := tid\<rparr>) \<lparr>Len = 1\<rparr> \<lparr>Code = code\<rparr>)
         protocolType))
       (\<lambda>buf. writeConn E c buf)"

text \<open>
  Send \<open>mk tid\<close> to a session and remember it as a transaction when the write succeeds: the
  sequence that \<^verbatim>\<open>push\<close>, \<^verbatim>\<open>callback\<close>, \<^verbatim>\<open>message\<close> and \<^verbatim>\<open>ProcOfflineMsg\<close> share. The
  answer says whether the write succeeded.
\<close>

definition sendTracked :: "('r, 'w) cenv \<Rightarrow> ref \<Rightarrow> int \<Rightarrow> (int \<Rightarrow> message) \<Rightarrow> bytes \<Rightarrow> int \<Rightarrow>
    (('r, 'w) Comet, bool) pcd" where
  "sendTracked E s msgType mk body ptlType =
     pbind (nextTid s) (\<lambda>tid.
     pbind (plift (Pack (jlib E) (mk tid) ptlType)) (\<lambda>buf.
     pbind (pget (\<lambda>C. ses_conn (sesObj C s))) (\<lambda>c.
     pbind (writeConn E c buf) (\<lambda>ok.
       if \<not> ok then pret False
       else
         pbind (newTransaction tid msgType body) (\<lambda>t.
         pbind (pmod (saveTransaction s t)) (\<lambda>_.
         pbind (pmod (checkTrans s t)) (\<lambda>_. pret True)))))))"

definition storeWith :: "('r Storager \<Rightarrow> 'r Storager) \<Rightarrow> ('r, 'w) Comet \<Rightarrow> ('r, 'w) Comet" where
  "storeWith f C = C\<lparr>cstore := f (cstore C)\<rparr>"

definition flagOf :: "bool \<Rightarrow> byte" where
  "flagOf b = (if b then 1 else 0)"

text \<open>The messages of the four kinds, as the handlers fill them in.\<close>

definition pushMessage :: "int \<Rightarrow> u16 \<Rightarrow> bool \<Rightarrow> bytes \<Rightarrow> int \<Rightarrow> message" where
  "pushMessage encode offline web msg tid =
     MPush (mkHeader MSGTYPE_PUSH encode tid) \<lparr>Len = of_nat (length msg + 3)\<rparr>
       \<lparr>Offline = offline, Flag = flagOf web\<rparr> msg"

definition callbackMessage :: "int \<Rightarrow> bytes \<Rightarrow> int \<Rightarrow> message" where
  "callbackMessage encode msg tid =
     MCallback (mkHeader MSGTYPE_CALLBACK encode tid) \<lparr>Len = of_nat (length msg)\<rparr> msg"

definition imMessage :: "int \<Rightarrow> bool \<Rightarrow> bytes \<Rightarrow> int \<Rightarrow> message" where
  "imMessage encode web msg tid =
     MImDown (mkHeader MSGTYPE_MESSAGE encode tid) \<lparr>Len = of_nat (length msg + 1)\<rparr> (flagOf web) msg"

definition kickMessage :: "int \<Rightarrow> int \<Rightarrow> int \<Rightarrow> message" where
  "kickMessage encode reason tid =
     MKick (mkHeader MSGTYPE_KICK encode tid) \<lparr>Len = 1\<rparr> (word_of_int reason)"

definition webIsOnline :: "string \<Rightarrow> ('r, 'w) Comet \<Rightarrow> bool" where
  "webIsOnline uid C \<longleftrightarrow> findSessions (idf uid PLAT_WEB) C \<noteq> None"

definition ptlOf :: "int \<Rightarrow> int" where
  "ptlOf plat = (if plat = PLAT_WEB then PROTOCOL_TYPE_JSON else PROTOCOL_TYPE_BINARY)"

section \<open>rpcdo.go\<close>

text \<open>What a push to Android or iOS becomes when it cannot be written.\<close>

definition pushFallback :: "('r, 'w) cenv \<Rightarrow> rpcRequest \<Rightarrow> ('r, 'w) Comet \<Rightarrow> ('r, 'w) Comet" where
  "pushFallback E msg C =
     (if puTermtype msg = PLAT_ANDROID
      then storeWith (SavePushMsg (cStore E) (puId msg) (puTermtype msg) (puMsg msg)) C
      else if puTermtype msg = PLAT_IOS then cApns E (puAppleToken msg) (puMsg msg) (puFlag msg) C
      else C)"

definition push :: "('r, 'w) cenv \<Rightarrow> rpcRequest \<Rightarrow> (('r, 'w) Comet, unit) pcd" where
  "push E msg =
     pbind (pget (webIsOnline (puId msg))) (\<lambda>web.
     pbind (pget (findSessions (idf (puId msg) (puTermtype msg)))) (\<lambda>found.
       case found of
         Some s \<Rightarrow>
           pbind (pget (\<lambda>C. ses_encode (sesObj C s))) (\<lambda>encode.
           pbind (sendTracked E s MSGTYPE_PUSH (pushMessage encode 0 web (puMsg msg)) (puMsg msg)
               (ptlOf (puTermtype msg))) (\<lambda>ok.
             if ok then pret () else pmod (pushFallback E msg)))
       | None \<Rightarrow> pmod (pushFallback E msg)))"

definition callbackFallback :: "('r, 'w) cenv \<Rightarrow> rpcRequest \<Rightarrow> ('r, 'w) Comet \<Rightarrow> ('r, 'w) Comet" where
  "callbackFallback E msg C =
     (if puTermtype msg \<noteq> PLAT_WEB
      then storeWith (SaveCallbackMsg (cStore E) (puId msg) (puTermtype msg) (puMsg msg)) C else C)"

definition callback :: "('r, 'w) cenv \<Rightarrow> rpcRequest \<Rightarrow> (('r, 'w) Comet, unit) pcd" where
  "callback E msg =
     pbind (pget (findSessions (idf (puId msg) (puTermtype msg)))) (\<lambda>found.
       case found of
         Some s \<Rightarrow>
           pbind (pget (\<lambda>C. ses_encode (sesObj C s))) (\<lambda>encode.
           pbind (sendTracked E s MSGTYPE_CALLBACK (callbackMessage encode (puMsg msg)) (puMsg msg)
               (ptlOf (puTermtype msg))) (\<lambda>ok.
             if ok then pret () else pmod (callbackFallback E msg)))
       | None \<Rightarrow> pmod (callbackFallback E msg))"

definition messageFallback :: "('r, 'w) cenv \<Rightarrow> rpcRequest \<Rightarrow> ('r, 'w) Comet \<Rightarrow> ('r, 'w) Comet" where
  "messageFallback E msg C =
     (if puTermtype msg \<noteq> PLAT_WEB
      then storeWith (SaveImMsg (cStore E) (puId msg) (puTermtype msg) (puMsg msg)) C else C)"

definition message :: "('r, 'w) cenv \<Rightarrow> rpcRequest \<Rightarrow> (('r, 'w) Comet, unit) pcd" where
  "message E msg =
     pbind (pget (webIsOnline (puId msg))) (\<lambda>web.
     pbind (pget (findSessions (idf (puId msg) (puTermtype msg)))) (\<lambda>found.
       case found of
         Some s \<Rightarrow>
           pbind (pget (\<lambda>C. ses_encode (sesObj C s))) (\<lambda>encode.
           pbind (sendTracked E s MSGTYPE_MESSAGE (imMessage encode web (puMsg msg)) (puMsg msg)
               (ptlOf (puTermtype msg))) (\<lambda>ok.
             if ok then pret () else pmod (messageFallback E msg)))
       | None \<Rightarrow> pmod (messageFallback E msg)))"

text \<open>
  \<^verbatim>\<open>kick\<close>: only the session with the same token is kicked; a failed write is only logged.
\<close>

definition kick :: "('r, 'w) cenv \<Rightarrow> string \<Rightarrow> int \<Rightarrow> string \<Rightarrow> int \<Rightarrow> (('r, 'w) Comet, unit) pcd" where
  "kick E uid plat token reason =
     pbind (pget (findSessions (idf uid plat))) (\<lambda>found.
       case found of
         None \<Rightarrow> pret ()
       | Some s \<Rightarrow>
           pbind (pget (\<lambda>C. sesObj C s)) (\<lambda>v.
             if ses_token v \<noteq> token then pret ()
             else
               pbind (nextTid s) (\<lambda>tid.
               pbind (plift (Pack (jlib E) (kickMessage (ses_encode v) reason tid) (ptlOf plat))) (\<lambda>buf.
               pbind (writeConn E (ses_conn v) buf) (\<lambda>_.
               pbind (pmod (cNotify E (ses_id v) (ses_plat v) (ses_token v) STATE_OFFLINE)) (\<lambda>_.
               pbind (destroy s) (\<lambda>_.
               pbind (pmod (deleteSessions (idf uid plat))) (\<lambda>_.
               pbind (pmod (deleteIds (connString (ses_conn v)))) (\<lambda>_.
                 pmod (closeConn E (ses_conn v)))))))))))"

text \<open>
  The dispatchers of the RPC server. The asynchronous one asserts that the request is a push
  before it looks at its type; both recover from a panic. The synchronous one answers -1 to
  everything, or 0 after a panic.
\<close>

fun RpcAsyncHandleC :: "('r, 'w) cenv \<Rightarrow> rpcRequest \<Rightarrow> (('r, 'w) Comet, unit) pcd" where
  "RpcAsyncHandleC E (PushRequst tp flag uid plat tok msg) =
     (if tp = MSGTYPE_PUSH then push E (PushRequst tp flag uid plat tok msg)
      else if tp = MSGTYPE_CALLBACK then callback E (PushRequst tp flag uid plat tok msg)
      else if tp = MSGTYPE_MESSAGE then message E (PushRequst tp flag uid plat tok msg)
      else pret ())"
| "RpcAsyncHandleC E _ = plift (Inl TypeAssertion)"

fun RpcSyncHandleC :: "('r, 'w) cenv \<Rightarrow> rpcRequest \<Rightarrow> ('r, 'w) Comet \<Rightarrow> int \<times> ('r, 'w) Comet" where
  "RpcSyncHandleC E (KickRequst uid plat token reason) C =
     (case kick E uid plat token reason C of (Inl panic, C) \<Rightarrow> (0, C) | (Inr u, C) \<Rightarrow> (-1, C))"
| "RpcSyncHandleC E _ C = (-1, C)"

section \<open>offmsg.go\<close>

definition offlinePush :: "('r, 'w) cenv \<Rightarrow> ref \<Rightarrow> string \<Rightarrow> int \<Rightarrow> bool \<Rightarrow> (('r, 'w) Comet, unit) pcd" where
  "offlinePush E s uid plat web =
     pbind (\<lambda>C. (let (r, st) = GetPushMsg (cStore E) uid plat (cstore C) in (Inr r, C\<lparr>cstore := st\<rparr>)))
       (\<lambda>r. case r of None \<Rightarrow> pret ()
        | Some a \<Rightarrow>
            pbind (pget (\<lambda>C. derefPush (cstore C) a)) (\<lambda>off.
            pbind (pget (\<lambda>C. ses_encode (sesObj C s))) (\<lambda>encode.
            pbind (sendTracked E s MSGTYPE_PUSH (pushMessage encode (OffCnt off) web (PushMsg off))
                (PushMsg off) PROTOCOL_TYPE_BINARY) (\<lambda>ok.
              if ok then pret ()
              else pmod (storeWith (SavePushMsg (cStore E) uid plat (PushMsg off)))))))"

definition offlineCallback :: "('r, 'w) cenv \<Rightarrow> ref \<Rightarrow> string \<Rightarrow> int \<Rightarrow> Item \<Rightarrow> (('r, 'w) Comet, unit) pcd" where
  "offlineCallback E s uid plat v =
     pbind (pget (\<lambda>C. ses_encode (sesObj C s))) (\<lambda>encode.
     pbind (sendTracked E s MSGTYPE_CALLBACK (callbackMessage encode (Msg v)) (Msg v)
         PROTOCOL_TYPE_BINARY) (\<lambda>ok.
       if ok then pret () else pmod (storeWith (SaveCallbackMsg (cStore E) uid plat (Msg v)))))"

definition offlineIm :: "('r, 'w) cenv \<Rightarrow> ref \<Rightarrow> string \<Rightarrow> int \<Rightarrow> Item \<Rightarrow> (('r, 'w) Comet, unit) pcd" where
  "offlineIm E s uid plat v =
     pbind (pget (\<lambda>C. ses_encode (sesObj C s))) (\<lambda>encode.
     pbind (sendTracked E s MSGTYPE_MESSAGE (imMessage encode (WebOnline v) (Msg v)) (Msg v)
         PROTOCOL_TYPE_BINARY) (\<lambda>ok.
       if ok then pret () else pmod (storeWith (SaveImMsg (cStore E) uid plat (Msg v)))))"

definition takeQueue :: "('r Storager \<Rightarrow> Item list \<times> 'r Storager) \<Rightarrow> (('r, 'w) Comet, Item list) pcd" where
  "takeQueue f C = (let (xs, st) = f (cstore C) in (Inr xs, C\<lparr>cstore := st\<rparr>))"

definition ProcOfflineMsg :: "('r, 'w) cenv \<Rightarrow> ref \<Rightarrow> string \<Rightarrow> int \<Rightarrow> (('r, 'w) Comet, unit) pcd" where
  "ProcOfflineMsg E s uid plat =
     (if plat = PLAT_WEB then pret ()
      else
        pbind (pget (webIsOnline uid)) (\<lambda>web.
        pbind (if plat = PLAT_ANDROID then offlinePush E s uid plat web else pret ()) (\<lambda>_.
        pbind (takeQueue (GetCallbackMsg (cStore E) uid plat)) (\<lambda>offCb.
        pbind (pforeach offCb (offlineCallback E s uid plat)) (\<lambda>_.
        pbind (takeQueue (GetImMsg (cStore E) uid plat)) (\<lambda>offIm.
          pforeach offIm (offlineIm E s uid plat)))))))"

section \<open>socketdo.go\<close>

definition procRegister :: "('r, 'w) cenv \<Rightarrow> conn \<Rightarrow> Header \<Rightarrow> ParamReg \<Rightarrow> (('r, 'w) Comet, unit) pcd" where
  "procRegister E c h request =
     (let uid = stringOf (take (bytesValidLen (RegId request)) (RegId request));
          token = stringOf (take (bytesValidLen (RegToken request)) (RegToken request));
          plat = uint (TerminalType request);
          msgType = GetMsgType h; encode = GetEncode h;
          addr = connString c; pType = protoType c
      in
        pbind (cAuth E uid plat token) (\<lambda>err.
          if err \<noteq> None then
            pbind (response E c (msgType + 1) encode (Tid h) 3 pType) (\<lambda>_. pret ())
          else
            pbind (pget (findId addr)) (\<lambda>known.
              if known \<noteq> [] then
                pbind (response E c (msgType + 1) encode (Tid h) 0 pType) (\<lambda>_. pret ())
              else
                pbind (newSes \<lparr>ses_id = uid, ses_plat = plat, ses_conn = c, ses_encode = encode,
                    ses_tid = 0, ses_token = token, ses_trans = []\<rparr>) (\<lambda>s.
                pbind (pmod (insertSessions (idf uid plat) s)) (\<lambda>_.
                pbind (pmod (insertIds addr (idf uid plat))) (\<lambda>_.
                pbind (response E c (msgType + 1) encode (Tid h) 0 pType) (\<lambda>_.
                pbind (pmod (cNotify E uid plat token STATE_ONLINE)) (\<lambda>_.
                  ProcOfflineMsg E s uid plat))))))))"

definition procUnRegister :: "('r, 'w) cenv \<Rightarrow> conn \<Rightarrow> (('r, 'w) Comet, unit) pcd" where
  "procUnRegister E c =
     pbind (pget (findId (connString c))) (\<lambda>k.
       if k = [] then pret ()
       else
         pbind (pget (findSessions k)) (\<lambda>found.
           case found of None \<Rightarrow> pret ()
           | Some s \<Rightarrow>
               pbind (pget (\<lambda>C. sesObj C s)) (\<lambda>v.
               pbind (pmod (cNotify E (ses_id v) (ses_plat v) (ses_token v) STATE_OFFLINE)) (\<lambda>_.
               pbind (destroy s) (\<lambda>_.
               pbind (pmod (deleteIds (connString c))) (\<lambda>_.
                 pmod (deleteSessions k)))))))"

definition procIm :: "('r, 'w) cenv \<Rightarrow> conn \<Rightarrow> Header \<Rightarrow> bytes \<Rightarrow> (('r, 'w) Comet, unit) pcd" where
  "procIm E c h msg =
     pbind (pget (findId (connString c))) (\<lambda>k.
       if k = [] then pmod (closeConn E c)
       else
         pbind (pget (findSessions k)) (\<lambda>found.
           case found of None \<Rightarrow> pmod (closeConn E c)
           | Some s \<Rightarrow>
               pbind (pget (\<lambda>C. sesObj C s)) (\<lambda>v.
               pbind (cMsgUpward E (ses_id v) (ses_plat v) msg) (\<lambda>err.
               pbind (response E c (GetMsgType h + 1) (GetEncode h) (Tid h)
                   (if err \<noteq> None then 1 else 0) (protoType c)) (\<lambda>_. pret ())))))"

definition procPing :: "('r, 'w) cenv \<Rightarrow> conn \<Rightarrow> Header \<Rightarrow> (('r, 'w) Comet, unit) pcd" where
  "procPing E c h =
     pbind (pget (findId (connString c))) (\<lambda>k.
     pbind (response E c (GetMsgType h + 1) (GetEncode h) (Tid h) (if k \<noteq> [] then 0 else 1)
         (protoType c)) (\<lambda>_. pret ()))"

text \<open>
  \<^verbatim>\<open>procResp\<close>: the acknowledged transaction's timer is stopped and a value sent to its exit
  channel; sending on a closed channel panics. A worker that has to wait for room in the channel
  is not kept as waiting: its value is added at once, to be received when its turn comes.
\<close>

definition sendExit :: "ref \<Rightarrow> (('r, 'w) Comet, unit) pcd" where
  "sendExit t C =
     (if trClosed (trObj C t) then (Inl SendOnClosed, C)
      else (Inr (), modTrans t (\<lambda>v. v\<lparr>trExit := trExit v + 1\<rparr>) C))"

definition procResp :: "('r, 'w) cenv \<Rightarrow> conn \<Rightarrow> Header \<Rightarrow> (('r, 'w) Comet, unit) pcd" where
  "procResp E c h =
     pbind (pget (findId (connString c))) (\<lambda>k.
     pbind (pget (findSessions k)) (\<lambda>found.
       case found of None \<Rightarrow> pret ()
       | Some s \<Rightarrow>
           pbind (pget (getTrans s (uint (Tid h)))) (\<lambda>tr.
             case tr of None \<Rightarrow> pret ()
             | Some t \<Rightarrow> pbind (stopTrans t) (\<lambda>_. sendExit t))))"

text \<open>\<^verbatim>\<open>procTrans\<close>: the type switch; it recovers from a panic.\<close>

fun procTrans :: "('r, 'w) cenv \<Rightarrow> conn \<Rightarrow> message \<Rightarrow> (('r, 'w) Comet, unit) pcd" where
  "procTrans E c (MRegister h ah r) = procRegister E c h r"
| "procTrans E c (MHeader h) = procPing E c h"
| "procTrans E c (MResp h ah p) = procResp E c h"
| "procTrans E c (MImUp h ah msg) = procIm E c h msg"
| "procTrans E c _ = pret ()"

definition onClient :: "('r, 'w) cenv \<Rightarrow> conn \<Rightarrow> message \<Rightarrow> ('r, 'w) Comet \<Rightarrow> ('r, 'w) Comet" where
  "onClient E c m C = snd (procTrans E c m C)"

definition onRpc :: "('r, 'w) cenv \<Rightarrow> rpcRequest \<Rightarrow> ('r, 'w) Comet \<Rightarrow> ('r, 'w) Comet" where
  "onRpc E m C = snd (RpcAsyncHandleC E m C)"

text \<open>The end of a connection: it is closed, then the user is unregistered.\<close>

definition onClose :: "('r, 'w) cenv \<Rightarrow> conn \<Rightarrow> ('r, 'w) Comet \<Rightarrow> ('r, 'w) Comet" where
  "onClose E c C = snd (procUnRegister E c (closeConn E c C))"

end
