(* ===== verification/CometInv.thy ===== *)
theory CometInv
  imports CometHandlers RdsExample
begin

text \<open>
  The comet process as a state machine, and its two invariants: the connection pool (which
  session is registered under which key and address) and the transactions (which goroutine
  watches which message). A step is a whole handler or one step of a transaction goroutine.
\<close>

section \<open>The machine\<close>

text \<open>\<^verbatim>\<open>Init\<close> makes an empty pool; \<open>cid\<close>, \<open>client\<close> and \<open>st\<close> come from the configuration and the dialled router.\<close>

definition newComet :: "string \<Rightarrow> RpcClient \<Rightarrow> 'r Storager \<Rightarrow> 'w \<Rightarrow> ('r, 'w) Comet" where
  "newComet cid client st w = \<lparr>cometId = cid, rpcCli = client, ids = Map.empty, sessions = Map.empty,
     sesObj = (\<lambda>_. zeroSes), trObj = (\<lambda>_. zeroTrans), freshRef = 1, cstore = st, cworld = w\<rparr>"

inductive cstep :: "('r, 'w) cenv \<Rightarrow> ('r, 'w) Comet \<Rightarrow> ('r, 'w) Comet \<Rightarrow> bool"
  for E :: "('r, 'w) cenv" where
  client: "cstep E C (onClient E c m C)"
| rpc: "cstep E C (onRpc E m C)"
| sync: "cstep E C (snd (RpcSyncHandleC E m C))"
| closed: "cstep E C (onClose E c C)"
| go: "gostep E t C C' \<Longrightarrow> cstep E C C'"

inductive creach :: "('r, 'w) cenv \<Rightarrow> ('r, 'w) Comet \<Rightarrow> bool"
  for E :: "('r, 'w) cenv" where
  start: "creach E (newComet cid client st w)"
| step: "creach E C \<Longrightarrow> cstep E C C' \<Longrightarrow> creach E C'"

section \<open>What every statement keeps of the pool\<close>

definition ident :: "session \<Rightarrow> string \<times> int \<times> conn \<times> string" where
  "ident v = (ses_id v, ses_plat v, ses_conn v, ses_token v)"

text \<open>The pool and the identities of the sessions that exist are as they were.\<close>

definition pool_same :: "('r, 'w) Comet \<Rightarrow> ('r, 'w) Comet \<Rightarrow> bool" where
  "pool_same C C' \<longleftrightarrow> ids C' = ids C \<and> sessions C' = sessions C \<and> freshRef C \<le> freshRef C' \<and>
     (\<forall>s < freshRef C. ident (sesObj C' s) = ident (sesObj C s))"

lemma pool_same_refl [simp]: "pool_same C C"
  by (simp add: pool_same_def)

lemma pool_same_trans: "pool_same C C' \<Longrightarrow> pool_same C' C'' \<Longrightarrow> pool_same C C''"
  by (auto simp: pool_same_def)

lemma pool_same_other [simp]:
  "pool_same C (C'\<lparr>cworld := w\<rparr>) = pool_same C C'" "pool_same C (C'\<lparr>cstore := st\<rparr>) = pool_same C C'"
  "pool_same C (C'\<lparr>trObj := tr\<rparr>) = pool_same C C'" "pool_same C (modTrans t f C') = pool_same C C'"
  by (simp_all add: pool_same_def modTrans_def)

lemma pool_same_modSes:
  "(\<And>v. ident (f v) = ident v) \<Longrightarrow> pool_same C (modSes s f C) "
  by (simp add: pool_same_def modSes_def)

text \<open>A procedure that keeps the pool.\<close>

definition quiet :: "(('r, 'w) Comet, 'a) pcd \<Rightarrow> bool" where
  "quiet f \<longleftrightarrow> (\<forall>C. pool_same C (snd (f C)))"

named_theorems quiet_intros \<open>procedures that keep the pool\<close>

lemma quiet_bind [quiet_intros]:
  assumes "quiet m" "\<And>x. quiet (f x)"
  shows "quiet (pbind m f)"
  unfolding quiet_def
proof
  fix C
  obtain r C1 where m: "m C = (r, C1)" by fastforce
  have "pool_same C C1" using assms(1) m by (metis quiet_def snd_conv)
  moreover have "pool_same C1 (snd (f x C1))" for x using assms(2) by (simp add: quiet_def)
  ultimately show "pool_same C (snd (pbind m f C))"
    by (cases r) (auto simp: pbind_def m intro: pool_same_trans)
qed

lemma quiet_basic [quiet_intros]:
  "quiet (pret x)" "quiet (plift r)" "quiet (pget g)"
  by (simp_all add: quiet_def)

lemma quiet_mod: "(\<And>C. pool_same C (h C)) \<Longrightarrow> quiet (pmod h)"
  by (simp add: quiet_def)

lemma quiet_foreach [quiet_intros]: "(\<And>i. quiet (body i)) \<Longrightarrow> quiet (pforeach is body)"
  by (induction "is") (auto intro!: quiet_intros)

lemma quiet_if [quiet_intros]: "quiet f \<Longrightarrow> quiet g \<Longrightarrow> quiet (if b then f else g)"
  by simp

lemma quiet_option [quiet_intros]:
  "quiet f \<Longrightarrow> (\<And>x. quiet (g x)) \<Longrightarrow> quiet (case r of None \<Rightarrow> f | Some x \<Rightarrow> g x)"
  by (cases r) auto

lemma quiet_world [quiet_intros]:
  "quiet (writeConn E c buf)" "quiet (cAuth E uid plat tok)" "quiet (cMsgUpward E uid plat msg)"
  "quiet (pmod (cNotify E uid plat tok st))" "quiet (pmod (closeConn E c))"
  "quiet (pmod (storeWith g))" "quiet (takeQueue q)"
proof -
  show "quiet (writeConn E c buf)" by (cases c) (simp_all add: quiet_def split: prod.split)
  show "quiet (pmod (closeConn E c))" by (cases c) (simp_all add: quiet_def)
qed (simp_all add: quiet_def cAuth_def cMsgUpward_def cNotify_def storeWith_def takeQueue_def split: prod.split)

lemma quiet_fallback [quiet_intros]:
  "quiet (pmod (pushFallback E m))" "quiet (pmod (callbackFallback E m))" "quiet (pmod (messageFallback E m))"
  by (simp_all add: quiet_def pushFallback_def callbackFallback_def messageFallback_def storeWith_def cApns_def)

lemma quiet_trans [quiet_intros]:
  "quiet (nextTid s)" "quiet (newTransaction tid mt body)" "quiet (pmod (saveTransaction s t))"
  "quiet (pmod (checkTrans s t))" "quiet (stopTrans t)" "quiet (sendExit t)"
  by (simp_all add: quiet_def nextTid_def newTransaction_def saveTransaction_def checkTrans_def stopTrans_def
      sendExit_def pool_same_modSes ident_def Let_def split: sum.split)
    (simp add: pool_same_def)

lemma quiet_destroy [quiet_intros]: "quiet (destroy s :: (('r, 'w) Comet, unit) pcd)"
proof -
  have "quiet (pforeach is stopTrans :: (('r, 'w) Comet, unit) pcd)" for "is" :: "ref list"
    by (intro quiet_intros)
  then show ?thesis by (simp add: quiet_def destroy_def)
qed

lemma quiet_sendTracked [quiet_intros]: "quiet (sendTracked E s mt mk body ptl)"
  unfolding sendTracked_def by (intro quiet_intros)

lemma quiet_handlers [quiet_intros]:
  "quiet (push E m)" "quiet (callback E m)" "quiet (message E m)" "quiet (response E c mt en tid code pt)"
  unfolding push_def callback_def message_def response_def by (intro quiet_intros)+

lemma quiet_getPush [quiet_intros]:
  "quiet (\<lambda>C. let (r, st) = GetPushMsg e uid plat (cstore C) in (Inr r, C\<lparr>cstore := st\<rparr>))"
  by (simp add: quiet_def split: prod.split)

lemma quiet_ProcOfflineMsg [quiet_intros]: "quiet (ProcOfflineMsg E s uid plat)"
  unfolding ProcOfflineMsg_def offlinePush_def offlineCallback_def offlineIm_def
  by (intro quiet_intros)

lemma quiet_clients [quiet_intros]:
  "quiet (procIm E c h msg)" "quiet (procPing E c h)" "quiet (procResp E c h)" "quiet (RpcAsyncHandleC E m)"
  unfolding procIm_def procPing_def procResp_def
  by (intro quiet_intros)+ (cases m; simp; intro quiet_intros impI conjI)

lemma quietD: "quiet f \<Longrightarrow> f C = (r, C') \<Longrightarrow> pool_same C C'"
  by (metis quiet_def snd_conv)

lemma pool_same_keepOffline: "pool_same C (keepOffline E p t C)"
  by (simp add: keepOffline_def)

lemma pool_same_delTrans: "pool_same C (snd (delTrans s tid C))"
proof (cases "getTrans s tid C")
  case (Some t)
  obtain r C1 where st: "stopTrans t C = (r, C1)" by fastforce
  have "pool_same C C1" using quiet_trans(5) [of t] st by (metis quietD)
  moreover have "pool_same C1 (modSes s f (modTrans t g C1))" if "\<And>v. ident (f v) = ident v" for f g
    using pool_same_modSes [of f "modTrans t g C1"] that by (auto simp: pool_same_def modTrans_def modSes_def)
  ultimately show ?thesis using Some st
    by (cases r) (auto simp: delTrans_def pbind_def ident_def intro: pool_same_trans)
qed (simp add: delTrans_def)

lemma pool_same_gostep: "gostep E t C C' \<Longrightarrow> pool_same C C'"
  by (cases rule: gostep.cases)
    (auto intro: pool_same_keepOffline pool_same_trans [OF _ pool_same_delTrans])

section \<open>The pool invariant\<close>

text \<open>
  A session in the pool exists, is registered under the key of its own user and platform, and
  the address of its connection leads to that key.
\<close>

definition pool_inv :: "('r, 'w) Comet \<Rightarrow> bool" where
  "pool_inv C \<longleftrightarrow>
     (\<forall>k s. sessions C k = Some s \<longrightarrow> s < freshRef C \<and>
        idf (ses_id (sesObj C s)) (ses_plat (sesObj C s)) = k \<and>
        ids C (connString (ses_conn (sesObj C s))) = Some k) \<and>
     (\<forall>a k. ids C a = Some k \<longrightarrow> k \<noteq> [])"

lemma pool_inv_same: "pool_inv C \<Longrightarrow> pool_same C C' \<Longrightarrow> pool_inv C'"
  unfolding pool_inv_def pool_same_def ident_def by (fastforce dest: order_less_le_trans)

lemma pool_inv_quiet: "quiet f \<Longrightarrow> pool_inv C \<Longrightarrow> pool_inv (snd (f C))"
  using pool_inv_same by (auto simp: quiet_def)

text \<open>A new session under a key and an address that is not in use.\<close>

lemma pool_inv_insert:
  assumes "pool_inv C" "findId (connString c) C = []" "ses_id v = uid" "ses_plat v = plat" "ses_conn v = c"
  shows "pool_inv (insertIds (connString c) (idf uid plat) (insertSessions (idf uid plat) (freshRef C) (snd (newSes v C))))"
proof -
  have free: "ids C (connString c) = None"
    using assms(1,2) by (auto simp: findId_def pool_inv_def split: option.splits)
  show ?thesis
    unfolding pool_inv_def
  proof (intro conjI allI impI)
    fix k s
    assume s: "sessions (insertIds (connString c) (idf uid plat)
      (insertSessions (idf uid plat) (freshRef C) (snd (newSes v C)))) k = Some s"
    have old: "s < freshRef C \<and> idf (ses_id (sesObj C s)) (ses_plat (sesObj C s)) = k \<and>
        ids C (connString (ses_conn (sesObj C s))) = Some k" if "k \<noteq> idf uid plat"
      using s that assms(1) by (auto simp: insertIds_def insertSessions_def newSes_def pool_inv_def)
    show "s < freshRef (insertIds (connString c) (idf uid plat)
        (insertSessions (idf uid plat) (freshRef C) (snd (newSes v C))))"
      using s old by (cases "k = idf uid plat") (auto simp: insertIds_def insertSessions_def newSes_def)
    show "idf (ses_id (sesObj (insertIds (connString c) (idf uid plat)
        (insertSessions (idf uid plat) (freshRef C) (snd (newSes v C)))) s))
        (ses_plat (sesObj (insertIds (connString c) (idf uid plat)
        (insertSessions (idf uid plat) (freshRef C) (snd (newSes v C)))) s)) = k"
      using s old assms(3,4) by (cases "k = idf uid plat") (auto simp: insertIds_def insertSessions_def newSes_def)
    show "ids (insertIds (connString c) (idf uid plat)
        (insertSessions (idf uid plat) (freshRef C) (snd (newSes v C))))
        (connString (ses_conn (sesObj (insertIds (connString c) (idf uid plat)
        (insertSessions (idf uid plat) (freshRef C) (snd (newSes v C)))) s))) = Some k"
      using s old assms(5) free
      by (cases "k = idf uid plat") (auto simp: insertIds_def insertSessions_def newSes_def)
  next
    fix a k
    assume "ids (insertIds (connString c) (idf uid plat)
      (insertSessions (idf uid plat) (freshRef C) (snd (newSes v C)))) a = Some k"
    then show "k \<noteq> []"
      using assms(1) by (auto simp: insertIds_def insertSessions_def newSes_def pool_inv_def split: if_splits)
  qed
qed

text \<open>Removing a session together with the address that leads to it.\<close>

lemma pool_inv_remove:
  assumes "pool_inv C" "ids C a = Some k"
  shows "pool_inv (C\<lparr>ids := (ids C)(a := None), sessions := (sessions C)(k := None)\<rparr>)"
  using assms unfolding pool_inv_def by (auto split: if_splits)

lemma pool_inv_procRegister:
  assumes "pool_inv C"
  shows "pool_inv (snd (procRegister E c h r C))"
proof -
  let ?uid = "stringOf (take (bytesValidLen (RegId r)) (RegId r))"
  let ?tok = "stringOf (take (bytesValidLen (RegToken r)) (RegToken r))"
  let ?plat = "uint (TerminalType r)" and ?addr = "connString c"
  let ?resp = "\<lambda>code. pbind (response E c (GetMsgType h + 1) (GetEncode h) (Tid h) code (protoType c)) (\<lambda>_. pret ())"
  obtain err w where "Auth (cTrans E) (rpcCli C) ?uid ?plat ?tok (cworld C) = (err, w)" by fastforce
  then obtain C1 where auth: "cAuth E ?uid ?plat ?tok C = (Inr err, C1)" by (simp add: cAuth_def)
  have "pool_same C C1" using quiet_world(2) [of E ?uid ?plat ?tok] auth by (metis quietD)
  then have inv1: "pool_inv C1" by (rule pool_inv_same [OF assms])
  have resp: "pool_inv (snd (?resp code C1))" for code
    by (rule pool_inv_quiet [OF _ inv1]) (intro quiet_intros)
  consider (noauth) "err \<noteq> None" | (known) "err = None" "findId ?addr C1 \<noteq> []" | (new) "err = None" "findId ?addr C1 = []"
    by blast
  then show ?thesis
  proof cases
    case noauth
    then show ?thesis using resp [of 3] auth by (simp add: procRegister_def pbind_simps(1) Let_def)
  next
    case known
    then show ?thesis using resp [of 0] auth by (simp add: procRegister_def pbind_simps(1) Let_def)
  next
    case new
    let ?v = "\<lparr>ses_id = ?uid, ses_plat = ?plat, ses_conn = c, ses_encode = GetEncode h, ses_tid = 0,
      ses_token = ?tok, ses_trans = []\<rparr>"
    let ?C2 = "insertIds ?addr (idf ?uid ?plat) (insertSessions (idf ?uid ?plat) (freshRef C1) (snd (newSes ?v C1)))"
    let ?rest = "pbind (response E c (GetMsgType h + 1) (GetEncode h) (Tid h) 0 (protoType c)) (\<lambda>_.
      pbind (pmod (cNotify E ?uid ?plat ?tok STATE_ONLINE)) (\<lambda>_. ProcOfflineMsg E (freshRef C1) ?uid ?plat))"
    have "procRegister E c h r C = ?rest ?C2"
      using new auth by (simp add: procRegister_def Let_def pbind_simps(1) newSes_def)
    moreover have "pool_inv ?C2" by (rule pool_inv_insert [OF inv1 new(2)]) simp_all
    moreover have "quiet ?rest" by (intro quiet_intros)
    ultimately show ?thesis using pool_inv_quiet by metis
  qed
qed

lemma pool_inv_procUnRegister:
  assumes "pool_inv C"
  shows "pool_inv (snd (procUnRegister E c C))"
proof -
  let ?a = "connString c" and ?k = "findId (connString c) C"
  show ?thesis
  proof (cases "?k = [] \<or> findSessions ?k C = None")
    case True
    then show ?thesis using assms by (auto simp: procUnRegister_def)
  next
    case False
    then obtain s where s: "findSessions ?k C = Some s" by blast
    have k: "ids C ?a = Some ?k" using False by (cases "ids C ?a") (simp_all add: findId_def)
    let ?v = "sesObj C s"
    let ?C1 = "cNotify E (ses_id ?v) (ses_plat ?v) (ses_token ?v) STATE_OFFLINE C"
    obtain r C2 where d: "destroy s ?C1 = (r, C2)" by fastforce
    have "pool_same C ?C1" by (simp add: cNotify_def)
    then have same: "pool_same C C2" using quietD [OF quiet_destroy d] by (rule pool_same_trans)
    then have inv2: "pool_inv C2" and "ids C2 ?a = Some ?k"
      using pool_inv_same [OF assms] k by (auto simp: pool_same_def)
    then have "pool_inv (deleteSessions ?k (deleteIds ?a C2))"
      using pool_inv_remove [OF inv2, of ?a ?k] by (simp add: deleteSessions_def deleteIds_def)
    with inv2 show ?thesis using s False d
      by (cases r) (simp_all add: procUnRegister_def pbind_simps(1,2))
  qed
qed

lemma pool_inv_kick:
  assumes "pool_inv C"
  shows "pool_inv (snd (kick E uid plat tok reason C))"
proof (cases "findSessions (idf uid plat) C")
  case None
  then show ?thesis using assms by (simp add: kick_def)
next
  case (Some s)
  let ?v = "sesObj C s" and ?k = "idf uid plat"
  let ?pre = "pbind (nextTid s) (\<lambda>tid.
    pbind (plift (Pack (jlib E) (kickMessage (ses_encode ?v) reason tid) (ptlOf plat))) (\<lambda>buf.
    pbind (writeConn E (ses_conn ?v) buf) (\<lambda>_.
    pbind (pmod (cNotify E (ses_id ?v) (ses_plat ?v) (ses_token ?v) STATE_OFFLINE)) (\<lambda>_. destroy s))))"
  let ?post = "\<lambda>C. closeConn E (ses_conn ?v) (deleteIds (connString (ses_conn ?v)) (deleteSessions ?k C))"
  have quiet: "quiet ?pre" by (intro quiet_intros)
  obtain r C1 where pre: "?pre C = (r, C1)" by fastforce
  have eq: "kick E uid plat tok reason C =
      (if ses_token ?v \<noteq> tok then (Inr (), C) else pbind ?pre (\<lambda>_. pmod ?post) C)"
    using Some by (simp add: kick_def pbind_assoc pmod_def [abs_def] pbind_def split: prod.splits sum.splits)
  have "pool_same C C1" by (rule quietD [OF quiet pre])
  then have inv1: "pool_inv C1" and same: "ids C1 (connString (ses_conn ?v)) = Some ?k"
    using pool_inv_same [OF assms] assms Some by (auto simp: pool_same_def pool_inv_def findSessions_def)
  have "pool_inv (deleteIds (connString (ses_conn ?v)) (deleteSessions ?k C1))"
    using pool_inv_remove [OF inv1 same] by (simp add: deleteSessions_def deleteIds_def pool_inv_def)
  then have "pool_inv (?post C1)"
    using pool_inv_quiet [OF quiet_world(5) [of E "ses_conn ?v"], of "deleteIds (connString (ses_conn ?v)) (deleteSessions ?k C1)"]
    by simp
  moreover have "snd (pbind ?pre (\<lambda>_. pmod ?post) C) = (case r of Inl e \<Rightarrow> C1 | Inr u \<Rightarrow> ?post C1)"
    using pre by (cases r) (simp_all only: pbind_def prod.case sum.case pmod_def snd_conv)
  ultimately have "pool_inv (snd (pbind ?pre (\<lambda>_. pmod ?post) C))"
    using inv1 by (cases r) (simp_all only: sum.case)
  then show ?thesis unfolding eq using assms by (split if_split) (simp only: snd_conv simp_thms imp_refl)
qed

lemma pool_inv_cstep:
  assumes "cstep E C C'" "pool_inv C"
  shows "pool_inv C'"
  using assms(1)
proof cases
  case (client c m)
  show ?thesis unfolding client(1)
  proof (cases m)
    case (MRegister h ah r)
    then show "pool_inv (onClient E c m C)" using pool_inv_procRegister [OF assms(2)] by (simp add: onClient_def)
  qed (use assms(2) in \<open>simp_all add: onClient_def pool_inv_quiet quiet_clients\<close>)
next
  case (rpc m)
  then show ?thesis using pool_inv_quiet [OF quiet_clients(4) assms(2)] by (simp add: onRpc_def)
next
  case (sync m)
  then show ?thesis using assms(2) pool_inv_kick [OF assms(2)]
    by (cases m) (auto split: prod.split sum.split simp: , (metis snd_conv)+)
next
  case (closed c)
  have "pool_inv (closeConn E c C)"
    using pool_inv_quiet [OF quiet_world(5) assms(2)] by simp
  then show ?thesis using pool_inv_procUnRegister closed by (simp add: onClose_def)
next
  case (go t)
  then show ?thesis using pool_same_gostep pool_inv_same [OF assms(2)] by blast
qed

end
