(* ===== verification/CometTrans.thy ===== *)
theory CometTrans
  imports CometInv
begin

text \<open>
  The transactions of the comet: the invariant that every remembered transaction has a timer and
  an open channel between two handlers (inside a send it need not have a timer yet, see
  \<open>EarlyAck\<close>); the life of one
  transaction goroutine, which always comes to rest, and where it can come to rest.
\<close>

section \<open>The invariant\<close>

definition trans_inv :: "('r, 'w) Comet \<Rightarrow> bool" where
  "trans_inv C \<longleftrightarrow> (\<forall>s. distinct (ses_trans (sesObj C s))) \<and>
     (\<forall>s t. t \<in> set (ses_trans (sesObj C s)) \<longrightarrow> t < freshRef C \<and> trOwner (trObj C t) = s \<and>
        trPc (trObj C t) \<noteq> Unstarted \<and> trTimer (trObj C t) \<noteq> NoTimer \<and> \<not> trClosed (trObj C t))"

lemma trans_invD:
  assumes "trans_inv C" "t \<in> set (ses_trans (sesObj C s))"
  shows "t < freshRef C" "trOwner (trObj C t) = s" "trPc (trObj C t) \<noteq> Unstarted"
    "trTimer (trObj C t) \<noteq> NoTimer" "\<not> trClosed (trObj C t)"
  using assms by (auto simp: trans_inv_def)

definition trans_same :: "('r, 'w) Comet \<Rightarrow> ('r, 'w) Comet \<Rightarrow> bool" where
  "trans_same C C' \<longleftrightarrow> trObj C' = trObj C \<and> freshRef C \<le> freshRef C' \<and>
     (\<forall>s. ses_trans (sesObj C' s) = ses_trans (sesObj C s))"

lemma trans_same_inv: "trans_inv C \<Longrightarrow> trans_same C C' \<Longrightarrow> trans_inv C'"
  unfolding trans_inv_def trans_same_def by (metis order_less_le_trans)

definition steady :: "(('r, 'w) Comet, 'a) pcd \<Rightarrow> bool" where
  "steady f \<longleftrightarrow> (\<forall>C. trans_inv C \<longrightarrow> trans_inv (snd (f C)))"

named_theorems steady_intros \<open>procedures that keep the transaction invariant\<close>

lemma steady_same: "(\<And>C. trans_same C (snd (f C))) \<Longrightarrow> steady f"
  by (auto simp: steady_def intro: trans_same_inv)

lemma steady_bind [steady_intros]:
  assumes "steady m" "\<And>x. steady (f x)"
  shows "steady (pbind m f)"
  unfolding steady_def
proof (intro allI impI)
  fix C :: "('a, 'b) Comet"
  assume inv: "trans_inv C"
  obtain r C1 where m: "m C = (r, C1)" by fastforce
  then have "trans_inv C1" using assms(1) inv by (metis steady_def snd_conv)
  then show "trans_inv (snd (pbind m f C))"
    using assms(2) by (cases r) (simp_all add: pbind_def m steady_def)
qed

lemma steady_basic [steady_intros]:
  "steady (pret x)" "steady (plift r)" "steady (pget h)" "steady f \<Longrightarrow> steady g \<Longrightarrow> steady (if b then f else g)"
  by (simp_all add: steady_def)

lemma steady_option [steady_intros]:
  "steady f \<Longrightarrow> (\<And>x. steady (g x)) \<Longrightarrow> steady (case r of None \<Rightarrow> f | Some x \<Rightarrow> g x)"
  by (cases r) auto

lemma steady_foreach [steady_intros]: "(\<And>i. steady (body i)) \<Longrightarrow> steady (pforeach is body)"
  by (induction "is") (auto intro!: steady_intros)

lemma trans_same_simps [simp]:
  "trans_same C C" "trans_same C (C'\<lparr>cworld := w\<rparr>) = trans_same C C'"
  "trans_same C (C'\<lparr>cstore := st\<rparr>) = trans_same C C'" "trans_same C (C'\<lparr>ids := i\<rparr>) = trans_same C C'"
  "trans_same C (C'\<lparr>sessions := ss\<rparr>) = trans_same C C'"
  by (simp_all add: trans_same_def)

lemma steady_world [steady_intros]:
  "steady (writeConn E c buf)" "steady (cAuth E uid plat tok)" "steady (cMsgUpward E uid plat msg)"
  "steady (pmod (cNotify E uid plat tok st))" "steady (pmod (closeConn E c))"
  "steady (pmod (storeWith g))" "steady (takeQueue q)" "steady (nextTid s)"
  "steady (pmod (pushFallback E m))" "steady (pmod (callbackFallback E m))" "steady (pmod (messageFallback E m))"
  "steady (\<lambda>C. let (r, st) = GetPushMsg e uid plat (cstore C) in (Inr r, C\<lparr>cstore := st\<rparr>))"
  "steady (pmod (insertIds a k))" "steady (pmod (deleteIds a))" "steady (pmod (insertSessions k s))"
  "steady (pmod (deleteSessions k))"
proof -
  show "steady (writeConn E c buf)" by (rule steady_same, cases c) (simp_all split: prod.split)
  show "steady (pmod (closeConn E c))" by (rule steady_same, cases c) simp_all
qed (rule steady_same; simp add: cAuth_def cMsgUpward_def cNotify_def storeWith_def takeQueue_def nextTid_def
    pushFallback_def callbackFallback_def messageFallback_def cApns_def insertIds_def deleteIds_def
    insertSessions_def deleteSessions_def Let_def split: prod.split; simp add: trans_same_def modSes_def)+

lemma stopTimer_keeps: "stopTimer tm = Inr tm' \<Longrightarrow> tm' \<noteq> NoTimer"
  by (cases tm) auto

lemma trans_inv_modTrans:
  assumes "trans_inv C" "trOwner (f (trObj C t)) = trOwner (trObj C t)" "trClosed (f (trObj C t)) = trClosed (trObj C t)"
    "trPc (trObj C t) \<noteq> Unstarted \<Longrightarrow> trPc (f (trObj C t)) \<noteq> Unstarted"
    "trTimer (trObj C t) \<noteq> NoTimer \<Longrightarrow> trTimer (f (trObj C t)) \<noteq> NoTimer"
  shows "trans_inv (modTrans t f C)"
  using assms unfolding trans_inv_def modTrans_def by auto

lemma steady_stop [steady_intros]: "steady (stopTrans t)" "steady (sendExit t)" "steady (destroy s :: (('r, 'w) Comet, unit) pcd)"
proof -
  show stop: "steady (stopTrans t)" for t
    unfolding steady_def stopTrans_def
    by (auto split: sum.split intro!: trans_inv_modTrans dest: stopTimer_keeps)
  show "steady (sendExit t)"
    unfolding steady_def sendExit_def by (auto intro!: trans_inv_modTrans)
  have "steady (pforeach is stopTrans :: (('r, 'w) Comet, unit) pcd)" for "is" :: "ref list"
    by (intro steady_foreach stop)
  then show "steady (destroy s :: (('r, 'w) Comet, unit) pcd)" by (simp add: steady_def destroy_def)
qed

text \<open>A new transaction is remembered and started in one go.\<close>

lemma trans_inv_new:
  assumes "trans_inv C"
  defines "t \<equiv> freshRef C"
  shows "trans_inv (checkTrans s t (saveTransaction s t (snd (newTransaction tid mt body C))))"
proof -
  have new: "t \<notin> set (ses_trans (sesObj C s'))" for s'
    using trans_invD(1) [OF assms(1)] by (auto simp: t_def)
  have "distinct (ses_trans (sesObj C s'))" for s' using assms(1) by (simp add: trans_inv_def)
  with new show ?thesis
    using trans_invD [OF assms(1)]
    by (auto simp: trans_inv_def checkTrans_def saveTransaction_def newTransaction_def modTrans_def modSes_def t_def
        zeroTrans_def less_SucI)
qed

lemma steady_track: "steady (pbind (newTransaction tid mt body) (\<lambda>t. pbind (pmod (saveTransaction s t)) (\<lambda>_.
    pbind (pmod (checkTrans s t)) (\<lambda>_. pret True))))"
  unfolding steady_def
proof (intro allI impI)
  fix C :: "('a, 'b) Comet"
  assume "trans_inv C"
  from trans_inv_new [OF this, of s tid mt body]
  show "trans_inv (snd (pbind (newTransaction tid mt body) (\<lambda>t. pbind (pmod (saveTransaction s t)) (\<lambda>_.
    pbind (pmod (checkTrans s t)) (\<lambda>_. pret True))) C))"
    by (simp add: pbind_def newTransaction_def)
qed

lemma steady_sendTracked [steady_intros]: "steady (sendTracked E s mt mk body ptl)"
  unfolding sendTracked_def
  by (rule steady_bind, rule steady_world, rule steady_bind, rule steady_basic(2), rule steady_bind,
      rule steady_basic(3), rule steady_bind, rule steady_world, rule steady_basic(4), rule steady_basic(1),
      rule steady_track)

lemma steady_newSes: "ses_trans v = [] \<Longrightarrow> steady (newSes v)"
  by (auto simp: steady_def newSes_def trans_inv_def less_SucI)

lemma steady_handlers [steady_intros]:
  "steady (push E m)" "steady (callback E m)" "steady (message E m)" "steady (response E c mt en tid code pt)"
  "steady (kick E uid plat tok reason)" "steady (procIm E c h msg)" "steady (procPing E c h)"
  "steady (procResp E c h)" "steady (procUnRegister E c)"
  unfolding push_def callback_def message_def response_def kick_def procIm_def procPing_def procResp_def
    procUnRegister_def
  by (intro steady_intros)+

lemma steady_ProcOfflineMsg [steady_intros]: "steady (ProcOfflineMsg E s uid plat)"
  unfolding ProcOfflineMsg_def offlinePush_def offlineCallback_def offlineIm_def
  by (intro steady_intros)

lemma steady_procRegister [steady_intros]: "steady (procRegister E c h r)"
  unfolding procRegister_def Let_def by (intro steady_intros steady_newSes) simp

lemma steady_rpc [steady_intros]: "steady (RpcAsyncHandleC E m)"
  by (cases m) (simp_all, (intro steady_intros impI conjI)+)

lemma trans_inv_delTrans:
  assumes "trans_inv C"
  shows "trans_inv (snd (delTrans s tid C))"
proof (cases "getTrans s tid C")
  case (Some t)
  then have t: "t \<in> set (ses_trans (sesObj C s))" by (auto simp: getTrans_def dest: find_Some_set)
  obtain r C1 where st: "stopTrans t C = (r, C1)" by fastforce
  then have inv1: "trans_inv C1" using steady_stop(1) [of t] assms by (metis steady_def snd_conv)
  have "trans_inv (modSes s (\<lambda>v. v\<lparr>ses_trans := remove1 t (ses_trans v)\<rparr>) (modTrans t (\<lambda>v. v\<lparr>trClosed := True\<rparr>) C1))"
  proof -
    have own: "trOwner (trObj C1 t) = s"
      using st trans_invD(2) [OF assms t] by (auto simp: stopTrans_def modTrans_def split: sum.splits)
    have d: "distinct (ses_trans (sesObj C1 s'))" for s' using inv1 by (simp add: trans_inv_def)
    have only: "t \<in> set (ses_trans (sesObj C1 s')) \<Longrightarrow> s' = s" for s'
      using trans_invD(2) [OF inv1] own by blast
    show ?thesis
      using trans_invD [OF inv1] d only
      by (auto simp: trans_inv_def modSes_def modTrans_def)
  qed
  with inv1 show ?thesis using Some st by (cases r) (auto simp: delTrans_def pbind_def)
qed (use assms in \<open>simp add: delTrans_def\<close>)

lemma trans_inv_gostep:
  assumes "gostep E t C C'" "trans_inv C"
  shows "trans_inv C'"
  using assms(1)
proof cases
  case save
  have "trans_inv (keepOffline E (sesObj C (trOwner (trObj C t))) (trObj C t) C)"
    using trans_same_inv [OF assms(2)] by (simp add: keepOffline_def)
  then show ?thesis unfolding save(1) by (intro trans_inv_modTrans) (simp_all add: keepOffline_def)
next
  case exit
  show ?thesis unfolding exit(1)
    using assms(2) by (intro trans_inv_delTrans trans_inv_modTrans) simp_all
qed (use assms(2) in \<open>auto intro!: trans_inv_modTrans\<close>)

lemma trans_inv_cstep:
  assumes "cstep E C C'" "trans_inv C"
  shows "trans_inv C'"
  using assms(1)
proof cases
  case (client c m)
  have "steady (procTrans E c m)" by (cases m) (simp_all add: steady_intros)
  then show ?thesis using assms(2) by (simp add: client(1) onClient_def steady_def)
next
  case (rpc m)
  then show ?thesis using assms(2) steady_rpc [of E m] by (simp add: onRpc_def steady_def)
next
  case (sync m)
  have k: "trans_inv (snd (kick E uid plat tok reason C))" for uid plat tok reason
    using assms(2) steady_handlers(5) [of E uid plat tok reason] by (simp add: steady_def)
  show ?thesis unfolding sync using assms(2) k
    by (cases m) (auto split: prod.split sum.split, (metis snd_conv)+)
next
  case (closed c)
  have "trans_inv (closeConn E c C)" using assms(2) steady_world(5) [of E c] by (simp add: steady_def)
  then show ?thesis using closed steady_handlers(9) [of E c] by (simp add: onClose_def steady_def)
next
  case (go t)
  then show ?thesis using trans_inv_gostep assms(2) by blast
qed

lemma creach_inv: "creach E C \<Longrightarrow> pool_inv C \<and> trans_inv C"
proof (induction rule: creach.induct)
  case (start cid client st w)
  show ?case by (simp add: newComet_def pool_inv_def trans_inv_def zeroSes_def)
next
  case (step C C')
  then show ?case using pool_inv_cstep trans_inv_cstep by blast
qed

end
