(* ===== verification/CometLife.thy ===== *)
theory CometLife
  imports CometTrans
begin

text \<open>
  The life of one transaction: its goroutine takes a bounded number of steps and comes to rest;
  it keeps the message for later exactly if its timer ticks; an acknowledgement ends it, but one
  that arrives between the tick and the end of the goroutine leaves it stuck forever.
\<close>

section \<open>A bound on the steps\<close>

definition timerRank :: "timer \<Rightarrow> nat" where
  "timerRank tm = (case tm of Armed n \<Rightarrow> 2 | Ticked \<Rightarrow> 1 | _ \<Rightarrow> 0)"

definition pcRank :: "gopc \<Rightarrow> nat" where
  "pcRank pc = (case pc of Waiting \<Rightarrow> 1 | Signalling \<Rightarrow> 2 | Saving \<Rightarrow> 3 | _ \<Rightarrow> 0)"

definition rank :: "transaction \<Rightarrow> nat" where
  "rank v = 5 * timerRank (trTimer v) + pcRank (trPc v)"

lemma rank_bound: "rank v \<le> 13"
  by (auto simp: rank_def timerRank_def pcRank_def split: timer.split gopc.split)

lemma rank_simps [simp]:
  "timerRank (Armed n) = 2" "timerRank Ticked = 1" "timerRank Drained = 0" "timerRank Stopped = 0" "timerRank NoTimer = 0"
  "pcRank Waiting = 1" "pcRank Signalling = 2" "pcRank Saving = 3" "pcRank Done = 0" "pcRank Unstarted = 0"
  by (simp_all add: timerRank_def pcRank_def)

lemma modTrans_obj [simp]:
  "trObj (modTrans t f C) = (trObj C)(t := f (trObj C t))" "sesObj (modTrans t f C) = sesObj C"
  "cstore (modTrans t f C) = cstore C" "freshRef (modTrans t f C) = freshRef C"
  by (simp_all add: modTrans_def)

lemma keepOffline_obj [simp]:
  "trObj (keepOffline E p v C) = trObj C" "sesObj (keepOffline E p v C) = sesObj C"
  by (simp_all add: keepOffline_def)

lemma stopTrans_obj:
  "stopTrans t C = (r, C') \<Longrightarrow> sesObj C' = sesObj C \<and> cstore C' = cstore C \<and>
     rank (trObj C' t') \<le> rank (trObj C t') \<and> trPc (trObj C' t') = trPc (trObj C t') \<and>
     trClosed (trObj C' t') = trClosed (trObj C t')"
  by (cases "trTimer (trObj C t)") (auto simp: stopTrans_def rank_def split: if_splits)

lemma delTrans_obj: "rank (trObj (snd (delTrans s tid C)) t') \<le> rank (trObj C t')"
proof (cases "getTrans s tid C")
  case (Some t)
  obtain r C1 where st: "stopTrans t C = (r, C1)" by fastforce
  have "rank (trObj C1 t') \<le> rank (trObj C t')" using stopTrans_obj [OF st] by blast
  with Some st show ?thesis
    by (cases r) (auto simp: delTrans_def pbind_def modSes_def rank_def)
qed (simp add: delTrans_def)

lemma gostep_rank:
  assumes "gostep E t C C'"
  shows "rank (trObj C' t) < rank (trObj C t)"
  using assms
proof cases
  case exit
  let ?C = "modTrans t (\<lambda>v. v\<lparr>trExit := trExit v - 1, trPc := Done\<rparr>) C"
  have "rank (trObj C' t) \<le> rank (trObj ?C t)" unfolding exit(1) by (rule delTrans_obj)
  also have "\<dots> < rank (trObj C t)" using exit by (simp add: rank_def)
  finally show ?thesis .
qed (auto simp: rank_def)

text \<open>Where a goroutine is at rest.\<close>

definition resting :: "transaction \<Rightarrow> bool" where
  "resting v \<longleftrightarrow> (\<forall>n. trTimer v \<noteq> Armed n) \<and>
     (trPc v = Unstarted \<or> trPc v = Done \<or>
      trPc v = Waiting \<and> trTimer v \<noteq> Ticked \<and> trExit v = 0 \<and> \<not> trClosed v \<or>
      trPc v = Signalling \<and> trExit v > 0 \<and> \<not> trClosed v)"

lemma no_step_resting: "(\<exists>C'. gostep E t C C') \<longleftrightarrow> \<not> resting (trObj C t)"
proof
  assume "\<exists>C'. gostep E t C C'"
  then obtain C' where "gostep E t C C'" by blast
  then show "\<not> resting (trObj C t)" by cases (auto simp: resting_def)
next
  assume *: "\<not> resting (trObj C t)"
  show "\<exists>C'. gostep E t C C'"
  proof (cases "\<exists>n. trTimer (trObj C t) = Armed n")
    case True
    then show ?thesis using gostep.tick by blast
  next
    case False
    with * consider "trPc (trObj C t) = Waiting" "trTimer (trObj C t) = Ticked"
      | "trPc (trObj C t) = Waiting" "trExit (trObj C t) > 0 \<or> trClosed (trObj C t)"
      | "trPc (trObj C t) = Saving"
      | "trPc (trObj C t) = Signalling" "trClosed (trObj C t)"
      | "trPc (trObj C t) = Signalling" "\<not> trClosed (trObj C t)" "trExit (trObj C t) = 0"
      by (cases "trPc (trObj C t)") (auto simp: resting_def)
    then show ?thesis
    proof cases
      case 1
      then show ?thesis using gostep.timeout by blast
    next
      case 2
      then show ?thesis using gostep.exit by blast
    next
      case 3
      then show ?thesis using gostep.save by blast
    next
      case 4
      then show ?thesis using gostep.signal_closed by blast
    next
      case 5
      then show ?thesis using gostep.signal by blast
    qed
  qed
qed

section \<open>Runs to the end\<close>

abbreviation gosteps :: "('r, 'w) cenv \<Rightarrow> ref \<Rightarrow> ('r, 'w) Comet \<Rightarrow> ('r, 'w) Comet \<Rightarrow> bool" where
  "gosteps E t \<equiv> (gostep E t)\<^sup>*\<^sup>*"

lemma only_step:
  assumes "\<And>Y. gostep E t C Y \<longleftrightarrow> Y = D"
  shows "gosteps E t C X \<and> resting (trObj X t) \<longleftrightarrow> gosteps E t D X \<and> resting (trObj X t)"
proof -
  have step: "gostep E t C D" using assms by simp
  then have "\<not> resting (trObj C t)" using no_step_resting by blast
  with step assms show ?thesis by (metis converse_rtranclpE converse_rtranclp_into_rtranclp)
qed

lemma no_step:
  assumes "resting (trObj C t)"
  shows "gosteps E t C X \<and> resting (trObj X t) \<longleftrightarrow> X = C"
proof -
  have "\<not> gostep E t C Y" for Y using assms no_step_resting by blast
  then show ?thesis using assms by (metis converse_rtranclpE rtranclp.rtrancl_refl)
qed

text \<open>The steps by the place of the goroutine.\<close>

lemma gostep_armed:
  assumes "trTimer (trObj C t) = Armed n" "trPc (trObj C t) = Waiting" "trExit (trObj C t) = 0" "\<not> trClosed (trObj C t)"
  shows "gostep E t C Y \<longleftrightarrow> Y = modTrans t (\<lambda>v. v\<lparr>trTimer := Ticked\<rparr>) C"
  using assms by (auto elim!: gostepE intro: gostep.tick)

lemma gostep_ticked:
  assumes "trTimer (trObj C t) = Ticked" "trPc (trObj C t) = Waiting" "trExit (trObj C t) = 0" "\<not> trClosed (trObj C t)"
  shows "gostep E t C Y \<longleftrightarrow> Y = modTrans t (\<lambda>v. v\<lparr>trTimer := Drained, trPc := Saving\<rparr>) C"
  using assms by (auto elim!: gostepE intro: gostep.timeout)

lemma gostep_saving:
  assumes "trTimer (trObj C t) = Drained" "trPc (trObj C t) = Saving"
  shows "gostep E t C Y \<longleftrightarrow> Y = modTrans t (\<lambda>v. v\<lparr>trPc := Signalling\<rparr>)
    (keepOffline E (sesObj C (trOwner (trObj C t))) (trObj C t) C)"
  using assms by (auto elim!: gostepE intro: gostep.save)

lemma gostep_signalling:
  assumes "trTimer (trObj C t) = Drained" "trPc (trObj C t) = Signalling" "trExit (trObj C t) = 0" "\<not> trClosed (trObj C t)"
  shows "gostep E t C Y \<longleftrightarrow> Y = modTrans t (\<lambda>v. v\<lparr>trExit := 1, trPc := Waiting\<rparr>) C"
  using assms by (auto elim!: gostepE intro: gostep.signal [simplified])

lemma gostep_exiting:
  assumes "trTimer (trObj C t) \<in> {Drained, Stopped}" "trPc (trObj C t) = Waiting" "trExit (trObj C t) > 0"
  shows "gostep E t C Y \<longleftrightarrow> Y = snd (delTrans (trOwner (trObj C t)) (trTid (trObj C t))
    (modTrans t (\<lambda>v. v\<lparr>trExit := trExit v - 1, trPc := Done\<rparr>) C))"
  using assms by (auto elim!: gostepE intro: gostep.exit [simplified])

section \<open>Outcomes\<close>

lemma delTrans_only:
  assumes "getTrans s tid C = Some t" "trTimer (trObj C t) \<in> {Drained, Stopped}" "\<not> trClosed (trObj C t)"
    "distinct (ses_trans (sesObj C s))"
  shows "trPc (trObj (snd (delTrans s tid C)) t) = trPc (trObj C t)"
    "t \<notin> set (ses_trans (sesObj (snd (delTrans s tid C)) s))"
    "cstore (snd (delTrans s tid C)) = cstore C" "trPc (trObj C t) = Done \<Longrightarrow> resting (trObj (snd (delTrans s tid C)) t)"
proof -
  have upd: "modTrans t (\<lambda>v. v\<lparr>trTimer := trTimer (trObj C t)\<rparr>) C = C"
    by (simp add: modTrans_def fun_upd_idem)
  have "stopTimer (trTimer (trObj C t)) = Inr (trTimer (trObj C t))" using assms(2) by auto
  then have st: "stopTrans t C = (Inr (), C)" using upd by (simp add: stopTrans_def)
  have eq: "snd (delTrans s tid C) = modSes s (\<lambda>v. v\<lparr>ses_trans := remove1 t (ses_trans v)\<rparr>)
      (modTrans t (\<lambda>v. v\<lparr>trClosed := True\<rparr>) C)"
    using assms(1,3) st by (simp add: delTrans_def pbind_def)
  show "trPc (trObj (snd (delTrans s tid C)) t) = trPc (trObj C t)" "cstore (snd (delTrans s tid C)) = cstore C"
    unfolding eq by (simp_all add: modSes_def)
  show "t \<notin> set (ses_trans (sesObj (snd (delTrans s tid C)) s))"
    using assms(4) unfolding eq by (simp add: modSes_def)
  show "trPc (trObj C t) = Done \<Longrightarrow> resting (trObj (snd (delTrans s tid C)) t)"
    using assms(2) unfolding eq by (auto simp: modSes_def resting_def)
qed

lemma getTrans_cong:
  "ses_trans (sesObj C' s) = ses_trans (sesObj C s) \<Longrightarrow> (\<And>t. trTid (trObj C' t) = trTid (trObj C t)) \<Longrightarrow>
     getTrans s tid C' = getTrans s tid C"
  by (simp add: getTrans_def)

text \<open>\<open>watched C s t\<close>: the session \<open>s\<close> remembers \<open>t\<close>, its goroutine waits and its timer runs.\<close>

definition watched :: "('r, 'w) Comet \<Rightarrow> ref \<Rightarrow> ref \<Rightarrow> bool" where
  "watched C s t \<longleftrightarrow> trans_inv C \<and> getTrans s (trTid (trObj C t)) C = Some t \<and> trPc (trObj C t) = Waiting \<and>
     (\<exists>n. trTimer (trObj C t) = Armed n) \<and> trExit (trObj C t) = 0"

lemma watchedD:
  assumes "watched C s t"
  shows "t \<in> set (ses_trans (sesObj C s))" "trOwner (trObj C t) = s" "\<not> trClosed (trObj C t)"
    "distinct (ses_trans (sesObj C s))"
proof -
  show t: "t \<in> set (ses_trans (sesObj C s))"
    using assms by (auto simp: watched_def getTrans_def dest: find_Some_set)
  show "trOwner (trObj C t) = s" "\<not> trClosed (trObj C t)" "distinct (ses_trans (sesObj C s))"
    using assms trans_invD [OF _ t] by (auto simp: watched_def trans_inv_def)
qed

lemma timeout_run:
  assumes "watched C s t"
  shows "\<exists>X. (\<forall>Y. (gosteps E t C Y \<and> resting (trObj Y t)) = (Y = X)) \<and> trPc (trObj X t) = Done \<and>
    t \<notin> set (ses_trans (sesObj X s)) \<and> cstore X = cstore (keepOffline E (sesObj C s) (trObj C t) C)"
proof -
  note w = watchedD [OF assms]
  obtain n where v: "trTimer (trObj C t) = Armed n" "trPc (trObj C t) = Waiting" "trExit (trObj C t) = 0"
    "getTrans s (trTid (trObj C t)) C = Some t"
    using assms by (auto simp: watched_def)
  define C1 where "C1 = modTrans t (\<lambda>v. v\<lparr>trTimer := Ticked\<rparr>) C"
  define C2 where "C2 = modTrans t (\<lambda>v. v\<lparr>trTimer := Drained, trPc := Saving\<rparr>) C1"
  define K where "K = keepOffline E (sesObj C2 (trOwner (trObj C2 t))) (trObj C2 t) C2"
  define C3 where "C3 = modTrans t (\<lambda>v. v\<lparr>trPc := Signalling\<rparr>) K"
  define C4 where "C4 = modTrans t (\<lambda>v. v\<lparr>trExit := 1, trPc := Waiting\<rparr>) C3"
  define C5 where "C5 = modTrans t (\<lambda>v. v\<lparr>trExit := trExit v - 1, trPc := Done\<rparr>) C4"
  let ?X = "snd (delTrans (trOwner (trObj C4 t)) (trTid (trObj C4 t)) C5)"
  note defs = C1_def C2_def K_def C3_def C4_def C5_def
  have s1: "gostep E t C Y \<longleftrightarrow> Y = C1" for Y using gostep_armed [of C t n E Y] v w by (simp add: C1_def)
  have s2: "gostep E t C1 Y \<longleftrightarrow> Y = C2" for Y
    using gostep_ticked [of C1 t E Y] v w by (simp add: C2_def) (simp add: C1_def)
  have s3: "gostep E t C2 Y \<longleftrightarrow> Y = C3" for Y
    using gostep_saving [of C2 t E Y] by (simp add: C3_def K_def) (simp add: C2_def)
  have s4: "gostep E t C3 Y \<longleftrightarrow> Y = C4" for Y
    using gostep_signalling [of C3 t E Y] v w unfolding C4_def by (simp add: C3_def K_def C2_def C1_def)
  have s5: "gostep E t C4 Y \<longleftrightarrow> Y = ?X" for Y
    using gostep_exiting [of C4 t E Y] unfolding C5_def by (simp add: C4_def C3_def K_def C2_def C1_def)
  have same: "ses_trans (sesObj C5 s) = ses_trans (sesObj C s)" "trTid (trObj C5 t') = trTid (trObj C t')"
    "trOwner (trObj C4 t) = s" "trTid (trObj C4 t) = trTid (trObj C t)" "\<not> trClosed (trObj C5 t)"
    "trTimer (trObj C5 t) = Drained" "trPc (trObj C5 t) = Done" for t'
    using w by (simp_all add: defs)
  have g: "getTrans (trOwner (trObj C4 t)) (trTid (trObj C4 t)) C5 = Some t"
    using getTrans_cong [OF same(1) same(2)] v(4) same(3,4) by simp
  have d: "distinct (ses_trans (sesObj C5 (trOwner (trObj C4 t))))" using w(4) same(1,3) by simp
  note D = delTrans_only [OF g _ same(5) d]
  have rest: "resting (trObj ?X t)" using D(4) same(6,7) by (simp add: resting_def)
  have "(gosteps E t C Y \<and> resting (trObj Y t)) = (Y = ?X)" for Y
    using only_step [of E t C C1 Y, OF s1] only_step [of E t C1 C2 Y, OF s2] only_step [of E t C2 C3 Y, OF s3]
      only_step [of E t C3 C4 Y, OF s4] only_step [of E t C4 ?X Y, OF s5] no_step [OF rest, of E Y] by simp
  moreover have "cstore ?X = cstore (keepOffline E (sesObj C s) (trObj C t) C)"
  proof -
    have "cstore ?X = cstore K" using D(3) same(6) by (simp add: C5_def C4_def C3_def)
    also have "\<dots> = cstore (keepOffline E (sesObj C s) (trObj C t) C)"
      using w(2) by (simp add: K_def keepOffline_def C2_def C1_def)
    finally show ?thesis .
  qed
  ultimately show ?thesis using D(1,2) same(3,6,7) by (intro exI [of _ ?X]) simp
qed

text \<open>An acknowledgement on connection \<open>c\<close> reaches the transaction.\<close>

definition acks :: "('r, 'w) Comet \<Rightarrow> conn \<Rightarrow> Header \<Rightarrow> ref \<Rightarrow> ref \<Rightarrow> bool" where
  "acks C c h s t \<longleftrightarrow> findSessions (findId (connString c) C) C = Some s \<and> getTrans s (uint (Tid h)) C = Some t"

lemma procResp_acks:
  assumes "acks C c h s t" "trTimer (trObj C t) \<noteq> NoTimer" "\<not> trClosed (trObj C t)"
  shows "\<exists>tm. stopTimer (trTimer (trObj C t)) = Inr tm \<and>
    procResp E c h C = (Inr (), modTrans t (\<lambda>v. v\<lparr>trTimer := tm, trExit := trExit v + 1\<rparr>) C)"
  using assms by (cases "trTimer (trObj C t)")
    (auto simp: procResp_def acks_def stopTrans_def sendExit_def pbind_def modTrans_def fun_upd_idem_iff)

lemma ack_run:
  assumes "watched C s t" "acks C c h s t"
  shows "\<exists>X. (\<forall>Y. (gosteps E t (snd (procResp E c h C)) Y \<and> resting (trObj Y t)) = (Y = X)) \<and>
    trPc (trObj X t) = Done \<and> t \<notin> set (ses_trans (sesObj X s)) \<and> cstore X = cstore C"
proof -
  note w = watchedD [OF assms(1)]
  obtain n where v: "trTimer (trObj C t) = Armed n" "trPc (trObj C t) = Waiting" "trExit (trObj C t) = 0"
    "getTrans s (trTid (trObj C t)) C = Some t"
    using assms by (auto simp: watched_def)
  define C1 where "C1 = modTrans t (\<lambda>v. v\<lparr>trTimer := Stopped, trExit := trExit v + 1\<rparr>) C"
  have C1: "snd (procResp E c h C) = C1"
    using procResp_acks [OF assms(2), of E] v w by (auto simp: C1_def)
  define C2 where "C2 = modTrans t (\<lambda>v. v\<lparr>trExit := trExit v - 1, trPc := Done\<rparr>) C1"
  let ?X = "snd (delTrans (trOwner (trObj C1 t)) (trTid (trObj C1 t)) C2)"
  have s1: "gostep E t C1 Y \<longleftrightarrow> Y = ?X" for Y
    using gostep_exiting [of C1 t E Y] v unfolding C2_def by (simp add: C1_def)
  have same: "ses_trans (sesObj C2 s) = ses_trans (sesObj C s)" "trTid (trObj C2 t') = trTid (trObj C t')"
    "trOwner (trObj C1 t) = s" "trTid (trObj C1 t) = trTid (trObj C t)" "\<not> trClosed (trObj C2 t)"
    "trTimer (trObj C2 t) = Stopped" "trPc (trObj C2 t) = Done" "cstore C2 = cstore C" for t'
    using w by (simp_all add: C1_def C2_def)
  have g: "getTrans (trOwner (trObj C1 t)) (trTid (trObj C1 t)) C2 = Some t"
    using getTrans_cong [OF same(1) same(2)] v(4) same(3,4) by simp
  have d: "distinct (ses_trans (sesObj C2 (trOwner (trObj C1 t))))" using w(4) same(1,3) by simp
  note D = delTrans_only [OF g _ same(5) d]
  have rest: "resting (trObj ?X t)" using D(4) same(6,7) by (simp add: resting_def)
  have "(gosteps E t C1 Y \<and> resting (trObj Y t)) = (Y = ?X)" for Y
    using only_step [of E t C1 ?X Y, OF s1] no_step [OF rest, of E Y] by simp
  then show ?thesis using D same C1 by (intro exI [of _ ?X]) simp
qed

end
