(* ===== verification/CometProps.thy ===== *)
theory CometProps
  imports CometLife
begin

text \<open>
  Properties of the comet: what every reachable state satisfies, how a transaction ends,
  transaction ids, what closing a connection and registering do to the pool, and what becomes of
  a message that nobody acknowledges.
\<close>

section \<open>A comet to try things on\<close>

datatype exEvent = Called nat rpcRequest | Wrote conn bytes | ClosedConn conn | Apple Notification

definition exCenv :: "(redis, exEvent list) cenv" where
  "exCenv = \<lparr>cStore = mapEnv,
     cTrans = \<lparr>dial = (\<lambda>addr w. (Some 0, w)), call = (\<lambda>h m req w. (Some 0, w @ [Called h req])), hangup = (\<lambda>h w. w)\<rparr>,
     sockWrite = (\<lambda>c b w. (True, w @ [Wrote c b])), sockClose = (\<lambda>c w. w @ [ClosedConn c]),
     apnsSounds = iOSSound, apnsSend = (\<lambda>n w. (Some 200, w @ [Apple n])), jlib = oneTextLib (JObj [])\<rparr>"

definition exKey :: string where "exKey = idf ''u'' 1"

text \<open>One Android session of user \<open>u\<close> on address \<open>a\<close>, with one push on the way.\<close>

definition exSes :: session where
  "exSes = \<lparr>ses_id = ''u'', ses_plat = 1, ses_conn = TCPConn 1 ''a'', ses_encode = 0, ses_tid = 1,
     ses_token = ''old'', ses_trans = [2]\<rparr>"

definition exTrans :: transaction where
  "exTrans = \<lparr>trTid = 1, trType = MSGTYPE_PUSH, trMsg = [7], trTimer = Armed 5, trExit = 0, trClosed = False,
     trPc = Waiting, trOwner = 1\<rparr>"

definition exC :: "(redis, exEvent list) Comet" where
  "exC = (newComet ''c1'' \<lparr>clientId = [], serverAddr = [], conn = 0, status = []\<rparr> exSt [])
     \<lparr>ids := [''a'' \<mapsto> exKey], sessions := [exKey \<mapsto> 1], sesObj := (\<lambda>_. zeroSes)(1 := exSes),
      trObj := (\<lambda>_. zeroTrans)(2 := exTrans), freshRef := 3\<rparr>"

lemma exC_simps [simp]:
  "ids exC = [''a'' \<mapsto> exKey]" "sessions exC = [exKey \<mapsto> 1]" "sesObj exC = (\<lambda>_. zeroSes)(1 := exSes)"
  "trObj exC = (\<lambda>_. zeroTrans)(2 := exTrans)" "freshRef exC = 3" "cstore exC = exSt"
  by (simp_all add: exC_def newComet_def)

lemma exC_trans_inv: "trans_inv exC"
  by (auto simp: trans_inv_def exSes_def exTrans_def zeroSes_def split: if_splits)

lemma exC_pool_inv: "pool_inv exC"
  by (auto simp: pool_inv_def exSes_def exKey_def split: if_splits)

lemma exC_watched: "watched exC 1 2"
  using exC_trans_inv by (simp add: watched_def getTrans_def exSes_def exTrans_def)

section \<open>Reachable states\<close>

lemma foreach_stop:
  assumes "trans_inv C" "set ts \<subseteq> set (ses_trans (sesObj C s))"
  shows "\<exists>C'. pforeach ts stopTrans C = (Inr (), C') \<and> trans_inv C' \<and> sesObj C' = sesObj C \<and>
    ids C' = ids C \<and> sessions C' = sessions C"
  using assms
proof (induction ts arbitrary: C)
  case (Cons t ts)
  have "trTimer (trObj C t) \<noteq> NoTimer" using trans_invD(4) [OF Cons.prems(1), of t s] Cons.prems(2) by simp
  then obtain tm where "stopTimer (trTimer (trObj C t)) = Inr tm" by (cases "trTimer (trObj C t)") auto
  then have st: "stopTrans t C = (Inr (), modTrans t (\<lambda>v. v\<lparr>trTimer := tm\<rparr>) C)" by (simp add: stopTrans_def)
  then have "trans_inv (modTrans t (\<lambda>v. v\<lparr>trTimer := tm\<rparr>) C)"
    using steady_stop(1) [of t] Cons.prems(1) by (metis steady_def snd_conv)
  from Cons.IH [OF this] Cons.prems(2) st show ?case by (simp add: pbind_def modTrans_def)
qed simp

text \<open>What stopping does to the timers.\<close>

definition stopped :: "timer \<Rightarrow> timer" where
  "stopped tm = (case tm of Armed n \<Rightarrow> Stopped | _ \<Rightarrow> tm)"

lemma stopped_simps [simp]: "stopped (Armed n) = Stopped" "stopped (stopped tm) = stopped tm"
  by (simp_all add: stopped_def split: timer.split)

definition halt :: "ref list \<Rightarrow> (ref \<Rightarrow> transaction) \<Rightarrow> ref \<Rightarrow> transaction" where
  "halt ts tr t = (if t \<in> set ts then (tr t)\<lparr>trTimer := stopped (trTimer (tr t))\<rparr> else tr t)"

lemma stop_all:
  "pforeach ts stopTrans C = (Inr (), C') \<Longrightarrow> cstore C' = cstore C \<and>
    trObj C' = halt ts (trObj C)"
proof (induction ts arbitrary: C)
  case (Cons t ts)
  then obtain tm where tm: "stopTimer (trTimer (trObj C t)) = Inr tm"
    by (cases "stopTimer (trTimer (trObj C t))") (simp_all add: stopTrans_def pbind_def)
  then have "tm = stopped (trTimer (trObj C t))" by (cases "trTimer (trObj C t)") (auto simp: stopped_def)
  with tm have "stopTrans t C = (Inr (), modTrans t (\<lambda>v. v\<lparr>trTimer := stopped (trTimer v)\<rparr>) C)"
    by (simp add: stopTrans_def modTrans_def)
  with Cons.prems have "pforeach ts stopTrans (modTrans t (\<lambda>v. v\<lparr>trTimer := stopped (trTimer v)\<rparr>) C) = (Inr (), C')"
    by (simp add: pbind_def)
  from Cons.IH [OF this] show ?case by (auto simp: fun_eq_iff halt_def)
qed (simp add: fun_eq_iff halt_def)

lemma destroy_ok:
  assumes "trans_inv C"
  shows "\<exists>C'. destroy s C = (Inr (), C') \<and> trans_inv C' \<and> sesObj C' = sesObj C \<and> ids C' = ids C \<and> sessions C' = sessions C \<and>
    cstore C' = cstore C \<and> trObj C' = halt (ses_trans (sesObj C s)) (trObj C)"
proof -
  obtain C' where C': "destroy s C = (Inr (), C')" "trans_inv C'" "sesObj C' = sesObj C" "ids C' = ids C" "sessions C' = sessions C"
    using foreach_stop [OF assms, of "ses_trans (sesObj C s)" s] by (auto simp: destroy_def)
  with stop_all [of "ses_trans (sesObj C s)" C C'] show ?thesis by (simp add: destroy_def)
qed

lemma cNotify_frame [simp]:
  "ids (cNotify E u p t st C) = ids C" "sessions (cNotify E u p t st C) = sessions C" "cstore (cNotify E u p t st C) = cstore C"
  "sesObj (cNotify E u p t st C) = sesObj C" "trObj (cNotify E u p t st C) = trObj C"
  "trans_inv (cNotify E u p t st C) = trans_inv C"
  by (simp_all add: cNotify_def trans_inv_def)

lemma procUnRegister_done:
  assumes "trans_inv C" "findId (connString c) C = k" "k \<noteq> []" "findSessions k C = Some s"
  shows "\<exists>C'. procUnRegister E c C = (Inr (), C') \<and> ids C' = (ids C)(connString c := None) \<and>
    sessions C' = (sessions C)(k := None) \<and> cstore C' = cstore C \<and>
    trObj C' = halt (ses_trans (sesObj C s)) (trObj C)"
proof -
  let ?v = "sesObj C s"
  let ?C1 = "cNotify E (ses_id ?v) (ses_plat ?v) (ses_token ?v) STATE_OFFLINE C"
  obtain C2 where d: "destroy s ?C1 = (Inr (), C2)" "ids C2 = ids C" "sessions C2 = sessions C" "cstore C2 = cstore C"
    "trObj C2 = halt (ses_trans (sesObj C s)) (trObj C)"
    using destroy_ok [of ?C1 s] assms(1) by auto
  then show ?thesis using assms(2-4)
    by (simp add: procUnRegister_def pbind_simps(1) deleteIds_def deleteSessions_def)
qed

lemma onClose_done:
  assumes "trans_inv C" "findId (connString c) C = k" "k \<noteq> []" "findSessions k C = Some s"
  shows "ids (onClose E c C) = (ids C)(connString c := None)" "sessions (onClose E c C) = (sessions C)(k := None)"
    "cstore (onClose E c C) = cstore C"
    "trObj (onClose E c C) = halt (ses_trans (sesObj C s)) (trObj C)"
proof -
  let ?C = "closeConn E c C"
  have same: "ids ?C = ids C" "sessions ?C = sessions C" "cstore ?C = cstore C" "trObj ?C = trObj C" "sesObj ?C = sesObj C"
    by (cases c; simp)+
  have "trans_inv ?C" using steady_world(5) [of E c] assms(1) by (simp add: steady_def)
  moreover have "findId (connString c) ?C = k" "findSessions k ?C = Some s"
    using assms(2,4) same by (simp_all add: findId_def findSessions_def)
  ultimately obtain C' where "procUnRegister E c ?C = (Inr (), C')" "ids C' = (ids ?C)(connString c := None)"
    "sessions C' = (sessions ?C)(k := None)" "cstore C' = cstore ?C"
    "trObj C' = halt (ses_trans (sesObj ?C s)) (trObj ?C)"
    using procUnRegister_done [OF _ _ assms(3)] by blast
  then show "ids (onClose E c C) = (ids C)(connString c := None)" "sessions (onClose E c C) = (sessions C)(k := None)"
    "cstore (onClose E c C) = cstore C"
    "trObj (onClose E c C) = halt (ses_trans (sesObj C s)) (trObj C)"
    by (simp_all add: onClose_def same)
qed

text \<open>C25: in every state the comet can reach, by any client messages, router requests, closed
  connections and goroutine steps in any order, the handlers one after the other: a session in
  the pool is registered under the key of its own user and platform, the address of its
  connection leads to that key, and no other session of the pool is the same one or has a
  connection from the same address. The converse does not hold: an address may lead to a key
  without a session (\<open>first_close_removes_second_session\<close>).\<close>

theorem reachable_pool_consistent:
  assumes "creach E C" "sessions C k = Some s"
  shows "idf (ses_id (sesObj C s)) (ses_plat (sesObj C s)) = k \<and>
    findId (connString (ses_conn (sesObj C s))) C = k \<and>
    (\<forall>k' s'. sessions C k' = Some s' \<and> k' \<noteq> k \<longrightarrow>
      s' \<noteq> s \<and> connString (ses_conn (sesObj C s')) \<noteq> connString (ses_conn (sesObj C s)))"
proof -
  have inv: "idf (ses_id (sesObj C s')) (ses_plat (sesObj C s')) = k' \<and> ids C (connString (ses_conn (sesObj C s'))) = Some k'"
    if "sessions C k' = Some s'" for k' s'
    using creach_inv [OF assms(1)] that by (simp add: pool_inv_def)
  from inv [OF assms(2)] inv show ?thesis by (fastforce simp: findId_def)
qed

section \<open>Transactions\<close>

text \<open>C27: the goroutine of a transaction takes at most 13 steps, and it is at rest in exactly four
  places: not started, ended, waiting with nothing to come (its timer was stopped without an
  acknowledgement), or blocked on its own exit channel.\<close>

theorem transaction_comes_to_rest:
  assumes "(gostep E t ^^ n) C C'"
  shows "n + rank (trObj C' t) \<le> rank (trObj C t) \<and> n \<le> 13 \<and>
    ((\<exists>C''. gostep E t C' C'') \<longleftrightarrow> \<not> resting (trObj C' t))"
proof -
  have "n + rank (trObj C' t) \<le> rank (trObj C t)"
    using assms
  proof (induction n arbitrary: C')
    case (Suc n)
    then obtain D where "(gostep E t ^^ n) C D" "gostep E t D C'" by auto
    with Suc.IH gostep_rank show ?case by fastforce
  qed simp
  then show ?thesis using rank_bound [of "trObj C t"] no_step_resting by auto
qed

theorem transaction_comes_to_rest_witness:
  "\<exists>C'. (gostep exCenv 2 ^^ 1) exC C' \<and> (\<exists>C''. gostep exCenv 2 C' C'')"
proof -
  let ?C = "modTrans 2 (\<lambda>v. v\<lparr>trTimer := Ticked\<rparr>) exC"
  have "gostep exCenv 2 exC ?C" by (rule gostep.tick [of _ _ 5]) (simp add: exTrans_def)
  then have one: "(gostep exCenv 2 ^^ 1) exC ?C" by auto
  have "\<not> resting (trObj ?C 2)" by (simp add: resting_def exTrans_def)
  then have "\<exists>C''. gostep exCenv 2 ?C C''" using transaction_comes_to_rest [OF one] by blast
  with one show ?thesis by blast
qed

text \<open>C28: a message that was written is kept for later exactly if nobody acknowledges it: left alone,
  its transaction ends in one way, having stored the message once for a platform that keeps
  such messages; acknowledged before its timer ticks, it ends with the store untouched. In
  both cases the session forgets it.\<close>

theorem transaction_outcome:
  assumes "watched C s t" "acks C c h s t"
  shows "(\<exists>X. (\<forall>Y. (gosteps E t C Y \<and> resting (trObj Y t)) = (Y = X)) \<and> trPc (trObj X t) = Done \<and>
      t \<notin> set (ses_trans (sesObj X s)) \<and> cstore X = cstore (keepOffline E (sesObj C s) (trObj C t) C)) \<and>
    (\<exists>X. (\<forall>Y. (gosteps E t (snd (procResp E c h C)) Y \<and> resting (trObj Y t)) = (Y = X)) \<and>
      trPc (trObj X t) = Done \<and> t \<notin> set (ses_trans (sesObj X s)) \<and> cstore X = cstore C)"
  using timeout_run [OF assms(1)] ack_run [OF assms] by blast

lemma exC_acks: "acks exC (TCPConn 1 ''a'') (zeroHeader\<lparr>Tid := 1\<rparr>) 1 2"
  by (simp add: acks_def findId_def findSessions_def getTrans_def exSes_def exTrans_def)

theorem transaction_outcome_witness:
  "\<exists>X. gosteps exCenv 2 exC X \<and> trPc (trObj X 2) = Done \<and> cstore X = SavePushMsg mapEnv ''u'' 1 [7] exSt"
proof -
  have "cstore (keepOffline exCenv (sesObj exC 1) (trObj exC 2) exC) = SavePushMsg mapEnv ''u'' 1 [7] exSt"
    by (simp add: keepOffline_def exTrans_def exSes_def exCenv_def)
  then show ?thesis using transaction_outcome [OF exC_watched exC_acks, of exCenv] by metis
qed

text \<open>C29: an acknowledgement that arrives after the timer ticked, while the goroutine stores the
  message and before it signals itself, stops the goroutine for good: the message is both
  acknowledged and stored, the goroutine has no further step, blocked on its own exit
  channel, and the session remembers the transaction forever.\<close>

theorem late_ack_deadlocks:
  assumes "watched C s t" "acks C c h s t"
  shows "\<exists>D. gosteps E t C D \<and>
    (\<forall>Y. gosteps E t (snd (procResp E c h D)) Y \<longrightarrow> Y = snd (procResp E c h D)) \<and>
    trPc (trObj (snd (procResp E c h D)) t) = Signalling \<and>
    t \<in> set (ses_trans (sesObj (snd (procResp E c h D)) s)) \<and>
    cstore (snd (procResp E c h D)) = cstore (keepOffline E (sesObj C s) (trObj C t) C)"
proof -
  note w = watchedD [OF assms(1)]
  obtain n where v: "trTimer (trObj C t) = Armed n" "trPc (trObj C t) = Waiting" "trExit (trObj C t) = 0"
    using assms by (auto simp: watched_def)
  define C1 where "C1 = modTrans t (\<lambda>v. v\<lparr>trTimer := Ticked\<rparr>) C"
  define C2 where "C2 = modTrans t (\<lambda>v. v\<lparr>trTimer := Drained, trPc := Saving\<rparr>) C1"
  define K where "K = keepOffline E (sesObj C2 (trOwner (trObj C2 t))) (trObj C2 t) C2"
  define D where "D = modTrans t (\<lambda>v. v\<lparr>trPc := Signalling\<rparr>) K"
  have "gostep E t C C1" unfolding C1_def by (rule gostep.tick [OF v(1)])
  moreover have "gostep E t C1 C2" unfolding C2_def by (rule gostep.timeout) (simp_all add: C1_def v)
  moreover have "gostep E t C2 D" unfolding D_def K_def by (rule gostep.save) (simp add: C2_def)
  ultimately have run: "gosteps E t C D" by (meson rtranclp.rtrancl_into_rtrancl rtranclp.rtrancl_refl)
  have same: "ses_trans (sesObj D s') = ses_trans (sesObj C s')" "trTid (trObj D t') = trTid (trObj C t')"
    "trTimer (trObj D t) = Drained" "trPc (trObj D t) = Signalling" "trExit (trObj D t) = 0"
    "\<not> trClosed (trObj D t)" "ids D = ids C" "sessions D = sessions C" for s' t'
    using w v by (simp_all add: D_def K_def C2_def C1_def modTrans_def keepOffline_def)
  have "acks D c h s t"
    using assms(2) getTrans_cong [of D s C, OF same(1) same(2)] same(7,8)
    by (simp add: acks_def findId_def findSessions_def)
  then have ack: "procResp E c h D = (Inr (), modTrans t (\<lambda>v. v\<lparr>trTimer := Drained, trExit := trExit v + 1\<rparr>) D)"
    using procResp_acks [of D c h s t E] same(3,6) by simp
  let ?X = "modTrans t (\<lambda>v. v\<lparr>trTimer := Drained, trExit := trExit v + 1\<rparr>) D"
  have X: "snd (procResp E c h D) = ?X" using ack by simp
  have rest: "resting (trObj ?X t)" using same by (simp add: resting_def)
  have stuck: "\<not> gostep E t ?X Y" for Y using rest no_step_resting by blast
  have "Y = ?X" if "gosteps E t ?X Y" for Y
    using that by (cases rule: converse_rtranclpE) (use stuck in auto)
  then have f1: "\<forall>Y. gosteps E t ?X Y \<longrightarrow> Y = ?X" by blast
  have "cstore ?X = cstore K" by (simp add: D_def)
  also have "\<dots> = cstore (keepOffline E (sesObj C s) (trObj C t) C)"
    using w(2) by (simp add: K_def keepOffline_def C2_def C1_def)
  finally have f2: "cstore ?X = cstore (keepOffline E (sesObj C s) (trObj C t) C)" .
  have f3: "trPc (trObj ?X t) = Signalling" "t \<in> set (ses_trans (sesObj ?X s))"
    using same(1,4) w(1) by simp_all
  show ?thesis by (rule exI [of _ D], unfold X, intro conjI run f1 f2 f3)
qed

theorem late_ack_deadlocks_witness:
  "\<exists>D. gosteps exCenv 2 exC D \<and> trPc (trObj (snd (procResp exCenv (TCPConn 1 ''a'') (zeroHeader\<lparr>Tid := 1\<rparr>) D)) 2) = Signalling"
  using late_ack_deadlocks [OF exC_watched exC_acks, of exCenv] by blast

section \<open>Transaction ids\<close>

text \<open>The ids run through 1 to \<open>2 ^ 31 - 2\<close> and start over.\<close>

lemma bumpTid_mod:
  assumes "1 \<le> t" "t \<le> 2 ^ 31 - 2"
  shows "bumpTid t = t mod (2 ^ 31 - 2) + 1"
  using assms by (cases "t = 2 ^ 31 - 2") (auto simp: bumpTid_def MaxUint32_def)

lemma bumpTid_iter:
  assumes "0 \<le> t" "t \<le> 2 ^ 31 - 2"
  shows "(bumpTid ^^ Suc n) t = (t + int n) mod (2 ^ 31 - 2) + 1"
proof (induction n)
  case 0
  have "t = 0 \<or> 1 \<le> t" using assms(1) by linarith
  then show ?case using bumpTid_mod [of t] assms(2) by (auto simp: bumpTid_def MaxUint32_def)
next
  case (Suc n)
  let ?m = "2 ^ 31 - 2 :: int"
  let ?u = "(t + int n) mod ?m + 1"
  have "0 \<le> (t + int n) mod ?m" "(t + int n) mod ?m < ?m" by (simp_all add: pos_mod_bound)
  then have u: "1 \<le> ?u" "?u \<le> ?m" by linarith+
  have "(bumpTid ^^ Suc (Suc n)) t = bumpTid ?u" using Suc.IH by simp
  also have "\<dots> = ?u mod ?m + 1" by (rule bumpTid_mod [OF u])
  also have "?u mod ?m = (t + int n + 1) mod ?m" by (simp add: mod_add_left_eq)
  finally show ?case by (simp add: add.commute add.left_commute)
qed

fun takeTids :: "nat \<Rightarrow> ref \<Rightarrow> ('r, 'w) Comet \<Rightarrow> int list" where
  "takeTids 0 s C = []"
| "takeTids (Suc n) s C =
     (case nextTid s C of (Inl p, C) \<Rightarrow> [] | (Inr tid, C) \<Rightarrow> tid # takeTids n s C)"

lemma takeTids_nth:
  "i < n \<Longrightarrow> takeTids n s C ! i = (bumpTid ^^ Suc i) (ses_tid (sesObj C s))"
proof (induction n arbitrary: i C)
  case (Suc n)
  show ?case
  proof (cases i)
    case (Suc j)
    then show ?thesis using Suc.IH [of j "modSes s (\<lambda>v. v\<lparr>ses_tid := bumpTid (ses_tid (sesObj C s))\<rparr>) C"] Suc.prems
      by (simp add: nextTid_def modSes_def Let_def funpow_swap1)
  qed (simp add: nextTid_def Let_def)
qed simp

lemma length_takeTids: "length (takeTids n s C) = n"
  by (induction n arbitrary: C) (simp_all add: nextTid_def Let_def)

lemma Tid_SetFields: "Tid (SetEncode (SetMsgType h mt) en) = Tid h"
  by (simp add: SetEncode_def SetMsgType_def)

text \<open>C31: the ids a session gives to its messages are positive, fit the 32 bits of the header and so
  come back from it unchanged, and differ from each other as long as fewer than
  2147483646 of them are compared.\<close>

theorem transaction_ids_unique:
  assumes "0 \<le> ses_tid (sesObj C s)" "ses_tid (sesObj C s) \<le> 2 ^ 31 - 2" "n \<le> 2 ^ 31 - 2"
  shows "distinct (takeTids n s C) \<and>
    (\<forall>tid \<in> set (takeTids n s C). 0 < tid \<and> uint (Tid (mkHeader mt en tid)) = tid)"
proof -
  let ?t = "ses_tid (sesObj C s)" and ?m = "2 ^ 31 - 2 :: int"
  have nth: "takeTids n s C ! i = (?t + int i) mod ?m + 1" if "i < n" for i
    using takeTids_nth [OF that, of s C] bumpTid_iter [OF assms(1,2)] by simp
  have inj: "i = j" if "i < n" "j < n" "(?t + int i) mod ?m = (?t + int j) mod ?m" for i j
  proof -
    have "(?t + int i - ?t) mod ?m = (?t + int j - ?t) mod ?m" using that(3) by (rule mod_diff_cong) simp
    then have "int i mod ?m = int j mod ?m" by simp
    moreover have "n \<le> 2147483646" using assms(3) by simp
    then have "int i < ?m" "int j < ?m" using that(1,2) by simp_all
    ultimately show ?thesis by simp
  qed
  have "distinct (takeTids n s C)"
    unfolding distinct_conv_nth length_takeTids using nth inj by auto
  moreover have "0 < tid \<and> uint (Tid (mkHeader mt en tid)) = tid" if tid: "tid \<in> set (takeTids n s C)" for tid
  proof -
    obtain i where "i < n" "tid = (?t + int i) mod ?m + 1"
      using tid nth by (auto simp: in_set_conv_nth length_takeTids)
    moreover have "0 \<le> (?t + int i) mod ?m" "(?t + int i) mod ?m < ?m" by (simp_all add: pos_mod_bound)
    ultimately have r: "0 < tid" "tid < 2 ^ 31" by linarith+
    then have "uint (word_of_int tid :: u32) = tid" by (simp add: uint_word_of_int)
    then show ?thesis using r(1) by (simp add: mkHeader_def)
  qed
  ultimately show ?thesis by blast
qed

theorem transaction_ids_unique_witness:
  "distinct (takeTids 3 1 exC) \<and> takeTids 3 1 exC = [2, 3, 4]"
proof -
  have "takeTids 3 1 exC = [2, 3, 4]"
    by (simp add: numeral_3_eq_3 nextTid_def Let_def modSes_def exSes_def bumpTid_def MaxUint32_def)
  then show ?thesis using transaction_ids_unique [of exC 1 3] by (simp add: exSes_def)
qed

section \<open>Connections and registrations\<close>

lemma quiet_register_known:
  assumes "findId (connString c) C \<noteq> []"
  shows "pool_same C (snd (procRegister E c h r C))"
proof -
  let ?uid = "stringOf (take (bytesValidLen (RegId r)) (RegId r))"
  let ?tok = "stringOf (take (bytesValidLen (RegToken r)) (RegToken r))"
  obtain err w where "Auth (cTrans E) (rpcCli C) ?uid (uint (TerminalType r)) ?tok (cworld C) = (err, w)" by fastforce
  then obtain C1 where auth: "cAuth E ?uid (uint (TerminalType r)) ?tok C = (Inr err, C1)" by (simp add: cAuth_def)
  have same: "pool_same C C1" using quiet_world(2) auth by (metis quietD)
  then have known: "findId (connString c) C1 \<noteq> []" using assms by (simp add: pool_same_def findId_def)
  have "quiet (pbind (response E c (GetMsgType h + 1) (GetEncode h) (Tid h) code (protoType c)) (\<lambda>_. pret ()))" for code
    by (intro quiet_intros)
  then have "pool_same C1 (snd (procRegister E c h r C))"
    using auth known by (cases "err = None") (simp_all add: procRegister_def Let_def pbind_simps(1) quiet_def)
  with same show ?thesis by (rule pool_same_trans)
qed

text \<open>When a user registers on a second connection before the first is closed, closing the first
  one unregisters the session of the second: the user cannot be reached any more, an instant
  message he sends makes the comet close the second connection, and registering again there
  does not bring the session back.\<close>

theorem first_close_removes_second_session:
  assumes "trans_inv C" "connString c1 \<noteq> connString c2"
    and "findId (connString c1) C = k" "findId (connString c2) C = k" "k \<noteq> []" "findSessions k C = Some s"
    and "C1 = closeConn E c1 C" "C2 = snd (procUnRegister E c1 C1)"
  shows "findSessions k C2 = None \<and> findId (connString c2) C2 = k \<and>
    onClient E c2 (MImUp h ah msg) C2 = closeConn E c2 C2 \<and>
    findSessions k (onClient E c2 (MRegister h ah r) C2) = None"
proof -
  have q: "pool_same C C1" "trans_inv C1"
    using quiet_world(5) [of E c1] steady_world(5) [of E c1] assms(1,7) by (simp_all add: quiet_def steady_def)
  then have "findId (connString c1) C1 = k" "findSessions k C1 = Some s" and ids: "ids C1 = ids C"
    using assms(3,6) by (simp_all add: pool_same_def findId_def findSessions_def)
  with procUnRegister_done [OF q(2) _ assms(5)] obtain C' where "procUnRegister E c1 C1 = (Inr (), C')"
    "ids C' = (ids C1)(connString c1 := None)" "sessions C' = (sessions C1)(k := None)" by blast
  then have C2: "ids C2 = (ids C)(connString c1 := None)" "sessions C2 k = None"
    using assms(8) ids by auto
  then have id2: "findId (connString c2) C2 = k" using assms(2,4) by (simp add: findId_def)
  then have "pool_same C2 (onClient E c2 (MRegister h ah r) C2)"
    using quiet_register_known [of c2 C2] assms(5) by (simp add: onClient_def)
  then show ?thesis using C2(2) id2 assms(5)
    by (simp add: findSessions_def pool_same_def onClient_def procIm_def)
qed

theorem first_close_removes_second_session_witness:
  "findSessions exKey (onClose exCenv (TCPConn 0 ''b'') (exC\<lparr>ids := [''a'' \<mapsto> exKey, ''b'' \<mapsto> exKey]\<rparr>)) = None"
proof -
  let ?C = "exC\<lparr>ids := [''a'' \<mapsto> exKey, ''b'' \<mapsto> exKey]\<rparr>"
  have inv: "trans_inv ?C" using exC_trans_inv by (simp add: trans_inv_def)
  have k: "findId (connString (TCPConn 0 ''b'')) ?C = exKey" "findId (connString (TCPConn 1 ''a'')) ?C = exKey"
    "exKey \<noteq> []" "findSessions exKey ?C = Some 1"
    by (simp_all add: findId_def findSessions_def exKey_def)
  have ne: "connString (TCPConn 0 ''b'') \<noteq> connString (TCPConn 1 ''a'')" by simp
  from first_close_removes_second_session [OF inv ne k refl refl, of exCenv] show ?thesis
    by (simp add: onClose_def)
qed

lemma procRegister_new:
  assumes "Auth (cTrans E) (rpcCli C) uid plat tok (cworld C) = (None, w)" "findId (connString c) C = []"
    "uid = stringOf (take (bytesValidLen (RegId r)) (RegId r))" "plat = uint (TerminalType r)"
    "tok = stringOf (take (bytesValidLen (RegToken r)) (RegToken r))" "C' = snd (procRegister E c h r C)"
  shows "sessions C' = (sessions C)(idf uid plat \<mapsto> freshRef C)" "ids C' = (ids C)(connString c \<mapsto> idf uid plat)"
    "ident (sesObj C' (freshRef C)) = (uid, plat, c, tok)"
proof -
  let ?C1 = "C\<lparr>cworld := w\<rparr>"
  let ?v = "\<lparr>ses_id = uid, ses_plat = plat, ses_conn = c, ses_encode = GetEncode h, ses_tid = 0,
    ses_token = tok, ses_trans = []\<rparr>"
  let ?C2 = "insertIds (connString c) (idf uid plat) (insertSessions (idf uid plat) (freshRef C) (snd (newSes ?v ?C1)))"
  let ?rest = "pbind (response E c (GetMsgType h + 1) (GetEncode h) (Tid h) 0 (protoType c)) (\<lambda>_.
    pbind (pmod (cNotify E uid plat tok STATE_ONLINE)) (\<lambda>_. ProcOfflineMsg E (freshRef C) uid plat))"
  have auth: "cAuth E uid plat tok C = (Inr None, ?C1)" using assms(1) by (simp add: cAuth_def)
  have "findId (connString c) ?C1 = []" using assms(2) by (simp add: findId_def)
  then have eq: "C' = snd (?rest ?C2)"
    using auth unfolding assms(6) by (simp add: procRegister_def Let_def pbind_simps(1) newSes_def assms(3-5) [symmetric])
  have "quiet ?rest" by (intro quiet_intros)
  then have "pool_same ?C2 C'" unfolding eq by (simp add: quiet_def)
  then show "sessions C' = (sessions C)(idf uid plat \<mapsto> freshRef C)" "ids C' = (ids C)(connString c \<mapsto> idf uid plat)"
    "ident (sesObj C' (freshRef C)) = (uid, plat, c, tok)"
    by (auto simp: pool_same_def insertIds_def insertSessions_def newSes_def ident_def)
qed

lemma procRegister_refused:
  assumes "Auth (cTrans E) (rpcCli C) uid plat tok (cworld C) = (Some err, w)"
    "uid = stringOf (take (bytesValidLen (RegId r)) (RegId r))" "plat = uint (TerminalType r)"
    "tok = stringOf (take (bytesValidLen (RegToken r)) (RegToken r))"
  shows "procRegister E c h r C =
    pbind (response E c (GetMsgType h + 1) (GetEncode h) (Tid h) 3 (protoType c)) (\<lambda>_. pret ()) (C\<lparr>cworld := w\<rparr>)"
proof -
  have "cAuth E uid plat tok C = (Inr (Some err), C\<lparr>cworld := w\<rparr>)" using assms(1) by (simp add: cAuth_def)
  then show ?thesis by (simp add: procRegister_def Let_def pbind_simps(1) assms(2-4) [symmetric])
qed

text \<open>A registration is accepted exactly if the router accepts the code: refused, the client gets
  the response with code 3 and the pool and every session stay as they are; accepted on a
  connection that is not registered, a new session with the client's user, platform,
  connection and token replaces what was under its key, its address leads to it, and nobody
  else's registration changes.\<close>

theorem registration_follows_auth:
  assumes "(err, w) = Auth (cTrans E) (rpcCli C) uid plat tok (cworld C)" "findId (connString c) C = []"
    and "uid = stringOf (take (bytesValidLen (RegId r)) (RegId r))" "plat = uint (TerminalType r)"
    and "tok = stringOf (take (bytesValidLen (RegToken r)) (RegToken r))"
  shows "if err = None
    then findSessions (idf uid plat) (snd (procRegister E c h r C)) = Some (freshRef C) \<and>
      ident (sesObj (snd (procRegister E c h r C)) (freshRef C)) = (uid, plat, c, tok) \<and>
      findId (connString c) (snd (procRegister E c h r C)) = idf uid plat \<and>
      (\<forall>k. k \<noteq> idf uid plat \<longrightarrow> findSessions k (snd (procRegister E c h r C)) = findSessions k C) \<and>
      (\<forall>a. a \<noteq> connString c \<longrightarrow> findId a (snd (procRegister E c h r C)) = findId a C)
    else procRegister E c h r C =
        pbind (response E c (GetMsgType h + 1) (GetEncode h) (Tid h) 3 (protoType c)) (\<lambda>_. pret ()) (C\<lparr>cworld := w\<rparr>) \<and>
      pool_same C (snd (procRegister E c h r C))"
proof (cases err)
  case None
  then have auth: "Auth (cTrans E) (rpcCli C) uid plat tok (cworld C) = (None, w)" using assms(1) by simp
  note N = procRegister_new [OF auth assms(2-5) refl, of h]
  with None show ?thesis by (simp add: findSessions_def findId_def)
next
  case (Some e)
  then have auth: "Auth (cTrans E) (rpcCli C) uid plat tok (cworld C) = (Some e, w)" using assms(1) by simp
  note R = procRegister_refused [OF auth assms(3-5), of c h]
  have "quiet (pbind (response E c (GetMsgType h + 1) (GetEncode h) (Tid h) 3 (protoType c)) (\<lambda>_. pret ()))"
    by (intro quiet_intros)
  then have "pool_same (C\<lparr>cworld := w\<rparr>) (snd (procRegister E c h r C))" unfolding R by (simp add: quiet_def)
  then have "pool_same C (snd (procRegister E c h r C))" by (simp add: pool_same_def)
  with Some R show ?thesis by simp
qed

definition exReg :: ParamReg where
  "exReg = \<lparr>Version = 1, TerminalType = 1, RegId = [118], RegToken = [119]\<rparr>"

lemma exReg_fields:
  "stringOf (take (bytesValidLen (RegId exReg)) (RegId exReg)) = ''v''" "uint (TerminalType exReg) = 1"
  "stringOf (take (bytesValidLen (RegToken exReg)) (RegToken exReg)) = ''w''"
  by code_simp+

lemma exCenv_auth: "Auth (cTrans exCenv) p uid plat tok w = (None, w @ [Called (conn p) (AuthRequest uid plat tok)])"
  by (simp add: Auth_def callChecked_def exCenv_def)

theorem registration_follows_auth_witness:
  "findSessions (idf ''v'' 1) (onClient exCenv (TCPConn 9 ''z'') (MRegister zeroHeader \<lparr>Len = 40\<rparr> exReg) exC) = Some 3"
proof -
  let ?w = "cworld exC @ [Called (conn (rpcCli exC)) (AuthRequest ''v'' 1 ''w'')]"
  have auth: "(None, ?w) = Auth (cTrans exCenv) (rpcCli exC) ''v'' 1 ''w'' (cworld exC)"
    by (simp add: exCenv_auth)
  have free: "findId (connString (TCPConn 9 ''z'')) exC = []" by (simp add: findId_def)
  from registration_follows_auth [OF auth free exReg_fields(1) [symmetric] exReg_fields(2) [symmetric]
      exReg_fields(3) [symmetric]] show ?thesis
    by (simp add: onClient_def)
qed

text \<open>A comet somebody has registered at.\<close>

definition exC1 :: "(redis, exEvent list) Comet" where
  "exC1 = onClient exCenv (TCPConn 9 ''z'') (MRegister zeroHeader \<lparr>Len = 40\<rparr> exReg)
     (newComet ''c1'' \<lparr>clientId = [], serverAddr = [], conn = 0, status = []\<rparr> exSt [])"

lemma exC1_reach: "creach exCenv exC1" "sessions exC1 (idf ''v'' 1) = Some 1"
proof -
  let ?C = "newComet ''c1'' \<lparr>clientId = [], serverAddr = [], conn = 0, status = []\<rparr> exSt [] ::
    (redis, exEvent list) Comet"
  show "creach exCenv exC1" unfolding exC1_def by (rule creach.step [OF creach.start cstep.client])
  have free: "findId (connString (TCPConn 9 ''z'')) ?C = []" by (simp add: findId_def newComet_def)
  have "freshRef ?C = 1" by (simp add: newComet_def)
  then show "sessions exC1 (idf ''v'' 1) = Some 1"
    using procRegister_new(1) [OF exCenv_auth free exReg_fields [symmetric] refl, of zeroHeader]
    by (simp add: exC1_def onClient_def)
qed

theorem reachable_pool_consistent_witness:
  "idf (ses_id (sesObj exC1 1)) (ses_plat (sesObj exC1 1)) = idf ''v'' 1 \<and>
   findId (connString (ses_conn (sesObj exC1 1))) exC1 = idf ''v'' 1"
  using reachable_pool_consistent [OF exC1_reach] by blast

section \<open>Messages nobody acknowledges\<close>

text \<open>What the comet keeps of a message it could not get to the client.\<close>

definition storedFor :: "'r env \<Rightarrow> int \<Rightarrow> string \<Rightarrow> int \<Rightarrow> bytes \<Rightarrow> 'r Storager \<Rightarrow> 'r Storager" where
  "storedFor e tp uid plat body =
     (if tp = MSGTYPE_PUSH then if plat = PLAT_ANDROID then SavePushMsg e uid plat body else (\<lambda>st. st)
      else if plat = PLAT_WEB then (\<lambda>st. st)
      else if tp = MSGTYPE_CALLBACK then SaveCallbackMsg e uid plat body else SaveImMsg e uid plat body)"

lemma keepOffline_storedFor:
  assumes "tp \<in> {MSGTYPE_PUSH, MSGTYPE_CALLBACK, MSGTYPE_MESSAGE}" "trType v = tp" "trMsg v = body"
    "ses_id p = uid" "ses_plat p = plat"
  shows "cstore (keepOffline E p v C) = storedFor (cStore E) tp uid plat body (cstore C)"
  using assms by (auto simp: keepOffline_def storedFor_def)

lemma fallback_storedFor:
  "cstore (pushFallback E (PushRequst tp flag uid plat tok body) C) = storedFor (cStore E) MSGTYPE_PUSH uid plat body (cstore C)"
  "cstore (callbackFallback E (PushRequst tp flag uid plat tok body) C) = storedFor (cStore E) MSGTYPE_CALLBACK uid plat body (cstore C)"
  "cstore (messageFallback E (PushRequst tp flag uid plat tok body) C) = storedFor (cStore E) MSGTYPE_MESSAGE uid plat body (cstore C)"
  "freshRef (pushFallback E m C) = freshRef C" "freshRef (callbackFallback E m C) = freshRef C"
  "freshRef (messageFallback E m C) = freshRef C"
  by (simp_all add: pushFallback_def callbackFallback_def messageFallback_def storeWith_def cApns_def storedFor_def)

lemma writeConn_world: "\<exists>ok w. writeConn E c buf C = (Inr ok, C\<lparr>cworld := w\<rparr>)"
proof (cases c)
  case (OtherConn i)
  then have "writeConn E c buf C = (Inr True, C\<lparr>cworld := cworld C\<rparr>)" by simp
  then show ?thesis by blast
qed (auto split: prod.split)

text \<open>The comet after a send that went through: id, transaction and timer.\<close>

definition booked :: "ref \<Rightarrow> int \<Rightarrow> int \<Rightarrow> bytes \<Rightarrow> 'w \<Rightarrow> ('r, 'w) Comet \<Rightarrow> ('r, 'w) Comet" where
  "booked s tid mt body w C = checkTrans s (freshRef C) (saveTransaction s (freshRef C)
     (snd (newTransaction tid mt body ((modSes s (\<lambda>v. v\<lparr>ses_tid := tid\<rparr>) C)\<lparr>cworld := w\<rparr>))))"

lemma booked_simps [simp]:
  "trObj (booked s tid mt body w C) = (trObj C)(freshRef C := \<lparr>trTid = tid, trType = mt, trMsg = body,
     trTimer = Armed (if mt \<noteq> MSGTYPE_CALLBACK then 5 else 60), trExit = 0, trClosed = False, trPc = Waiting, trOwner = s\<rparr>)"
  "ses_trans (sesObj (booked s tid mt body w C) s) = ses_trans (sesObj C s) @ [freshRef C]"
  "ses_id (sesObj (booked s tid mt body w C) s) = ses_id (sesObj C s)"
  "ses_plat (sesObj (booked s tid mt body w C) s) = ses_plat (sesObj C s)"
  "cstore (booked s tid mt body w C) = cstore C" "freshRef (booked s tid mt body w C) = freshRef C + 1"
  "ses_conn (sesObj (booked s tid mt body w C) s) = ses_conn (sesObj C s)"
  "ses_encode (sesObj (booked s tid mt body w C) s) = ses_encode (sesObj C s)"
  "ses_tid (sesObj (booked s tid mt body w C) s) = tid"
  "cworld (booked s tid mt body w C) = w" "ids (booked s tid mt body w C) = ids C" "sessions (booked s tid mt body w C) = sessions C"
  unfolding booked_def checkTrans_def saveTransaction_def newTransaction_def modTrans_def modSes_def zeroTrans_def
  by simp_all

lemma booked_inv:
  assumes "trans_inv C"
  shows "trans_inv (booked s tid mt body w C)"
proof -
  let ?W = "(modSes s (\<lambda>v. v\<lparr>ses_tid := tid\<rparr>) C)\<lparr>cworld := w\<rparr>"
  have "trans_same C ?W" by (simp add: trans_same_def modSes_def)
  then have "trans_inv ?W" by (rule trans_same_inv [OF assms])
  from trans_inv_new [OF this, of s tid mt body] show ?thesis by (simp add: booked_def modSes_def)
qed

lemma booked_new:
  assumes "trans_inv C" "getTrans s tid C = None"
  shows "watched (booked s tid mt body w C) s (freshRef C)"
proof -
  let ?C = "booked s tid mt body w C" and ?t = "freshRef C"
  have "trTid (trObj C t) \<noteq> tid \<and> t \<noteq> ?t" if "t \<in> set (ses_trans (sesObj C s))" for t
    using that assms(2) trans_invD(1) [OF assms(1) that] by (auto simp: getTrans_def find_None_iff)
  then have "find (\<lambda>t. trTid (trObj ?C t) = tid) (ses_trans (sesObj C s)) = None" by (auto simp: find_None_iff)
  then have "getTrans s tid ?C = Some ?t" unfolding getTrans_def booked_simps(2) find_append by simp
  then show ?thesis using booked_inv [OF assms(1)] by (simp add: watched_def)
qed

lemma sendTracked_cases:
  assumes "trans_inv C" "getTrans s (bumpTid (ses_tid (sesObj C s))) C = None"
    "sendTracked E s mt mk body ptl C = (Inr ok, C1)"
  shows "cstore C1 = cstore C \<and> (if ok then freshRef C1 = freshRef C + 1 \<and> watched C1 s (freshRef C) \<and>
      trType (trObj C1 (freshRef C)) = mt \<and> trMsg (trObj C1 (freshRef C)) = body \<and>
      ses_id (sesObj C1 s) = ses_id (sesObj C s) \<and> ses_plat (sesObj C1 s) = ses_plat (sesObj C s)
    else freshRef C1 = freshRef C)"
proof -
  let ?tid = "bumpTid (ses_tid (sesObj C s))" and ?t = "freshRef C"
  let ?N = "modSes s (\<lambda>v. v\<lparr>ses_tid := ?tid\<rparr>) C"
  have next_eq: "nextTid s C = (Inr ?tid, ?N)" by (simp add: nextTid_def Let_def)
  obtain buf where buf: "Pack (jlib E) (mk ?tid) ptl = Inr buf"
    using assms(3) next_eq by (cases "Pack (jlib E) (mk ?tid) ptl") (simp_all add: sendTracked_def pbind_simps)
  obtain ok' w where wr: "writeConn E (ses_conn (sesObj ?N s)) buf ?N = (Inr ok', ?N\<lparr>cworld := w\<rparr>)"
    using writeConn_world [of E "ses_conn (sesObj ?N s)" buf ?N] by blast
  show ?thesis
  proof (cases ok')
    case False
    then have "ok = False" "C1 = ?N\<lparr>cworld := w\<rparr>"
      using assms(3) next_eq buf wr by (simp_all add: sendTracked_def pbind_simps)
    then show ?thesis by (simp add: modSes_def)
  next
    case True
    have ok: "ok" and C1: "C1 = booked s ?tid mt body w C"
      using True assms(3) next_eq buf wr by (simp_all add: sendTracked_def booked_def pbind_simps newTransaction_def modSes_def)
    show ?thesis using ok booked_new [OF assms(1,2), of mt body w] by (simp add: C1)
  qed
qed

text \<open>The three handlers of the router's messages, read as one.\<close>

definition fallbackOf :: "('r, 'w) cenv \<Rightarrow> rpcRequest \<Rightarrow> ('r, 'w) Comet \<Rightarrow> ('r, 'w) Comet" where
  "fallbackOf E m = (if puTp m = MSGTYPE_PUSH then pushFallback E m
     else if puTp m = MSGTYPE_CALLBACK then callbackFallback E m else messageFallback E m)"

lemma fallbackOf_stores:
  assumes "tp \<in> {MSGTYPE_PUSH, MSGTYPE_CALLBACK, MSGTYPE_MESSAGE}"
  shows "freshRef (fallbackOf E (PushRequst tp flag uid plat tok body) C) = freshRef C"
    "cstore (fallbackOf E (PushRequst tp flag uid plat tok body) C) = storedFor (cStore E) tp uid plat body (cstore C)"
  using assms by (auto simp: fallbackOf_def fallback_storedFor)

lemma RpcAsyncHandleC_send:
  assumes "tp \<in> {MSGTYPE_PUSH, MSGTYPE_CALLBACK, MSGTYPE_MESSAGE}" "m = PushRequst tp flag uid plat tok body"
  shows "\<exists>mk. RpcAsyncHandleC E m C = (case findSessions (idf uid plat) C of
      None \<Rightarrow> (Inr (), fallbackOf E m C)
    | Some s \<Rightarrow> pbind (sendTracked E s tp mk body (ptlOf plat)) (\<lambda>ok. if ok then pret () else pmod (fallbackOf E m)) C)"
  using assms by (auto simp: push_def callback_def message_def fallbackOf_def cong: if_cong split: option.splits)

text \<open>
  A send either panics in packing, after it has taken an id, or answers whether the write went
  through.
\<close>

lemma sendTracked_panics:
  assumes "sendTracked E s mt mk body ptl C = (Inl e, D)"
  shows "D = modSes s (\<lambda>v. v\<lparr>ses_tid := bumpTid (ses_tid v)\<rparr>) C"
proof -
  let ?tid = "bumpTid (ses_tid (sesObj C s))"
  let ?N = "modSes s (\<lambda>v. v\<lparr>ses_tid := ?tid\<rparr>) C"
  have next_eq: "nextTid s C = (Inr ?tid, ?N)" by (simp add: nextTid_def Let_def)
  have "?N = D"
  proof (cases "Pack (jlib E) (mk ?tid) ptl")
    case (Inl p)
    then show ?thesis using assms next_eq by (simp add: sendTracked_def pbind_simps)
  next
    case (Inr buf)
    obtain ok w where wr: "writeConn E (ses_conn (sesObj ?N s)) buf ?N = (Inr ok, ?N\<lparr>cworld := w\<rparr>)"
      using writeConn_world [of E "ses_conn (sesObj ?N s)" buf ?N] by blast
    show ?thesis using assms next_eq Inr wr by (cases ok) (simp_all add: sendTracked_def pbind_simps newTransaction_def)
  qed
  then show ?thesis by (simp add: modSes_def)
qed

text \<open>A transaction whose connection is closed while its timer runs never takes a step again.\<close>

lemma closed_before_tick:
  assumes "watched C s t" "findId (connString c) C = k" "k \<noteq> []" "findSessions k C = Some s"
  shows "cstore (onClose E c C) = cstore C" "gosteps E t (onClose E c C) Y \<Longrightarrow> Y = onClose E c C"
proof -
  have inv: "trans_inv C" using assms(1) by (simp add: watched_def)
  note D = onClose_done [OF inv assms(2-4), of E]
  show "cstore (onClose E c C) = cstore C" by (rule D(3))
  have "resting (trObj (onClose E c C) t)"
    using assms(1) watchedD [OF assms(1)] by (auto simp: D(4) halt_def watched_def resting_def)
  then have stuck: "\<not> gostep E t (onClose E c C) Z" for Z using no_step_resting by blast
  show "Y = onClose E c C" if "gosteps E t (onClose E c C) Y"
    using that by (cases rule: converse_rtranclpE) (use stuck in auto)
qed

text \<open>A message that was written is kept by its goroutine, or by nobody.\<close>

lemma written_fate:
  assumes "trans_inv C" "tp \<in> {MSGTYPE_PUSH, MSGTYPE_CALLBACK, MSGTYPE_MESSAGE}" "findSessions (idf uid plat) C = Some s"
    and "ses_id (sesObj C s) = uid" "ses_plat (sesObj C s) = plat" "getTrans s (bumpTid (ses_tid (sesObj C s))) C = None"
    and "sendTracked E s tp mk body ptl C = (Inr True, D)" "t = freshRef C"
  shows "freshRef D \<noteq> t"
    "\<exists>X. (\<forall>Y. (gosteps E t D Y \<and> resting (trObj Y t)) = (Y = X)) \<and> trPc (trObj X t) = Done \<and>
        cstore X = storedFor (cStore E) tp uid plat body (cstore C)"
    "\<forall>c. findId (connString c) D = idf uid plat \<longrightarrow> cstore (onClose E c D) = cstore C \<and>
        (\<forall>Y. gosteps E t (onClose E c D) Y \<longrightarrow> Y = onClose E c D)"
proof -
  note S = sendTracked_cases [OF assms(1,6,7)]
  then have w: "watched D s t" "freshRef D \<noteq> t" and st: "cstore D = cstore C" using assms(8) by simp_all
  have keep: "cstore (keepOffline E (sesObj D s) (trObj D t) D) = storedFor (cStore E) tp uid plat body (cstore C)"
    using S assms(4,5,8) by (subst keepOffline_storedFor [OF assms(2)]) simp_all
  have "pool_same C D" using quietD [OF quiet_sendTracked assms(7)] .
  then have "findSessions (idf uid plat) D = Some s" using assms(3) by (simp add: findSessions_def pool_same_def)
  note closed = closed_before_tick [OF w(1) _ idf_not_Nil this]
  show "freshRef D \<noteq> t"
    "\<exists>X. (\<forall>Y. (gosteps E t D Y \<and> resting (trObj Y t)) = (Y = X)) \<and> trPc (trObj X t) = Done \<and>
        cstore X = storedFor (cStore E) tp uid plat body (cstore C)"
    "\<forall>c. findId (connString c) D = idf uid plat \<longrightarrow> cstore (onClose E c D) = cstore C \<and>
        (\<forall>Y. gosteps E t (onClose E c D) Y \<longrightarrow> Y = onClose E c D)"
    using timeout_run [OF w(1), of E] w(2) keep closed st by auto
qed

text \<open>C26: what becomes of a push, callback or instant message from the router that no client
  acknowledges. If the handler panics, which can only happen while it packs the message for a
  session, the message is lost: nothing is stored or written, only the session's id counter has
  moved. If no transaction was made (there is no session, or the write failed) it is stored at
  once. If it was written, its goroutine, left alone, ends in exactly one way, having stored it;
  but if its connection is closed before the timer has ticked, nothing is stored and the
  goroutine never takes another step: the message is lost too. Storing is \<open>storedFor\<close>: a push
  for Android only, a callback or instant message for anything but the web.\<close>

theorem routed_message_fate:
  assumes "trans_inv C" "tp \<in> {MSGTYPE_PUSH, MSGTYPE_CALLBACK, MSGTYPE_MESSAGE}"
    and "\<And>s. findSessions (idf uid plat) C = Some s \<Longrightarrow> ses_id (sesObj C s) = uid \<and> ses_plat (sesObj C s) = plat \<and>
      getTrans s (bumpTid (ses_tid (sesObj C s))) C = None"
    and "m = PushRequst tp flag uid plat tok body" "C1 = onRpc E m C" "t = freshRef C"
  shows "if fst (RpcAsyncHandleC E m C) \<noteq> Inr ()
    then \<exists>s. findSessions (idf uid plat) C = Some s \<and> C1 = modSes s (\<lambda>v. v\<lparr>ses_tid := bumpTid (ses_tid v)\<rparr>) C
    else if freshRef C1 = t then cstore C1 = storedFor (cStore E) tp uid plat body (cstore C)
    else (\<exists>X. (\<forall>Y. (gosteps E t C1 Y \<and> resting (trObj Y t)) = (Y = X)) \<and> trPc (trObj X t) = Done \<and>
        cstore X = storedFor (cStore E) tp uid plat body (cstore C)) \<and>
      (\<forall>c. findId (connString c) C1 = idf uid plat \<longrightarrow> cstore (onClose E c C1) = cstore C \<and>
        (\<forall>Y. gosteps E t (onClose E c C1) Y \<longrightarrow> Y = onClose E c C1))"
proof -
  obtain mk where run: "RpcAsyncHandleC E m C = (case findSessions (idf uid plat) C of
      None \<Rightarrow> (Inr (), fallbackOf E m C)
    | Some s \<Rightarrow> pbind (sendTracked E s tp mk body (ptlOf plat)) (\<lambda>ok. if ok then pret () else pmod (fallbackOf E m)) C)"
    using RpcAsyncHandleC_send [OF assms(2,4)] by blast
  note fb = fallbackOf_stores [OF assms(2), of E flag uid plat tok body, folded assms(4)]
  show ?thesis
  proof (cases "findSessions (idf uid plat) C")
    case None
    then show ?thesis using run fb assms(5,6) by (simp add: onRpc_def)
  next
    case (Some s)
    note s = assms(3) [OF Some]
    obtain r D where D: "sendTracked E s tp mk body (ptlOf plat) C = (r, D)" by fastforce
    show ?thesis
    proof (cases r)
      case (Inl e)
      then show ?thesis using run Some D sendTracked_panics [of E s tp mk body "ptlOf plat" C e D] assms(5)
        by (simp add: onRpc_def pbind_def)
    next
      case (Inr ok)
      have ran: "fst (RpcAsyncHandleC E m C) = Inr ()" "C1 = (if ok then D else fallbackOf E m D)"
        using run Some D Inr assms(5) by (simp_all add: onRpc_def pbind_def)
      show ?thesis
      proof (cases ok)
        case False
        then show ?thesis
          using sendTracked_cases [OF assms(1) conjunct2 [OF conjunct2 [OF s]] D [unfolded Inr]] ran fb assms(6) by simp
      next
        case True
        with D Inr have "sendTracked E s tp mk body (ptlOf plat) C = (Inr True, D)" by simp
        note W = written_fate [OF assms(1,2) Some _ _ _ this assms(6)]
        have "C1 = D" using ran(2) True by simp
        with W s ran(1) show ?thesis by simp
      qed
    qed
  qed
qed

text \<open>A push to the Android session of \<open>exC\<close>: written, never acknowledged, stored.\<close>

lemma exPush_books:
  "fst (RpcAsyncHandleC exCenv (PushRequst MSGTYPE_PUSH 0 ''u'' 1 [] [9]) exC) = Inr ()"
  "freshRef (onRpc exCenv (PushRequst MSGTYPE_PUSH 0 ''u'' 1 [] [9]) exC) = 4"
  "ids (onRpc exCenv (PushRequst MSGTYPE_PUSH 0 ''u'' 1 [] [9]) exC) = ids exC"
proof -
  have wf: "wf_message (pushMessage 0 0 False [9] 2)"
    by (simp add: wf_message_def pushMessage_def codec_ok_def mkHeader_def)
  have web: "\<not> webIsOnline ''u'' exC"
    using idf_inj(2) [of "''u''" PLAT_WEB "''u''" 1] by (auto simp: webIsOnline_def findSessions_def exKey_def)
  obtain b where "Pack (jlib exCenv) (pushMessage 0 0 False [9] 2) (ptlOf 1) = Inr b"
    using packBinary_frame [OF wf] by (auto simp: Pack_def ptlOf_def pushMessage_def)
  moreover have "writeConn exCenv (TCPConn 1 ''a'') b C = (Inr True, C\<lparr>cworld := cworld C @ [Wrote (TCPConn 1 ''a'') b]\<rparr>)" for C
    by (simp add: exCenv_def)
  moreover have "nextTid 1 exC = (Inr 2, modSes 1 (\<lambda>v. v\<lparr>ses_tid := 2\<rparr>) exC)"
    by (simp add: nextTid_def exSes_def bumpTid_def MaxUint32_def)
  moreover have "ses_conn (sesObj (modSes 1 (\<lambda>v. v\<lparr>ses_tid := 2\<rparr>) exC) 1) = TCPConn 1 ''a''"
    by (simp add: modSes_def exSes_def)
  moreover have "findSessions (idf ''u'' 1) exC = Some 1" "ses_encode (sesObj exC 1) = 0"
    by (simp_all add: findSessions_def exKey_def exSes_def)
  ultimately have "RpcAsyncHandleC exCenv (PushRequst MSGTYPE_PUSH 0 ''u'' 1 [] [9]) exC =
      (Inr (), booked 1 2 MSGTYPE_PUSH [9] (cworld exC @ [Wrote (TCPConn 1 ''a'') b]) exC)"
    using web by (simp add: push_def sendTracked_def pbind_simps newTransaction_def booked_def) (simp add: modSes_def)
  then show "fst (RpcAsyncHandleC exCenv (PushRequst MSGTYPE_PUSH 0 ''u'' 1 [] [9]) exC) = Inr ()"
    "freshRef (onRpc exCenv (PushRequst MSGTYPE_PUSH 0 ''u'' 1 [] [9]) exC) = 4"
    "ids (onRpc exCenv (PushRequst MSGTYPE_PUSH 0 ''u'' 1 [] [9]) exC) = ids exC"
    unfolding onRpc_def by simp_all
qed

text \<open>Left alone it is stored; with its connection closed it is not.\<close>

theorem routed_message_fate_witness:
  "let C1 = onRpc exCenv (PushRequst MSGTYPE_PUSH 0 ''u'' 1 [] [9]) exC
   in (\<exists>X. gosteps exCenv 3 C1 X \<and> cstore X = SavePushMsg mapEnv ''u'' 1 [9] exSt) \<and>
     cstore (onClose exCenv (TCPConn 1 ''a'') C1) = exSt"
proof -
  let ?m = "PushRequst MSGTYPE_PUSH 0 ''u'' 1 [] [9]"
  let ?C1 = "onRpc exCenv ?m exC"
  have s: "ses_id (sesObj exC s) = ''u'' \<and> ses_plat (sesObj exC s) = 1 \<and>
      getTrans s (bumpTid (ses_tid (sesObj exC s))) exC = None" if "findSessions (idf ''u'' 1) exC = Some s" for s
    using that by (simp add: findSessions_def exKey_def exSes_def getTrans_def exTrans_def bumpTid_def MaxUint32_def)
  have e: "storedFor (cStore exCenv) MSGTYPE_PUSH ''u'' 1 [9] (cstore exC) = SavePushMsg mapEnv ''u'' 1 [9] exSt"
    by (simp add: storedFor_def exCenv_def)
  have "MSGTYPE_PUSH \<in> {MSGTYPE_PUSH, MSGTYPE_CALLBACK, MSGTYPE_MESSAGE}" by simp
  note F = routed_message_fate [where flag = 0 and tok = "[]" and body = "[9]" and E = exCenv,
      OF exC_trans_inv this s refl refl refl, unfolded e]
  have id: "findId (connString (TCPConn 1 ''a'')) ?C1 = idf ''u'' 1"
    using exPush_books by (simp add: findId_def exKey_def)
  show ?thesis unfolding Let_def using F exPush_books(1,2) id by auto
qed

end
