(* ===== verification/System.thy ===== *)
theory System
  imports RouterInv CometProps
begin

text \<open>
  Comet and router together: the comet's RPC client calls the router's server, so the world the
  comet acts on is the router process with its queue of reports. What the comet relies on is
  stated as a contract of the authentication service, which the router is shown to provide.
\<close>

section \<open>The contract\<close>

locale auth_service =
  fixes t :: "'w transport"
    and healthy :: "'w \<Rightarrow> bool"
    and code :: "'w \<Rightarrow> string \<Rightarrow> int \<Rightarrow> string option"
  assumes auth: "healthy w \<Longrightarrow> fst (Auth t p uid plat tok w) = None \<longleftrightarrow> code w uid plat = Some tok"
begin

text \<open>A connection gets registered exactly if the service knows the code.\<close>

lemma registered:
  assumes "healthy (cworld C)" "cTrans E = t" "findId (connString c) C = []"
    and "uid = stringOf (take (bytesValidLen (RegId r)) (RegId r))" "plat = uint (TerminalType r)"
    and "tok = stringOf (take (bytesValidLen (RegToken r)) (RegToken r))"
  shows "findId (connString c) (snd (procRegister E c h r C)) =
    (if code (cworld C) uid plat = Some tok then idf uid plat else [])"
proof -
  obtain err w where a: "Auth (cTrans E) (rpcCli C) uid plat tok (cworld C) = (err, w)" by fastforce
  then have k: "err = None \<longleftrightarrow> code (cworld C) uid plat = Some tok"
    using auth [OF assms(1), of "rpcCli C" uid plat tok] assms(2) by simp
  show ?thesis
  proof (cases err)
    case None
    then show ?thesis using procRegister_new(2) [OF a [unfolded None] assms(3-6) refl] k by (simp add: findId_def)
  next
    case (Some e)
    have "quiet (pbind (response E c (GetMsgType h + 1) (GetEncode h) (Tid h) 3 (protoType c)) (\<lambda>_. pret ()))"
      by (intro quiet_intros)
    then have "pool_same (C\<lparr>cworld := w\<rparr>) (snd (procRegister E c h r C))"
      unfolding procRegister_refused [OF a [unfolded Some] assms(4-6)] by (simp add: quiet_def)
    with Some k assms(3) show ?thesis by (simp add: pool_same_def findId_def)
  qed
qed

end

section \<open>The router as the service\<close>

text \<open>
  A network that delivers: a call of the comet runs the method of the router's RPC server. The
  second half of the world is the server's queue of requests that are answered first.
\<close>

definition routerTransport :: "('r, 'w) renv \<Rightarrow> (('r, 'w) Router \<times> rpcRequest list) transport" where
  "routerTransport E = \<lparr>dial = (\<lambda>addr w. (Some 0, w)),
     call = (\<lambda>h m req w. (let (code, w) = serve (RpcSyncHandle E) req w in (Some code, w))),
     hangup = (\<lambda>h w. w)\<rparr>"

definition routerHealthy :: "('r, 'w) renv \<Rightarrow> ('r, 'w) Router \<times> rpcRequest list \<Rightarrow> bool" where
  "routerHealthy E w \<longleftrightarrow> redis_ok (storeEnv E) \<and> users_ok (storeEnv E) (store (fst w))"

definition routerCode :: "('r, 'w) renv \<Rightarrow> ('r, 'w) Router \<times> rpcRequest list \<Rightarrow> string \<Rightarrow> int \<Rightarrow> string option" where
  "routerCode E w uid = logged (startDoc (storeEnv E) (store (fst w)) uid)"

lemma Auth_router:
  "Auth (routerTransport E) p uid plat tok (R, q) =
    (let (code, R) = RpcSyncHandle E (AuthRequest uid plat tok) R
     in (if code = 0 then None else Some ERROR_RESPONSE, (R, q)))"
  by (simp add: Auth_def callChecked_def routerTransport_def split: prod.split)

lemma Notify_router:
  "Notify (routerTransport E) p uid plat tok st cid (R, q) = (None, (R, q @ [StateNotify uid plat tok cid st]))"
  by (simp add: Notify_def callUnchecked_def routerTransport_def)

interpretation routerAuth: auth_service "routerTransport E" "routerHealthy E" "routerCode E" for E :: "('r, 'w) renv"
proof
  fix w :: "('r, 'w) Router \<times> rpcRequest list" and p :: RpcClient and uid plat tok
  assume ok: "routerHealthy E w"
  obtain R q where w: "w = (R, q)" by (cases w)
  have "fst (RpcSyncHandle E (AuthRequest uid plat tok) R) =
      (if routerCode E w uid plat = Some tok then RPC_RET_SUCCESS else RPC_RET_FAILED)"
    using Auth_logged [of E R uid plat tok] ok by (simp add: w routerHealthy_def routerCode_def)
  then show "fst (Auth (routerTransport E) p uid plat tok w) = None \<longleftrightarrow> routerCode E w uid plat = Some tok"
    unfolding w Auth_router by (auto split: prod.split if_splits)
qed

text \<open>A client gets registered at the comet exactly if the code it presents is the one that the latest
  login on its platform left with the router, whatever logins of whatever users the router
  handled before.\<close>

theorem registration_follows_logins:
  assumes "redis_ok (storeEnv RE)" "users_ok (storeEnv RE) (store R)" "\<forall>msg \<in> set ms. asciiMsg msg"
    and "cTrans E = routerTransport RE" "cworld C = (runLogins RE ms R, q)" "findId (connString c) C = []"
    and "uid = stringOf (take (bytesValidLen (RegId r)) (RegId r))" "plat = uint (TerminalType r)"
    and "tok = stringOf (take (bytesValidLen (RegToken r)) (RegToken r))"
  shows "findId (connString c) (snd (procRegister E c h r C)) =
    (if fold absLogin (filter (\<lambda>msg. uoLogin msg \<and> uoUid msg = uid) ms)
          (logged (startDoc (storeEnv RE) (store R) uid)) plat = Some tok
     then idf uid plat else [])"
proof -
  note run = runLogins_ok [OF assms(1-3), of uid]
  have "routerHealthy RE (cworld C)" using run assms(1,5) by (simp add: routerHealthy_def)
  from routerAuth.registered [OF this assms(4,6-9)] show ?thesis
    using run assms(5) by (simp add: routerCode_def)
qed

text \<open>The comet of the example, its calls going to the example's router.\<close>

definition exSysEnv :: "(redis, (redis, (nat \<times> rpcRequest) list) Router \<times> rpcRequest list) cenv" where
  "exSysEnv = \<lparr>cStore = mapEnv, cTrans = routerTransport exEnv, sockWrite = (\<lambda>c b w. (True, w)),
     sockClose = (\<lambda>c w. w), apnsSounds = iOSSound, apnsSend = (\<lambda>n w. (Some 200, w)), jlib = oneTextLib (JObj [])\<rparr>"

definition exSysComet :: "UserOnlineState list \<Rightarrow>
    (redis, (redis, (nat \<times> rpcRequest) list) Router \<times> rpcRequest list) Comet" where
  "exSysComet ms = newComet ''c1'' \<lparr>clientId = [], serverAddr = [], conn = 0, status = []\<rparr> exSt
     (runLogins exEnv ms exRouter, [])"

text \<open>Registers user \<open>u\<close> on Android with code \<open>w\<close>.\<close>

definition exRegU :: ParamReg where
  "exRegU = \<lparr>Version = 1, TerminalType = 1, RegId = [117], RegToken = [119]\<rparr>"

lemma exRegU_fields:
  "stringOf (take (bytesValidLen (RegId exRegU)) (RegId exRegU)) = ''u''" "uint (TerminalType exRegU) = 1"
  "stringOf (take (bytesValidLen (RegToken exRegU)) (RegToken exRegU)) = ''w''"
  by code_simp+

theorem registration_follows_logins_witness:
  "findId ''z'' (snd (procRegister exSysEnv (TCPConn 9 ''z'') zeroHeader exRegU (exSysComet [exLogin 1 ''w'']))) = idf ''u'' 1 \<and>
   findId ''z'' (snd (procRegister exSysEnv (TCPConn 9 ''z'') zeroHeader exRegU
     (exSysComet [exLogin 1 ''w'', exLogin 2 ''b'']))) = []"
proof -
  have redis: "redis_ok (storeEnv exEnv)" and users: "users_ok (storeEnv exEnv) (store exRouter)"
    using mapEnv_ok exSt_users_ok by simp_all
  have tr: "cTrans exSysEnv = routerTransport exEnv" by (simp add: exSysEnv_def)
  have w: "cworld (exSysComet ms) = (runLogins exEnv ms exRouter, [])" for ms by (simp add: exSysComet_def newComet_def)
  have free: "findId (connString (TCPConn 9 ''z'')) (exSysComet ms) = []" for ms
    by (simp add: exSysComet_def newComet_def findId_def)
  have asc: "\<forall>msg \<in> set [exLogin 1 ''w'']. asciiMsg msg" "\<forall>msg \<in> set [exLogin 1 ''w'', exLogin 2 ''b'']. asciiMsg msg"
    by (simp_all add: exLogin_ascii ascii_def)
  note u = exRegU_fields [symmetric]
  from registration_follows_logins [OF redis users asc(1) tr w free u, of zeroHeader]
    registration_follows_logins [OF redis users asc(2) tr w free u, of zeroHeader]
  show ?thesis by (simp add: absLogin_def mutexPlats_phone phone_def)
qed

lemma registration_after_history:
  assumes "redis_ok (storeEnv RE)" "router_ok RE R" "\<forall>i \<in> set is. asciiInput RE i"
    and "cTrans E = routerTransport RE" "cworld C = (runRouter RE is R, q)" "findId (connString c) C = []"
    and "uid = stringOf (take (bytesValidLen (RegId r)) (RegId r))" "plat = uint (TerminalType r)"
    and "tok = stringOf (take (bytesValidLen (RegToken r)) (RegToken r))"
  shows "findId (connString c) (snd (procRegister E c h r C)) =
    (if fold absLogin (loginsOf RE (topics R) uid is) (codes RE R uid) plat = Some tok then idf uid plat else [])"
proof -
  note run = runRouter_ok [OF assms(1-3), of uid]
  have "routerHealthy RE (cworld C)" using run assms(1,5) by (simp add: routerHealthy_def router_ok_def)
  from routerAuth.registered [OF this assms(4,6-9)] show ?thesis
    using run assms(5) by (simp add: routerCode_def codes_def)
qed

text \<open>C23: a client gets registered at the comet exactly if the code it presents is the one that the latest
  login on its platform left with the router, whatever queue messages, reports, calls, requests
  and exits of comets the router has handled before, and in whatever order.\<close>

theorem registration_follows_history:
  assumes "redis_ok (storeEnv RE)" "router_ok RE R" "\<forall>i \<in> set is. asciiInput RE i"
    and "cTrans E = routerTransport RE" "cworld C = (runRouter RE is R, q)" "findId (connString c) C = []"
    and "uid = stringOf (take (bytesValidLen (RegId r)) (RegId r))" "plat = uint (TerminalType r)"
    and "tok = stringOf (take (bytesValidLen (RegToken r)) (RegToken r))"
  shows "findId (connString c) (snd (procRegister E c h r C)) =
    (if fold absLogin (loginsOf RE (topics R) uid is) (codes RE R uid) plat = Some tok then idf uid plat else [])"
  by (rule registration_after_history [OF assms])

theorem registration_follows_history_witness:
  "findId ''z'' (snd (procRegister exSysEnv (TCPConn 9 ''z'') zeroHeader exRegU
     ((exSysComet [])\<lparr>cworld := (runRouter exEnv [loginMessage 1 ''w'', CometExit [''u''] ''c1''] exRouter, [])\<rparr>))) = idf ''u'' 1"
proof -
  let ?is = "[loginMessage 1 ''w'', CometExit [''u''] ''c1'']"
  let ?C = "(exSysComet [])\<lparr>cworld := (runRouter exEnv ?is exRouter, [])\<rparr>"
  have redis: "redis_ok (storeEnv exEnv)" using mapEnv_ok by simp
  have asc: "\<forall>i \<in> set ?is. asciiInput exEnv i"
    by (simp add: loginMessage_def asciiBody_def exLogin_ascii ascii_def)
  have tr: "cTrans exSysEnv = routerTransport exEnv" by (simp add: exSysEnv_def)
  have w: "cworld ?C = (runRouter exEnv ?is exRouter, [])" by simp
  have free: "findId (connString (TCPConn 9 ''z'')) ?C = []"
    by (simp add: exSysComet_def newComet_def findId_def)
  have logins: "loginsOf exEnv (topics exRouter) ''u'' ?is = [exLogin 1 ''w'']"
    by (simp add: loginsOf_def loginMessage_def List.map_filter_def loginBody_def)
  from registration_follows_history [OF redis exRouter_ok asc tr w free exRegU_fields [symmetric], of zeroHeader]
  show ?thesis unfolding logins by (simp add: absLogin_def)
qed

section \<open>The report of a registration\<close>

text \<open>The sockets of the clients are not the router.\<close>

definition sockets_apart :: "('r, 'w) cenv \<Rightarrow> bool" where
  "sockets_apart E \<longleftrightarrow> (\<forall>c b w. snd (sockWrite E c b w) = w)"

definition calm :: "(('r, 'w) Comet, 'a) pcd \<Rightarrow> bool" where
  "calm f \<longleftrightarrow> (\<forall>C. cworld (snd (f C)) = cworld C)"

named_theorems calm_intros \<open>procedures that only act inside the comet and on its sockets\<close>

lemma calm_bind [calm_intros]:
  assumes "calm m" "\<And>x. calm (f x)"
  shows "calm (pbind m f)"
  unfolding calm_def
proof
  fix C
  obtain r C1 where m: "m C = (r, C1)" by fastforce
  then have "cworld C1 = cworld C" using assms(1) by (metis calm_def snd_conv)
  moreover have "cworld (snd (f x C1)) = cworld C1" for x using assms(2) by (simp add: calm_def)
  ultimately show "cworld (snd (pbind m f C)) = cworld C" by (cases r) (simp_all add: pbind_def m)
qed

lemma calm_basic [calm_intros]:
  "calm (pret x)" "calm (plift r)" "calm (pget h)" "calm f \<Longrightarrow> calm g \<Longrightarrow> calm (if b then f else g)"
  by (simp_all add: calm_def)

lemma calm_option [calm_intros]:
  "calm f \<Longrightarrow> (\<And>x. calm (g x)) \<Longrightarrow> calm (case r of None \<Rightarrow> f | Some x \<Rightarrow> g x)"
  by (cases r) auto

lemma calm_foreach [calm_intros]: "(\<And>i. calm (body i)) \<Longrightarrow> calm (pforeach is body)"
  by (induction "is") (auto intro!: calm_intros)

lemma calm_state [calm_intros]:
  "calm (pmod (storeWith g))" "calm (takeQueue q)" "calm (nextTid s)" "calm (newTransaction tid mt body)"
  "calm (pmod (saveTransaction s t))" "calm (pmod (checkTrans s t))"
  "calm (\<lambda>C. let (r, st) = GetPushMsg e uid plat (cstore C) in (Inr r, C\<lparr>cstore := st\<rparr>))"
  by (simp_all add: calm_def storeWith_def takeQueue_def nextTid_def newTransaction_def saveTransaction_def
      checkTrans_def modSes_def modTrans_def Let_def split: prod.split)

lemma calm_write: "sockets_apart E \<Longrightarrow> calm (writeConn E c buf)"
  by (cases c) (auto simp: calm_def sockets_apart_def split: prod.split, (metis snd_conv)+)

lemma calm_offline:
  assumes "sockets_apart E"
  shows "calm (response E c mt en tid code pt)" "calm (ProcOfflineMsg E s uid plat)"
  unfolding response_def ProcOfflineMsg_def offlinePush_def offlineCallback_def offlineIm_def sendTracked_def
  by (intro calm_intros calm_write [OF assms])+

text \<open>A response never panics: its body is one byte long.\<close>

lemma response_runs:
  assumes "\<forall>kvs. jtext (jlib E) (JObj kvs) \<noteq> []"
  shows "\<exists>ok C'. response E c mt en tid code pt C = (Inr ok, C')"
proof -
  let ?h = "(SetEncode (SetMsgType zeroHeader mt) en)\<lparr>Tid := tid\<rparr>"
  let ?m = "MResp ?h \<lparr>Len = 1\<rparr> \<lparr>Code = code\<rparr>"
  have "wf_message ?m" by (simp add: wf_message_def codec_ok_def EncodeParamResp_def)
  then obtain b where bin: "packBinary ?m = Inr b" using packBinary_frame by force
  obtain b' where json: "packJson (jlib E) ?m = Inr b'"
    using Encode_Decode assms by (simp add: packJson_def cmdObject_def) metis
  have "Pack (jlib E) ?m pt \<in> {Inr b, Inr b', Inr []}"
    unfolding Pack_def using bin json by (simp del: packBinary.simps)
  then obtain b'' where "Pack (jlib E) ?m pt = Inr b''" by blast
  moreover obtain ok w where "writeConn E c b'' C = (Inr ok, C\<lparr>cworld := w\<rparr>)"
    using writeConn_world [of E c b'' C] by blast
  ultimately show ?thesis by (simp add: response_def)
qed

lemma procRegister_world:
  assumes "Auth (cTrans E) (rpcCli C) uid plat tok (cworld C) = (None, w)" "findId (connString c) C = []"
    "uid = stringOf (take (bytesValidLen (RegId r)) (RegId r))" "plat = uint (TerminalType r)"
    "tok = stringOf (take (bytesValidLen (RegToken r)) (RegToken r))" "sockets_apart E" "\<forall>kvs. jtext (jlib E) (JObj kvs) \<noteq> []"
  shows "cworld (snd (procRegister E c h r C)) =
    snd (Notify (cTrans E) (rpcCli C) uid plat tok STATE_ONLINE (cometId C) w)"
proof -
  let ?C1 = "C\<lparr>cworld := w\<rparr>"
  let ?v = "\<lparr>ses_id = uid, ses_plat = plat, ses_conn = c, ses_encode = GetEncode h, ses_tid = 0,
    ses_token = tok, ses_trans = []\<rparr>"
  let ?C2 = "insertIds (connString c) (idf uid plat) (insertSessions (idf uid plat) (freshRef C) (snd (newSes ?v ?C1)))"
  let ?resp = "response E c (GetMsgType h + 1) (GetEncode h) (Tid h) 0 (protoType c)"
  let ?rest = "\<lambda>_. pbind (pmod (cNotify E uid plat tok STATE_ONLINE)) (\<lambda>_. ProcOfflineMsg E (freshRef C) uid plat)"
  have auth: "cAuth E uid plat tok C = (Inr None, ?C1)" using assms(1) by (simp add: cAuth_def)
  have "findId (connString c) ?C1 = []" using assms(2) by (simp add: findId_def)
  then have eq: "procRegister E c h r C = pbind ?resp ?rest ?C2"
    using auth by (simp add: procRegister_def Let_def pbind_simps(1) newSes_def assms(3-5) [symmetric])
  obtain ok C3 where r: "?resp ?C2 = (Inr ok, C3)"
    using response_runs [OF assms(7)] by blast
  have "cworld C3 = w \<and> rpcCli C3 = rpcCli C \<and> cometId C3 = cometId C"
  proof -
    have "\<exists>w. C3 = ?C2\<lparr>cworld := w\<rparr>"
      using r writeConn_world [of E c _ ?C2]
      by (cases "Pack (jlib E) (MResp ((SetEncode (SetMsgType zeroHeader (GetMsgType h + 1)) (GetEncode h))\<lparr>Tid := Tid h\<rparr>)
          \<lparr>Len = 1\<rparr> \<lparr>Code = 0\<rparr>) (protoType c)")
        (auto simp: response_def pbind_simps, metis Pair_inject)
    moreover have "cworld C3 = cworld ?C2" using calm_offline(1) [OF assms(6)] r by (metis calm_def snd_conv)
    ultimately show ?thesis by (auto simp: insertIds_def insertSessions_def newSes_def)
  qed
  then show ?thesis
    using calm_offline(2) [OF assms(6), unfolded calm_def, rule_format, of "freshRef C" uid plat] r
    by (simp add: eq pbind_simps(1) cNotify_def)
qed

lemma Auth_router_keeps:
  assumes "routerHealthy RE (R, q)" "RpcSyncHandle RE (AuthRequest uid plat tok) R = (code, R1)"
  shows "routerHealthy RE (R1, q)" "lookupDoc (storeEnv RE) (store R1) = lookupDoc (storeEnv RE) (store R)"
    "comets R1 = comets R"
proof -
  let ?e = "storeEnv RE"
  have ok: "redis_ok ?e" "users_ok ?e (store R)" using assms(1) by (simp_all add: routerHealthy_def)
  obtain s st where F: "FindSessions ?e uid (store R) = (s, st)" by fastforce
  have R1: "R1 = R\<lparr>store := st\<rparr>" using assms(2) F by (auto simp: Let_def split: option.splits)
  have wf: "st_wf (store R)" using ok(2) by (simp add: users_ok_def)
  note L = FindSessions_lookup [OF ok(1) wf users_ok_loads [OF ok(2)] F]
  show "lookupDoc ?e (store R1) = lookupDoc ?e (store R)" "comets R1 = comets R" using L R1 by simp_all
  show "routerHealthy RE (R1, q)" using ok L R1 by (simp add: routerHealthy_def users_ok_def)
qed

text \<open>C24: a registration the router accepts ends with the router knowing where the user is: the comet
  sends exactly one report, and once the router has handled it, the user's document names this
  comet and shows the terminal online, for this process and after a restart, the comet counts
  one user more, no other user's document has changed, and the comet has the session under the
  user's key.\<close>

theorem registration_reaches_router:
  assumes "redis_ok (storeEnv RE)" "users_ok (storeEnv RE) (store R)" "ascii (cometId C)"
    and "cTrans E = routerTransport RE" "sockets_apart E" "\<forall>kvs. jtext (jlib E) (JObj kvs) \<noteq> []"
    and "cworld C = (R, [])" "findId (connString c) C = []"
    and "uid = stringOf (take (bytesValidLen (RegId r)) (RegId r))" "plat = uint (TerminalType r)"
    and "tok = stringOf (take (bytesValidLen (RegToken r)) (RegToken r))"
    and "lookupDoc (storeEnv RE) (store R) uid = Some d" "logged d plat = Some tok"
    and "C' = snd (procRegister E c h r C)" "(R', q) = handleMessages (RpcAsyncHandle RE) (cworld C')"
  shows "q = [] \<and> length (snd (cworld C')) = 1 \<and> findSessions (idf uid plat) C' = Some (freshRef C) \<and>
    lookupDoc (storeEnv RE) (store R') =
      (lookupDoc (storeEnv RE) (store R))(uid \<mapsto> docOnline plat tok (cometId C) d) \<and>
    lookupDoc (storeEnv RE) (NewStorager (cli (store R'))) uid = Some (docOnline plat tok (cometId C) d) \<and>
    comets R' = cometAdd (cometId C) (comets R)"
proof -
  let ?e = "storeEnv RE"
  have healthy: "routerHealthy RE (R, [])" using assms(1,2) by (simp add: routerHealthy_def)
  obtain code R1 where sync: "RpcSyncHandle RE (AuthRequest uid plat tok) R = (code, R1)" by fastforce
  have "startDoc ?e (store R) uid = d" using assms(12) by (simp add: startDoc_def)
  then have "code = 0" using Auth_logged [OF assms(1,2), of uid plat tok] assms(13) sync by simp
  then have auth: "Auth (cTrans E) (rpcCli C) uid plat tok (cworld C) = (None, (R1, []))"
    by (simp add: assms(4,7) Auth_router sync del: RpcSyncHandle.simps)
  note K = Auth_router_keeps [OF healthy sync]
  let ?m = "StateNotify uid plat tok (cometId C) 1"
  have w: "cworld C' = (R1, [?m])"
    using procRegister_world [OF auth assms(8-11,5,6), of h] by (simp add: assms(4,14) Notify_router)
  have R': "R' = RpcAsyncHandle RE ?m R1" "q = []" using assms(15) w by simp_all
  have ok: "users_ok ?e (store R1)" using K(1) by (simp add: routerHealthy_def)
  have look: "lookupDoc ?e (store R1) uid = Some d" using K(2) assms(12) by simp
  note D = onlineReport_done [OF assms(1) ok look assms(3), of plat tok, folded R'(1)]
  have s: "findSessions (idf uid plat) C' = Some (freshRef C)"
    using procRegister_new(1) [OF auth assms(8-11,14)] by (simp add: findSessions_def)
  show ?thesis using D(2,4) lookupDoc_restart [OF D(3)] K(2,3) R'(2) w s by simp
qed

definition exRegOld :: ParamReg where
  "exRegOld = \<lparr>Version = 1, TerminalType = 1, RegId = [117], RegToken = [111, 108, 100]\<rparr>"

lemma exRegOld_fields:
  "stringOf (take (bytesValidLen (RegId exRegOld)) (RegId exRegOld)) = ''u''" "uint (TerminalType exRegOld) = 1"
  "stringOf (take (bytesValidLen (RegToken exRegOld)) (RegToken exRegOld)) = ''old''"
  by code_simp+

theorem registration_reaches_router_witness:
  "\<exists>R'. handleMessages (RpcAsyncHandle exEnv)
      (cworld (snd (procRegister exSysEnv (TCPConn 9 ''z'') zeroHeader exRegOld (exSysComet [])))) = (R', []) \<and>
    map_option online (comets R' ''c1'') = Some 3"
proof -
  let ?C' = "snd (procRegister exSysEnv (TCPConn 9 ''z'') zeroHeader exRegOld (exSysComet []))"
  have env: "redis_ok (storeEnv exEnv)" "users_ok (storeEnv exEnv) (store exRouter)"
    using mapEnv_ok exSt_users_ok by simp_all
  have cid: "cometId (exSysComet []) = ''c1''" and w: "cworld (exSysComet []) = (exRouter, [])"
    and free: "findId (connString (TCPConn 9 ''z'')) (exSysComet []) = []"
    by (simp_all add: exSysComet_def newComet_def findId_def runLogins_def)
  have asc: "ascii (cometId (exSysComet []))" by (simp add: cid ascii_def)
  have tr: "cTrans exSysEnv = routerTransport exEnv" and apart: "sockets_apart exSysEnv"
    and jt: "\<forall>kvs. jtext (jlib exSysEnv) (JObj kvs) \<noteq> []"
    by (simp_all add: exSysEnv_def sockets_apart_def oneTextLib_def)
  have look: "lookupDoc (storeEnv exEnv) (store exRouter) ''u'' = Some exDoc" by (simp add: lookupDoc_exSt)
  have log: "logged exDoc 1 = Some ''old''" by (simp add: logged_def docPlat_def)
  obtain R' q where h: "(R', q) = handleMessages (RpcAsyncHandle exEnv) (cworld ?C')" by (metis prod.collapse)
  have "online (exComet a h n) = n" for a h n by (simp add: exComet_def)
  with registration_reaches_router [OF env asc tr apart jt w free exRegOld_fields [symmetric] look log refl h] h cid
  have "q = [] \<and> map_option online (comets R' ''c1'') = Some 3" by (simp add: cometAdd_def)
  with h show ?thesis by (intro exI [of _ R']) simp
qed

end
