(* ===== verification/Client.thy ===== *)
theory Client
  imports Tcp System
begin

text \<open>
  The clients of the repository that speak the binary protocol, \<^verbatim>\<open>src/ua/bench/bench.go\<close> (a
  load tool that runs many clients) and \<^verbatim>\<open>src/ua/android/android.go\<close> (one client), and the
  comet in front of them.

  The tools import \<^verbatim>\<open>galopush/protocol\<close> and \<^verbatim>\<open>galopush/counter\<close>, which are not in the
  repository: their functions and constants are the record \<open>uaLib\<close>, an argument of every
  definition. The structs of a message are the records of \<open>Protocol\<close>, of which the tools use
  only fields that these have. The properties instantiate the record with the package the
  comet uses, \<^verbatim>\<open>src/internal/protocol\<close>.
\<close>

section \<open>The imported package\<close>

datatype protocolName =
    N_DEFAULT | N_REGISTER | N_REGRESP | N_HEARTBEAT | N_HBRESP | N_PUSH | N_CALLBACK | N_CBRESP
  | N_MESSAGE | N_MSGRESP | N_MAX | N_ANDROID | N_BINARY | N_LOOP_XOR | N_FIX_LEN | N_ADD_LEN

text \<open>What a tool sends or receives: one constructor per struct it names.\<close>

datatype uaMsg =
    UaHeader Header
  | UaRegister Header AddHeader ParamReg
  | UaResp Header AddHeader ParamResp
  | UaPush Header AddHeader ParamPush bytes
  | UaCallback Header AddHeader bytes
  | UaIm Header AddHeader bytes

record uaLib =
  uConst :: "protocolName \<Rightarrow> int"
  uSetMsgType :: "Header \<Rightarrow> int \<Rightarrow> Header"
  uSetEncode :: "Header \<Rightarrow> int \<Rightarrow> Header"
  uGetMsgType :: "Header \<Rightarrow> int"
  uGetEncode :: "Header \<Rightarrow> int"
  uPack :: "uaMsg \<Rightarrow> int \<Rightarrow> gopanic + bytes"
  uDecodeHeader :: "bytes \<Rightarrow> ioerr + Header"
  uDecodeAddHeader :: "bytes \<Rightarrow> ioerr + AddHeader"
  uDecodeParamResp :: "bytes \<Rightarrow> ioerr + ParamResp"
  uDecodeParamPush :: "bytes \<Rightarrow> ioerr + ParamPush"
  uCodecDecode :: "bytes \<Rightarrow> nat \<Rightarrow> int \<Rightarrow> gopanic + bytes"

section \<open>A client\<close>

text \<open>
  \<^verbatim>\<open>uaPings\<close> counts the heartbeat goroutines that were started, \<^verbatim>\<open>uaExited\<close> tells that
  \<^verbatim>\<open>log.Fatal\<close> ended the process.
\<close>

record 'w UA =
  uaUid :: string
  uaPlat :: int
  uaToken :: string
  uaEncode :: int
  uaTid :: u32
  uaPings :: nat
  uaExited :: bool
  uaWorld :: 'w

record 'w uaEnv =
  uaLibOf :: uaLib
  uaWrite :: "bytes \<Rightarrow> 'w \<Rightarrow> bool \<times> 'w"
  uaCount :: "string \<Rightarrow> 'w \<Rightarrow> 'w"

definition uaSend :: "'w uaEnv \<Rightarrow> uaMsg \<Rightarrow> ('w UA, bool) pcd" where
  "uaSend E m =
     pbind (plift (uPack (uaLibOf E) m (uConst (uaLibOf E) N_BINARY))) (\<lambda>b p.
       let (ok, w) = uaWrite E b (uaWorld p) in (Inr ok, p\<lparr>uaWorld := w\<rparr>))"

definition uaAdd :: "'w uaEnv \<Rightarrow> string \<Rightarrow> 'w UA \<Rightarrow> 'w UA" where
  "uaAdd E k p = p\<lparr>uaWorld := uaCount E k (uaWorld p)\<rparr>"

definition uaNextTid :: "'w UA \<Rightarrow> 'w UA" where
  "uaNextTid p = p\<lparr>uaTid := uaTid p + 1\<rparr>"

text \<open>The header every sender fills in, and \<^verbatim>\<open>for i := 0; i < len(b) && i < 32; i++\<close>.\<close>

definition uaHead :: "uaLib \<Rightarrow> protocolName \<Rightarrow> int \<Rightarrow> u32 \<Rightarrow> Header" where
  "uaHead L msgType encode tid =
     (uSetEncode L (uSetMsgType L zeroHeader (uConst L msgType)) encode)\<lparr>Tid := tid\<rparr>"

definition copy32 :: "bytes \<Rightarrow> bytes" where
  "copy32 b = take 32 b @ replicate (32 - length b) 0"

definition registerMsg :: "uaLib \<Rightarrow> int \<Rightarrow> string \<Rightarrow> string \<Rightarrow> u32 \<Rightarrow> uaMsg" where
  "registerMsg L encode uid token tid =
     UaRegister (uaHead L N_REGISTER encode tid) \<lparr>Len = 66\<rparr>
       \<lparr>Version = 1, TerminalType = word_of_int (uConst L N_ANDROID), RegId = copy32 (bytesOf uid),
        RegToken = copy32 (bytesOf token)\<rparr>"

definition respMsg :: "uaLib \<Rightarrow> int \<Rightarrow> protocolName \<Rightarrow> u32 \<Rightarrow> int \<Rightarrow> uaMsg" where
  "respMsg L encode msgType tid code =
     UaResp (uaHead L msgType encode tid) \<lparr>Len = 1\<rparr> \<lparr>Code = word_of_int code\<rparr>"

definition heartbeatMsg :: "uaLib \<Rightarrow> int \<Rightarrow> u32 \<Rightarrow> uaMsg" where
  "heartbeatMsg L encode tid = UaHeader (uaHead L N_HEARTBEAT encode tid)"

definition imMsg :: "uaLib \<Rightarrow> int \<Rightarrow> string \<Rightarrow> u32 \<Rightarrow> uaMsg" where
  "imMsg L encode body tid =
     UaIm (uaHead L N_MESSAGE encode tid) \<lparr>Len = of_nat (length (bytesOf body))\<rparr> (bytesOf body)"

section \<open>bench.go\<close>

text \<open>The procedures return whether the write went through.\<close>

definition benchRegister :: "'w uaEnv \<Rightarrow> ('w UA, bool) pcd" where
  "benchRegister E =
     pbind (pmod uaNextTid) (\<lambda>_.
     pbind (pget (\<lambda>p. registerMsg (uaLibOf E) (uaEncode p) (uaUid p) (uaToken p) (uaTid p))) (\<lambda>m.
     pbind (uaSend E m) (\<lambda>ok.
       if ok then pret True
       else pbind (pmod (uaAdd E ''net.Write'')) (\<lambda>_. pret False))))"

definition benchResp :: "'w uaEnv \<Rightarrow> protocolName \<Rightarrow> u32 \<Rightarrow> int \<Rightarrow> ('w UA, unit) pcd" where
  "benchResp E msgType tid code =
     pbind (pget (\<lambda>p. respMsg (uaLibOf E) (uaEncode p) msgType tid code)) (\<lambda>m.
     pbind (uaSend E m) (\<lambda>_. pret ()))"

definition benchHeartbeat :: "'w uaEnv \<Rightarrow> ('w UA, bool) pcd" where
  "benchHeartbeat E =
     pbind (pmod uaNextTid) (\<lambda>_.
     pbind (pget (\<lambda>p. heartbeatMsg (uaLibOf E) (uaEncode p) (uaTid p))) (uaSend E))"

definition benchIm :: "'w uaEnv \<Rightarrow> string \<Rightarrow> ('w UA, bool) pcd" where
  "benchIm E body =
     pbind (pmod uaNextTid) (\<lambda>_.
     pbind (pget (\<lambda>p. imMsg (uaLibOf E) (uaEncode p) body (uaTid p))) (uaSend E))"

fun benchProc :: "'w uaEnv \<Rightarrow> uaMsg \<Rightarrow> ('w UA, unit) pcd" where
  "benchProc E (UaResp h ah r) =
     (let msgType = uGetMsgType (uaLibOf E) h; regresp = uConst (uaLibOf E) N_REGRESP in
      if msgType = regresp \<and> Code r = 0 then
        pbind (pmod (uaAdd E ''register success'')) (\<lambda>_. pmod (\<lambda>p. p\<lparr>uaPings := uaPings p + 1\<rparr>))
      else if msgType = regresp \<and> Code r \<noteq> 0 then pmod (uaAdd E ''register failed'')
      else pret ())"
| "benchProc E (UaPush h ah pp msg) = benchResp E N_MSGRESP (Tid h) 0"
| "benchProc E (UaCallback h ah msg) = benchResp E N_CBRESP (Tid h) 0"
| "benchProc E (UaIm h ah msg) = benchResp E N_MSGRESP (Tid h) 0"
| "benchProc E _ = pret ()"

text \<open>\<^verbatim>\<open>service\<close>: the messages of the channel one after the other.\<close>

definition benchService :: "'w uaEnv \<Rightarrow> uaMsg list \<Rightarrow> ('w UA, unit) pcd" where
  "benchService E ms = pforeach ms (benchProc E)"

section \<open>The read loop\<close>

text \<open>Why the loop ended; the tools read like the comet, through a \<^verbatim>\<open>readTimeout\<close> of the same body.\<close>

datatype uaStop = UaReadFailed | UaBadHeader | UaBadMsgType | UaBadBody | UaPanicked gopanic

definition uaReadTimeout :: "nat \<Rightarrow> netev list \<Rightarrow> bytes option \<times> netev list" where
  "uaReadTimeout n ns = readTimeout n ns"

definition uaReadBody :: "uaLib \<Rightarrow> Header \<Rightarrow> AddHeader \<Rightarrow> netev list \<Rightarrow> (uaStop + uaMsg) \<times> netev list" where
  "uaReadBody L h ah ns =
     (let msgType = uGetMsgType L h in
      if msgType \<in> {uConst L N_REGRESP, uConst L N_HBRESP, uConst L N_MSGRESP, uConst L N_PUSH,
          uConst L N_CALLBACK, uConst L N_MESSAGE} then
        (case uaReadTimeout (unat (Len ah)) ns of
           (None, ns) \<Rightarrow> (Inl UaReadFailed, ns)
         | (Some buffer, ns) \<Rightarrow>
             (case uCodecDecode L buffer (unat (Len ah)) (uGetEncode L h) of
                Inl panic \<Rightarrow> (Inl (UaPanicked panic), ns)
              | Inr buffer \<Rightarrow>
                  if msgType = uConst L N_PUSH then
                    (case uDecodeParamPush L buffer of
                       Inl err \<Rightarrow> (Inl UaBadBody, ns)
                     | Inr param \<Rightarrow>
                         if length buffer < 3 then (Inl (UaPanicked SliceBounds), ns)
                         else (Inr (UaPush h ah param (drop 3 buffer)), ns))
                  else if msgType = uConst L N_CALLBACK then (Inr (UaCallback h ah buffer), ns)
                  else if msgType = uConst L N_MESSAGE then (Inr (UaIm h ah buffer), ns)
                  else
                    (case uDecodeParamResp L buffer of
                       Inl err \<Rightarrow> (Inl UaBadBody, ns)
                     | Inr param \<Rightarrow> (Inr (UaResp h ah param), ns))))
      else (Inl UaBadMsgType, ns))"

text \<open>
  \<^verbatim>\<open>readRuntime\<close>: the messages it sends to the channel, in order, and why it ends. With a header
  length of 0 in the imported package it would not end, which is the value \<open>None\<close>.
\<close>

partial_function (option) uaRead :: "uaLib \<Rightarrow> netev list \<Rightarrow> (uaMsg list \<times> uaStop) option" where
  "uaRead L ns =
     (case uaReadTimeout (nat (uConst L N_FIX_LEN)) ns of
        (None, ns1) \<Rightarrow> Some ([], UaReadFailed)
      | (Some buffer, ns1) \<Rightarrow>
          (case uDecodeHeader L buffer of
             Inl err \<Rightarrow> Some ([], UaBadHeader)
           | Inr h \<Rightarrow>
               if uGetMsgType L h = uConst L N_DEFAULT \<or> uGetMsgType L h \<ge> uConst L N_MAX
               then Some ([], UaBadMsgType)
               else if uGetMsgType L h = uConst L N_HEARTBEAT then
                 Option.bind (uaRead L ns1) (\<lambda>(ms, why). Some (UaHeader h # ms, why))
               else
                 (case uaReadTimeout (nat (uConst L N_ADD_LEN)) ns1 of
                    (None, ns2) \<Rightarrow> Some ([], UaReadFailed)
                  | (Some buffer, ns2) \<Rightarrow>
                      (case uDecodeAddHeader L buffer of
                         Inl err \<Rightarrow> Some ([], UaBadHeader)
                       | Inr ah \<Rightarrow>
                           (case uaReadBody L h ah ns2 of
                              (Inl why, ns3) \<Rightarrow> Some ([], why)
                            | (Inr m, ns3) \<Rightarrow>
                                Option.bind (uaRead L ns3) (\<lambda>(ms, why). Some (m # ms, why)))))))"

section \<open>android.go\<close>

text \<open>
  The same statements with constants for the user and the encoding, a transaction id in a
  global variable, no counters, and \<^verbatim>\<open>log.Fatal\<close> where the load tool logs: the process ends
  when an answer cannot be written and whenever the read loop ends.
\<close>

definition androidStart :: "uaLib \<Rightarrow> 'w \<Rightarrow> 'w UA" where
  "androidStart L w = \<lparr>uaUid = ''8'', uaPlat = uConst L N_ANDROID,
     uaToken = ''d73d89472cdb13a1cdf79a55bccbbd56'', uaEncode = uConst L N_LOOP_XOR, uaTid = 0,
     uaPings = 0, uaExited = False, uaWorld = w\<rparr>"

definition androidRegister :: "'w uaEnv \<Rightarrow> string \<Rightarrow> string \<Rightarrow> ('w UA, bool) pcd" where
  "androidRegister E uid token =
     pbind (pmod uaNextTid) (\<lambda>_.
     pbind (pget (\<lambda>p. registerMsg (uaLibOf E) (uConst (uaLibOf E) N_LOOP_XOR) uid token (uaTid p))) (uaSend E))"

definition androidResp :: "'w uaEnv \<Rightarrow> protocolName \<Rightarrow> u32 \<Rightarrow> int \<Rightarrow> ('w UA, unit) pcd" where
  "androidResp E msgType tid code =
     pbind (uaSend E (respMsg (uaLibOf E) (uConst (uaLibOf E) N_LOOP_XOR) msgType tid code)) (\<lambda>ok.
       if ok then pret () else pmod (\<lambda>p. p\<lparr>uaExited := True\<rparr>))"

definition androidHeartbeat :: "'w uaEnv \<Rightarrow> ('w UA, bool) pcd" where
  "androidHeartbeat E =
     pbind (pmod uaNextTid) (\<lambda>_.
     pbind (pget (\<lambda>p. heartbeatMsg (uaLibOf E) (uConst (uaLibOf E) N_LOOP_XOR) (uaTid p))) (uaSend E))"

definition androidIm :: "'w uaEnv \<Rightarrow> string \<Rightarrow> ('w UA, bool) pcd" where
  "androidIm E body =
     pbind (pmod uaNextTid) (\<lambda>_.
     pbind (pget (\<lambda>p. imMsg (uaLibOf E) (uConst (uaLibOf E) N_LOOP_XOR) body (uaTid p))) (uaSend E))"

fun androidProc :: "'w uaEnv \<Rightarrow> uaMsg \<Rightarrow> ('w UA, unit) pcd" where
  "androidProc E (UaResp h ah r) =
     (if uGetMsgType (uaLibOf E) h = uConst (uaLibOf E) N_REGRESP \<and> Code r = 0
      then pmod (\<lambda>p. p\<lparr>uaPings := uaPings p + 1\<rparr>) else pret ())"
| "androidProc E (UaPush h ah pp msg) = androidResp E N_MSGRESP (Tid h) 0"
| "androidProc E (UaCallback h ah msg) = androidResp E N_CBRESP (Tid h) 0"
| "androidProc E (UaIm h ah msg) = androidResp E N_MSGRESP (Tid h) 0"
| "androidProc E _ = pret ()"

definition androidRead :: "uaLib \<Rightarrow> netev list \<Rightarrow> (uaMsg list \<times> bool) option" where
  "androidRead L ns = map_option (\<lambda>(ms, why). (ms, True)) (uaRead L ns)"

section \<open>The package of the comet\<close>

fun protocolConst :: "protocolName \<Rightarrow> int" where
  "protocolConst N_DEFAULT = MSGTYPE_DEFAULT"
| "protocolConst N_REGISTER = MSGTYPE_REGISTER"
| "protocolConst N_REGRESP = MSGTYPE_REGRESP"
| "protocolConst N_HEARTBEAT = MSGTYPE_HEARTBEAT"
| "protocolConst N_HBRESP = MSGTYPE_HBRESP"
| "protocolConst N_PUSH = MSGTYPE_PUSH"
| "protocolConst N_CALLBACK = MSGTYPE_CALLBACK"
| "protocolConst N_CBRESP = MSGTYPE_CBRESP"
| "protocolConst N_MESSAGE = MSGTYPE_MESSAGE"
| "protocolConst N_MSGRESP = MSGTYPE_MSGRESP"
| "protocolConst N_MAX = MSGTYPE_MAX"
| "protocolConst N_ANDROID = PLAT_ANDROID"
| "protocolConst N_BINARY = PROTOCOL_TYPE_BINARY"
| "protocolConst N_LOOP_XOR = ENCODE_LOOP_XOR"
| "protocolConst N_FIX_LEN = int FIX_HEADER_LEN"
| "protocolConst N_ADD_LEN = int ADD_HEADER_LEN"

text \<open>The tools have one struct for instant messages; the comet's package sends its own as \<open>MImUp\<close>.\<close>

fun asMessage :: "uaMsg \<Rightarrow> message" where
  "asMessage (UaHeader h) = MHeader h"
| "asMessage (UaRegister h ah r) = MRegister h ah r"
| "asMessage (UaResp h ah p) = MResp h ah p"
| "asMessage (UaPush h ah p msg) = MPush h ah p msg"
| "asMessage (UaCallback h ah msg) = MCallback h ah msg"
| "asMessage (UaIm h ah msg) = MImUp h ah msg"

definition protocolLib :: "jsonlib \<Rightarrow> uaLib" where
  "protocolLib J = \<lparr>uConst = protocolConst, uSetMsgType = SetMsgType, uSetEncode = SetEncode,
     uGetMsgType = GetMsgType, uGetEncode = GetEncode, uPack = (\<lambda>m t. Pack J (asMessage m) t),
     uDecodeHeader = DecodeHeader, uDecodeAddHeader = DecodeAddHeader,
     uDecodeParamResp = DecodeParamResp, uDecodeParamPush = DecodeParamPush, uCodecDecode = CodecDecode\<rparr>"

lemma protocolLib_simps [simp]:
  "uConst (protocolLib J) = protocolConst" "uSetMsgType (protocolLib J) = SetMsgType"
  "uSetEncode (protocolLib J) = SetEncode" "uGetMsgType (protocolLib J) = GetMsgType"
  "uGetEncode (protocolLib J) = GetEncode" "uPack (protocolLib J) m t = Pack J (asMessage m) t"
  "uDecodeHeader (protocolLib J) = DecodeHeader" "uDecodeAddHeader (protocolLib J) = DecodeAddHeader"
  "uDecodeParamResp (protocolLib J) = DecodeParamResp" "uDecodeParamPush (protocolLib J) = DecodeParamPush"
  "uCodecDecode (protocolLib J) = CodecDecode"
  by (simp_all add: protocolLib_def)

section \<open>What the comet sends is what the client reads\<close>

text \<open>The messages a comet sends that the tools know, and what a tool makes of them.\<close>

fun downType :: "message \<Rightarrow> bool" where
  "downType (MResp h ah p) \<longleftrightarrow> GetMsgType h \<in> {MSGTYPE_REGRESP, MSGTYPE_HBRESP, MSGTYPE_MSGRESP}"
| "downType (MPush h ah p msg) \<longleftrightarrow> GetMsgType h = MSGTYPE_PUSH"
| "downType (MCallback h ah msg) \<longleftrightarrow> GetMsgType h = MSGTYPE_CALLBACK"
| "downType (MImDown h ah flag msg) \<longleftrightarrow> GetMsgType h = MSGTYPE_MESSAGE"
| "downType m \<longleftrightarrow> False"

definition downlink :: "message \<Rightarrow> bool" where
  "downlink m \<longleftrightarrow> downType m \<and> wf_message m"

fun uaView :: "message \<Rightarrow> uaMsg" where
  "uaView (MResp h ah p) = UaResp h ah p"
| "uaView (MPush h ah p msg) = UaPush h ah p msg"
| "uaView (MCallback h ah msg) = UaCallback h ah msg"
| "uaView (MImDown h ah flag msg) = UaIm h ah (flag # msg)"
| "uaView m = UaHeader (msg_header m)"

lemma uaReadBody_frame:
  assumes "downlink m" "msg_body m = Some (ah, body)" "unat (Len ah) = length b"
    and "CodecDecode b (length b) (GetEncode (msg_header m)) = Inr body"
  shows "uaReadBody (protocolLib J) (msg_header m) ah (left (b @ c) ns) = (Inr (uaView m), left c ns)"
proof -
  have read: "readTimeout (unat (Len ah)) (left (b @ c) ns) = (Some b, left c ns)"
    by (rule readTimeout_left) (simp add: assms(3))
  have dec: "CodecDecode b (unat (Len ah)) (GetEncode (msg_header m)) = Inr body"
    using assms(3,4) by simp
  have len: "length (EncodeParamPush p) = 3" for p by (simp add: EncodeParamPush_def)
  from assms(1) have "downType m" by (simp add: downlink_def)
  with assms(2) read dec len show ?thesis
    by (cases m rule: downType.cases) (auto simp: uaReadBody_def uaReadTimeout_def Let_def)
qed

lemma uaRead_frame:
  assumes "downlink m"
  shows "uaRead (protocolLib J) (left (frame m @ c) ns) =
    Option.bind (uaRead (protocolLib J) (left c ns)) (\<lambda>(ms, why). Some (uaView m # ms, why))"
proof -
  from assms obtain ah body where body: "msg_body m = Some (ah, body)"
    by (cases m rule: downType.cases) (auto simp: downlink_def)
  from assms have wf: "wf_message m" by (simp add: downlink_def)
  obtain b where b: "frame m = EncodeHeader (msg_header m) @ EncodeAddHeader ah @ b"
    "unat (Len ah) = length b" "CodecDecode b (length b) (GetEncode (msg_header m)) = Inr body"
    by (rule frame_body [OF wf body])
  have t: "GetMsgType (msg_header m) \<noteq> MSGTYPE_DEFAULT" "\<not> GetMsgType (msg_header m) \<ge> MSGTYPE_MAX"
    "GetMsgType (msg_header m) \<noteq> MSGTYPE_HEARTBEAT"
    using assms by (cases m rule: downType.cases; auto simp: downlink_def)+
  note r = fixed_header_read [of "msg_header m" "EncodeAddHeader ah @ b @ c" ns] add_header_read [of ah "b @ c" ns]
    uaReadBody_frame [OF assms body b(2,3), of J c ns]
  show ?thesis
    by (subst uaRead.simps) (use t r in \<open>simp add: b(1) uaReadTimeout_def del: FIX_HEADER_LEN_def ADD_HEADER_LEN_def\<close>)
qed

lemma uaRead_end: "uaRead (protocolLib J) [] = Some ([], UaReadFailed)"
proof -
  have "readTimeout FIX_HEADER_LEN [] = (None, [])" by (simp only: five_four readTimeout.simps)
  then show ?thesis by (subst uaRead.simps) (simp add: uaReadTimeout_def del: FIX_HEADER_LEN_def)
qed

lemma uaRead_wire:
  assumes "\<forall>m \<in> set ms. downlink m"
  shows "uaRead (protocolLib J) (left (wire ms) ns) =
    Option.bind (uaRead (protocolLib J) ns) (\<lambda>(ms', why). Some (map uaView ms @ ms', why))"
  using assms
proof (induction ms)
  case Nil
  then show ?case by (cases "uaRead (protocolLib J) ns") (simp_all add: wire_def left_def)
next
  case (Cons m ms)
  then have "downlink m" by simp
  from uaRead_frame [OF this, of J "wire ms" ns] Cons show ?case
    by (cases "uaRead (protocolLib J) ns") (auto simp: wire_def)
qed

text \<open>A frame is never empty, so segments of frames are not either.\<close>

lemma frame_not_Nil: "downlink m \<Longrightarrow> frame m \<noteq> []"
proof -
  assume m: "downlink m"
  then obtain ah body where body: "msg_body m = Some (ah, body)"
    by (cases m rule: downType.cases) (auto simp: downlink_def)
  from m have "wf_message m" by (simp add: downlink_def)
  from frame_body [OF this body] obtain b where "frame m = EncodeHeader (msg_header m) @ EncodeAddHeader ah @ b"
    by metis
  then show "frame m \<noteq> []" by (simp add: EncodeHeader_def)
qed

lemma uaRead_segments_then:
  assumes "\<forall>cs \<in> set css. cs \<noteq> [] \<and> (\<forall>m \<in> set cs. downlink m)"
  shows "uaRead (protocolLib J) (map (\<lambda>cs. Data (wire cs)) css @ ns) =
    Option.bind (uaRead (protocolLib J) ns) (\<lambda>(ms, why). Some (map uaView (concat css) @ ms, why))"
  using assms
proof (induction css)
  case Nil
  show ?case by (cases "uaRead (protocolLib J) ns") simp_all
next
  case (Cons cs css)
  then obtain m ms where cs: "cs = m # ms" "downlink m" by (cases cs) auto
  then have "wire cs \<noteq> []" using frame_not_Nil by (simp add: wire_def)
  then have "Data (wire cs) # map (\<lambda>cs. Data (wire cs)) css @ ns = left (wire cs) (map (\<lambda>cs. Data (wire cs)) css @ ns)"
    by (simp add: left_def)
  with Cons uaRead_wire [of cs J "map (\<lambda>cs. Data (wire cs)) css @ ns"] show ?case
    by (cases "uaRead (protocolLib J) ns") auto
qed

lemma uaRead_segments:
  assumes "\<forall>cs \<in> set css. cs \<noteq> [] \<and> (\<forall>m \<in> set cs. downlink m)"
  shows "uaRead (protocolLib J) (map (\<lambda>cs. Data (wire cs)) css) = Some (map uaView (concat css), UaReadFailed)"
  using uaRead_segments_then [OF assms, of J "[]"] by (simp add: uaRead_end)

section \<open>What the client answers is what the comet reads\<close>

text \<open>A client on a connection that takes everything; its world is the list of what it wrote.\<close>

definition logEnv :: "jsonlib \<Rightarrow> bytes list uaEnv" where
  "logEnv J = \<lparr>uaLibOf = protocolLib J, uaWrite = (\<lambda>b w. (True, w @ [b])), uaCount = (\<lambda>k w. w)\<rparr>"

lemma logEnv_simps [simp]: "uaLibOf (logEnv J) = protocolLib J" "uaWrite (logEnv J) b w = (True, w @ [b])"
  "uaCount (logEnv J) k w = w"
  by (simp_all add: logEnv_def)

definition ackMessage :: "int \<Rightarrow> int \<Rightarrow> u32 \<Rightarrow> message" where
  "ackMessage en mt tid =
     MResp ((SetEncode (SetMsgType zeroHeader mt) en)\<lparr>Tid := tid\<rparr>) \<lparr>Len = 1\<rparr> \<lparr>Code = 0\<rparr>"

fun answers :: "int \<Rightarrow> message \<Rightarrow> message list" where
  "answers en (MPush h ah p msg) = [ackMessage en MSGTYPE_MSGRESP (Tid h)]"
| "answers en (MCallback h ah msg) = [ackMessage en MSGTYPE_CBRESP (Tid h)]"
| "answers en (MImDown h ah flag msg) = [ackMessage en MSGTYPE_MSGRESP (Tid h)]"
| "answers en m = []"

lemma GetMsgType_Tid [simp]: "GetMsgType (h\<lparr>Tid := t\<rparr>) = GetMsgType h" "GetEncode (h\<lparr>Tid := t\<rparr>) = GetEncode h"
  by (simp_all add: GetMsgType_def GetEncode_def)

lemma uplink_ack:
  assumes "0 \<le> en" "en < 4" "mt \<in> {MSGTYPE_CBRESP, MSGTYPE_MSGRESP}"
  shows "uplink (ackMessage en mt tid)" "delivered (ackMessage en mt tid)"
  using assms
  by (auto simp: uplink_def ackMessage_def wf_message_def codec_ok_def delivered_def EncodeParamResp_def header_simps)

lemma uplink_answers:
  assumes "0 \<le> en" "en < 4" "r \<in> set (answers en m)"
  shows "uplink r" "delivered r"
  using assms(3) uplink_ack [OF assms(1,2)] by (cases m; simp)+

lemma packs_frame:
  assumes "wf_message m"
  shows "packBinary m = Inr (frame m)"
proof (cases "msg_body m")
  case None
  then have "packBinary m = Inr (EncodeHeader (msg_header m))" by (cases m) simp_all
  then show ?thesis by (simp add: frame_def)
next
  case (Some ab)
  then show ?thesis using packBinary_frame [OF assms, of "fst ab" "snd ab"] by (metis frame_def prod.collapse sum.case(2))
qed

lemma uaSend_frame:
  assumes "wf_message (asMessage m)" "uaLibOf E = protocolLib J" "uaWrite E (frame (asMessage m)) (uaWorld p) = (ok, w)"
  shows "uaSend E m p = (Inr ok, p\<lparr>uaWorld := w\<rparr>)"
  using assms(2,3) by (simp add: uaSend_def Pack_def packs_frame [OF assms(1)] pbind_def plift_def del: packBinary.simps)

lemma sends_frame:
  assumes "wf_message (asMessage m)"
  shows "uaSend (logEnv J) m p = (Inr True, p\<lparr>uaWorld := uaWorld p @ [frame (asMessage m)]\<rparr>)"
  by (rule uaSend_frame [OF assms]) simp_all

lemma benchResp_writes:
  assumes "0 \<le> uaEncode p" "uaEncode p < 4" "n \<in> {N_CBRESP, N_MSGRESP}"
  shows "benchResp (logEnv J) n tid 0 p = (Inr (), p\<lparr>uaWorld := uaWorld p @
    [frame (ackMessage (uaEncode p) (protocolConst n) tid)]\<rparr>)"
proof -
  let ?m = "respMsg (protocolLib J) (uaEncode p) n tid 0"
  have m: "asMessage ?m = ackMessage (uaEncode p) (protocolConst n) tid"
    by (simp add: respMsg_def uaHead_def ackMessage_def)
  have "protocolConst n \<in> {MSGTYPE_CBRESP, MSGTYPE_MSGRESP}" using assms(3) by auto
  then have "wf_message (asMessage ?m)" using uplink_ack(1) [OF assms(1,2)] m by (simp add: uplink_def)
  from sends_frame [OF this] show ?thesis by (simp add: benchResp_def pbind_simps m)
qed

lemma benchProc_writes:
  assumes "downlink m" "0 \<le> uaEncode p" "uaEncode p < 4"
  shows "\<exists>p'. benchProc (logEnv J) (uaView m) p = (Inr (), p') \<and>
    uaWorld p' = uaWorld p @ map frame (answers (uaEncode p) m) \<and> uaEncode p' = uaEncode p"
  using assms(1) benchResp_writes [OF assms(2,3), of N_MSGRESP J] benchResp_writes [OF assms(2,3), of N_CBRESP J]
  by (cases m rule: downType.cases) (auto simp: downlink_def uaAdd_def Let_def)

lemma benchService_writes:
  assumes "\<forall>m \<in> set ms. downlink m" "0 \<le> uaEncode p" "uaEncode p < 4"
  shows "\<exists>p'. benchService (logEnv J) (map uaView ms) p = (Inr (), p') \<and>
    uaWorld p' = uaWorld p @ map frame (concat (map (answers (uaEncode p)) ms)) \<and> uaEncode p' = uaEncode p"
  using assms
proof (induction ms arbitrary: p)
  case Nil
  then show ?case by (simp add: benchService_def)
next
  case (Cons m ms)
  then obtain p1 where p1: "benchProc (logEnv J) (uaView m) p = (Inr (), p1)"
      "uaWorld p1 = uaWorld p @ map frame (answers (uaEncode p) m)" "uaEncode p1 = uaEncode p"
    using benchProc_writes [of m p J] by auto
  with Cons.IH [of p1] Cons.prems show ?case by (auto simp: benchService_def pbind_simps)
qed

lemma frames_read:
  assumes "\<forall>m \<in> set ms. uplink m \<and> delivered m"
  shows "handleTcpConn (map (\<lambda>m. Data (frame m)) ms) = (ms, ReadFailed)"
proof -
  have "map (\<lambda>m. Data (frame m)) ms = map (\<lambda>cs. Data (wire cs)) (map (\<lambda>m. [m]) ms)"
    by (simp add: wire_def)
  moreover have "\<forall>cs \<in> set (map (\<lambda>m. [m]) ms). cs \<noteq> [] \<and> (\<forall>m \<in> set cs. uplink m)" using assms by auto
  moreover have "filter delivered (concat (map (\<lambda>m. [m]) ms)) = ms" using assms by (induction ms) auto
  ultimately show ?thesis by (simp only: handleTcpConn_segments)
qed

text \<open>The way there and back, for whole frames in any segments.\<close>

lemma client_answers:
  assumes "\<forall>cs \<in> set css. cs \<noteq> [] \<and> (\<forall>m \<in> set cs. downlink m)" "0 \<le> uaEncode p" "uaEncode p < 4" "uaWorld p = []"
  obtains ms p' where "uaRead (protocolLib J) (map (\<lambda>cs. Data (wire cs)) css) = Some (ms, UaReadFailed)"
    "ms = map uaView (concat css)" "benchService (logEnv J) ms p = (Inr (), p')"
    "handleTcpConn (map Data (uaWorld p')) = (concat (map (answers (uaEncode p)) (concat css)), ReadFailed)"
proof -
  have down: "\<forall>m \<in> set (concat css). downlink m" using assms(1) by auto
  obtain p' where p': "benchService (logEnv J) (map uaView (concat css)) p = (Inr (), p')"
      "uaWorld p' = map frame (concat (map (answers (uaEncode p)) (concat css)))"
    using benchService_writes [OF down assms(2,3), of J] assms(4) by auto
  have "\<forall>r \<in> set (concat (map (answers (uaEncode p)) (concat css))). uplink r \<and> delivered r"
    using uplink_answers [OF assms(2,3)] by auto
  from frames_read [OF this] have "handleTcpConn (map Data (uaWorld p')) =
      (concat (map (answers (uaEncode p)) (concat css)), ReadFailed)"
    unfolding p'(2) by (simp add: comp_def)
  with uaRead_segments [OF assms(1)] p'(1) that show thesis by blast
qed

text \<open>A kick is a message the tools' read loops do not know: they end.\<close>

lemma uaRead_kick:
  assumes "0 \<le> en" "en < 4"
  shows "uaRead (protocolLib J) (Data (frame (kickMessage en reason tid)) # ns) = Some ([], UaBadMsgType)"
proof -
  let ?m = "kickMessage en reason tid"
  let ?h = "mkHeader MSGTYPE_KICK en tid" and ?ah = "\<lparr>Len = 1\<rparr> :: AddHeader"
  have t: "GetMsgType ?h = MSGTYPE_KICK" "GetEncode ?h = en" using assms by (simp_all add: mkHeader_def header_simps)
  have wf: "wf_message ?m" using assms by (simp add: wf_message_def kickMessage_def codec_ok_def t(2))
  have h: "msg_header ?m = ?h" and body: "msg_body ?m = Some (?ah, [word_of_int reason])"
    by (simp_all add: kickMessage_def)
  obtain b where b: "frame ?m = EncodeHeader ?h @ EncodeAddHeader ?ah @ b"
    by (rule frame_body [OF wf body, unfolded h]) blast
  then have "frame ?m \<noteq> []" by (simp add: EncodeHeader_def)
  then have seg: "Data (frame ?m) # ns = left (EncodeHeader ?h @ EncodeAddHeader ?ah @ b) ns" by (simp add: left_def b)
  note r = fixed_header_read [of ?h "EncodeAddHeader ?ah @ b" ns] add_header_read [of ?ah b ns]
  show ?thesis
    unfolding seg by (subst uaRead.simps)
      (use t r in \<open>simp add: uaReadTimeout_def uaReadBody_def Let_def del: FIX_HEADER_LEN_def ADD_HEADER_LEN_def\<close>)
qed

section \<open>Registering\<close>

text \<open>A name that fits the 32 bytes of the struct and has no zero byte in it.\<close>

definition fits :: "string \<Rightarrow> bool" where
  "fits s \<longleftrightarrow> length s \<le> 32 \<and> 0 \<notin> set (bytesOf s)"

lemma stringOf_bytesOf: "stringOf (bytesOf s) = s"
proof -
  have "char_of (unat (of_nat (of_char c) :: byte)) = c" for c :: char
  proof -
    have "of_char c \<in> range (of_char :: char \<Rightarrow> nat)" by simp
    then have "of_char c < (256::nat)" unfolding range_nat_of_char by simp
    then have "unat (of_nat (of_char c) :: byte) = of_char c" by (simp add: unat_of_nat)
    then show ?thesis by simp
  qed
  then show ?thesis by (simp add: stringOf_def bytesOf_def map_idI)
qed

lemma copy32_fits:
  assumes "fits s"
  shows "stringOf (take (bytesValidLen (copy32 (bytesOf s))) (copy32 (bytesOf s))) = s"
    "length (copy32 (bytesOf s)) = 32"
proof -
  have len: "length (bytesOf s) \<le> 32" and nz: "\<forall>x \<in> set (bytesOf s). x \<noteq> 0"
    using assms by (auto simp: fits_def) (simp add: bytesOf_def)
  then have "takeWhile (\<lambda>x. x \<noteq> 0) (copy32 (bytesOf s)) = bytesOf s"
    by (simp add: copy32_def takeWhile_append2)
  then show "stringOf (take (bytesValidLen (copy32 (bytesOf s))) (copy32 (bytesOf s))) = s"
    by (simp add: bytesValidLen_takeWhile stringOf_bytesOf)
  show "length (copy32 (bytesOf s)) = 32" using len by (simp add: copy32_def)
qed

text \<open>What a client writes to register.\<close>

definition registration :: "'w UA \<Rightarrow> message" where
  "registration p = MRegister ((SetEncode (SetMsgType zeroHeader MSGTYPE_REGISTER) (uaEncode p))\<lparr>Tid := uaTid p + 1\<rparr>)
     \<lparr>Len = 66\<rparr> \<lparr>Version = 1, TerminalType = 1, RegId = copy32 (bytesOf (uaUid p)), RegToken = copy32 (bytesOf (uaToken p))\<rparr>"

lemma registration_ok:
  assumes "fits (uaUid p)" "fits (uaToken p)" "0 \<le> uaEncode p" "uaEncode p < 4"
  shows "uplink (registration p)" "delivered (registration p)"
proof -
  let ?r = "\<lparr>Version = 1, TerminalType = 1, RegId = copy32 (bytesOf (uaUid p)),
    RegToken = copy32 (bytesOf (uaToken p))\<rparr> :: ParamReg"
  have wfr: "wf_ParamReg ?r" using copy32_fits(2) assms(1,2) by (simp add: wf_ParamReg_def)
  then have "length (EncodeParamReg ?r) = 66" by (rule length_EncodeParamReg)
  then have "EncodeParamReg ?r \<noteq> []" by (metis list.size(3) zero_neq_numeral)
  then show "uplink (registration p)" "delivered (registration p)"
    using assms(3,4) wfr
    by (auto simp: registration_def uplink_def wf_message_def codec_ok_def header_simps delivered_def)
qed

lemma benchRegister_writes:
  assumes "uplink (registration p)" "uaLibOf E = protocolLib J" "uaWrite E (frame (registration p)) (uaWorld p) = (True, w)"
  shows "benchRegister E p = (Inr True, (uaNextTid p)\<lparr>uaWorld := w\<rparr>)"
proof -
  let ?m = "registerMsg (protocolLib J) (uaEncode p) (uaUid p) (uaToken p) (uaTid p + 1)"
  have m: "asMessage ?m = registration p" by (simp add: registerMsg_def registration_def uaHead_def)
  have "uaSend E ?m (uaNextTid p) = (Inr True, (uaNextTid p)\<lparr>uaWorld := w\<rparr>)"
    using assms by (intro uaSend_frame) (simp_all add: m uplink_def uaNextTid_def)
  then show ?thesis using assms(2) by (simp add: benchRegister_def pbind_simps uaNextTid_def)
qed

text \<open>What the comet makes of it.\<close>

lemma registration_names:
  assumes "fits (uaUid p)" "fits (uaToken p)"
  obtains h ah r where "registration p = MRegister h ah r"
    "uaUid p = stringOf (take (bytesValidLen (RegId r)) (RegId r))" "uint (TerminalType r) = PLAT_ANDROID"
    "uaToken p = stringOf (take (bytesValidLen (RegToken r)) (RegToken r))"
  by (rule that [OF registration_def]) (simp_all add: copy32_fits(1) assms)

lemma registered_after_history:
  assumes "redis_ok (storeEnv RE)" "router_ok RE R" "\<forall>i \<in> set is. asciiInput RE i"
    and "cTrans E = routerTransport RE" "cworld C = (runRouter RE is R, q)" "findId (connString c) C = []"
    and "fits (uaUid p)" "fits (uaToken p)"
  shows "findId (connString c) (onClient E c (registration p) C) =
    (if fold absLogin (loginsOf RE (topics R) (uaUid p) is) (codes RE R (uaUid p)) PLAT_ANDROID = Some (uaToken p)
     then idf (uaUid p) PLAT_ANDROID else [])"
proof -
  obtain h ah r where r: "registration p = MRegister h ah r"
    "uaUid p = stringOf (take (bytesValidLen (RegId r)) (RegId r))" "uint (TerminalType r) = PLAT_ANDROID"
    "uaToken p = stringOf (take (bytesValidLen (RegToken r)) (RegToken r))"
    by (rule registration_names [OF assms(7,8)])
  have "onClient E c (MRegister h ah r) C = snd (procRegister E c h r C)" by (simp add: onClient_def)
  with registration_after_history [OF assms(1-6) r(2) r(3) [symmetric] r(4), of h] r(1) show ?thesis by simp
qed

section \<open>A message of the router on its way\<close>

text \<open>The message the comet makes of a request, and the client's view of its text.\<close>

definition downMessage :: "int \<Rightarrow> int \<Rightarrow> bool \<Rightarrow> bytes \<Rightarrow> int \<Rightarrow> message" where
  "downMessage tp en web body =
     (if tp = MSGTYPE_PUSH then pushMessage en 0 web body
      else if tp = MSGTYPE_CALLBACK then callbackMessage en body else imMessage en web body)"

fun uaText :: "uaMsg \<Rightarrow> bytes" where
  "uaText (UaPush h ah p msg) = msg"
| "uaText (UaCallback h ah msg) = msg"
| "uaText (UaIm h ah msg) = msg"
| "uaText m = []"

lemma onRpc_sends:
  assumes "tp \<in> {MSGTYPE_PUSH, MSGTYPE_CALLBACK, MSGTYPE_MESSAGE}" "findSessions (idf uid plat) C = Some s"
    and "sendTracked E s tp (downMessage tp (ses_encode (sesObj C s)) (webIsOnline uid C) body) body (ptlOf plat) C
      = (Inr True, C1)"
  shows "onRpc E (PushRequst tp flag uid plat tok body) C = C1"
  using assms
  by (auto simp: onRpc_def push_def callback_def message_def downMessage_def pbind_simps)

lemma sendTracked_run:
  assumes "tid = bumpTid (ses_tid (sesObj C s))" "ses_conn (sesObj C s) = TCPConn i a" "wf_message (mk tid)"
    and "sockWrite E (TCPConn i a) (frame (mk tid)) (cworld C) = (True, w)"
  shows "sendTracked E s mt mk body PROTOCOL_TYPE_BINARY C = (Inr True, booked s tid mt body w C)"
proof -
  let ?N = "modSes s (\<lambda>v. v\<lparr>ses_tid := tid\<rparr>) C"
  have next_eq: "nextTid s C = (Inr tid, ?N)" by (simp add: nextTid_def assms(1) Let_def)
  have wr: "writeConn E (ses_conn (sesObj ?N s)) (frame (mk tid)) ?N = (Inr True, ?N\<lparr>cworld := w\<rparr>)"
    using assms(2,4) by (simp add: modSes_def)
  show ?thesis
    using next_eq packs_frame [OF assms(3)] wr
    by (simp add: sendTracked_def booked_def pbind_simps Pack_def newTransaction_def modSes_def del: packBinary.simps)
qed

lemma sendTracked_writes:
  assumes "trans_inv C" "tid = bumpTid (ses_tid (sesObj C s))" "getTrans s tid C = None"
    and "ses_conn (sesObj C s) = TCPConn i a" "wf_message (mk tid)"
    and "sockWrite E (TCPConn i a) (frame (mk tid)) (cworld C) = (True, w)"
  shows "\<exists>C1. sendTracked E s mt mk body PROTOCOL_TYPE_BINARY C = (Inr True, C1) \<and> cworld C1 = w \<and>
    ids C1 = ids C \<and> sessions C1 = sessions C \<and> cstore C1 = cstore C \<and> watched C1 s (freshRef C) \<and>
    getTrans s tid C1 = Some (freshRef C)"
proof -
  note run = sendTracked_run [where mk = mk and mt = mt and body = body, OF assms(2,4-6)]
  have "watched (booked s tid mt body w C) s (freshRef C)" by (rule booked_new [OF assms(1,3)])
  then show ?thesis using run by (intro exI [of _ "booked s tid mt body w C"]) (simp add: watched_def)
qed

lemma downMessage_ok:
  assumes "tp \<in> {MSGTYPE_PUSH, MSGTYPE_CALLBACK, MSGTYPE_MESSAGE}" "0 \<le> en" "en < 4"
    and "length body + 3 < 2 ^ 32" "body \<noteq> []"
  shows "downlink (downMessage tp en web body tid)" "Tid (msg_header (downMessage tp en web body tid)) = word_of_int tid"
    "uaText (uaView (downMessage tp en web body tid)) = (if tp = MSGTYPE_MESSAGE then [flagOf web] else []) @ body"
    "answers en' (downMessage tp en web body tid) =
       [ackMessage en' (if tp = MSGTYPE_CALLBACK then MSGTYPE_CBRESP else MSGTYPE_MSGRESP) (word_of_int tid)]"
proof -
  have "unat (of_nat n :: u32) = n" if "n < 2 ^ 32" for n
    using that by (simp add: unat_of_nat)
  then have un: "unat (of_nat (length body + k) :: u32) = length body + k" if "k \<le> 3" for k
    using assms(4) that by (metis add_le_mono le_less_trans nat_add_left_cancel_le)
  note u = un [of 0] un [of 1] un [of 3]
  show "downlink (downMessage tp en web body tid)" "Tid (msg_header (downMessage tp en web body tid)) = word_of_int tid"
    "uaText (uaView (downMessage tp en web body tid)) = (if tp = MSGTYPE_MESSAGE then [flagOf web] else []) @ body"
    "answers en' (downMessage tp en web body tid) =
       [ackMessage en' (if tp = MSGTYPE_CALLBACK then MSGTYPE_CBRESP else MSGTYPE_MSGRESP) (word_of_int tid)]"
    using assms u
    by (auto simp: downMessage_def downlink_def pushMessage_def callbackMessage_def imMessage_def wf_message_def
        codec_ok_def mkHeader_def header_simps EncodeParamPush_def)
qed

lemma bumpTid_header:
  assumes "0 \<le> t"
  shows "uint (word_of_int (bumpTid t) :: u32) = bumpTid t"
proof -
  have "0 \<le> bumpTid t" "bumpTid t < 2 ^ 32" using assms by (simp_all add: bumpTid_def MaxUint32_def)
  then show ?thesis by (simp add: uint_word_of_int)
qed

section \<open>A client to try things on\<close>

definition exUA :: "bytes list UA" where
  "exUA = \<lparr>uaUid = ''u'', uaPlat = 1, uaToken = ''w'', uaEncode = 3, uaTid = 0, uaPings = 0,
     uaExited = False, uaWorld = []\<rparr>"

lemma exUA_simps [simp]: "uaUid exUA = ''u''" "uaToken exUA = ''w''" "uaEncode exUA = 3" "uaWorld exUA = []"
  by (simp_all add: exUA_def)

lemma exUA_fits: "fits (uaUid exUA)" "fits (uaToken exUA)"
  by (simp_all add: fits_def bytesOf_def)

section \<open>Properties\<close>

text \<open>C35: whatever pushes, callbacks, instant messages and responses (to a registration, a heartbeat or
  an instant message) the comet writes to a client as whole frames, in whatever segments they
  arrive: the client's read loop hands on every one of them, in order, and ends only when the
  connection does, or at a kick, which no client knows. The client answers each push, callback
  and instant message once, with its transaction id: a callback with CBRESP, an instant message
  with IMRESP, and a push with IMRESP too, for which the README has PUSHRESP; it does not answer
  responses. The comet's read loop reads back exactly these answers, whatever encodings the two
  sides use.\<close>

theorem client_answers_messages:
  assumes "\<forall>cs \<in> set css. cs \<noteq> [] \<and> (\<forall>m \<in> set cs. downlink m)" "0 \<le> uaEncode p" "uaEncode p < 4" "uaWorld p = []"
    and "0 \<le> en" "en < 4"
  shows "(\<exists>ms p'. uaRead (protocolLib J) (map (\<lambda>cs. Data (wire cs)) css) = Some (ms, UaReadFailed) \<and>
      ms = map uaView (concat css) \<and> benchService (logEnv J) ms p = (Inr (), p') \<and>
      handleTcpConn (map Data (uaWorld p')) = (concat (map (answers (uaEncode p)) (concat css)), ReadFailed)) \<and>
    uaRead (protocolLib J) (map (\<lambda>cs. Data (wire cs)) css @ Data (frame (kickMessage en reason tid)) # ns) =
      Some (map uaView (concat css), UaBadMsgType)"
proof
  show "\<exists>ms p'. uaRead (protocolLib J) (map (\<lambda>cs. Data (wire cs)) css) = Some (ms, UaReadFailed) \<and>
      ms = map uaView (concat css) \<and> benchService (logEnv J) ms p = (Inr (), p') \<and>
      handleTcpConn (map Data (uaWorld p')) = (concat (map (answers (uaEncode p)) (concat css)), ReadFailed)"
    by (rule client_answers [OF assms(1-4), of J]) blast
  show "uaRead (protocolLib J) (map (\<lambda>cs. Data (wire cs)) css @ Data (frame (kickMessage en reason tid)) # ns) =
      Some (map uaView (concat css), UaBadMsgType)"
    using uaRead_segments_then [OF assms(1)] uaRead_kick [OF assms(5,6)] by simp
qed

theorem client_answers_messages_witness:
  "\<exists>p'. benchService (logEnv (oneTextLib (JObj [])))
      [UaPush \<lparr>Line = 5, Tid = 7\<rparr> \<lparr>Len = 4\<rparr> \<lparr>Offline = 0, Flag = 0\<rparr> [9]] exUA = (Inr (), p') \<and>
    handleTcpConn (map Data (uaWorld p')) = ([ackMessage 3 MSGTYPE_MSGRESP 7], ReadFailed)"
proof -
  let ?css = "[[MPush \<lparr>Line = 5, Tid = 7\<rparr> \<lparr>Len = 4\<rparr> \<lparr>Offline = 0, Flag = 0\<rparr> [9]]]"
  have "\<forall>cs \<in> set ?css. cs \<noteq> [] \<and> (\<forall>m \<in> set cs. downlink m)"
    by (simp add: downlink_def wf_message_def codec_ok_def GetMsgType_def EncodeParamPush_def)
  from client_answers_messages [OF this, of exUA 3 "oneTextLib (JObj [])"] show ?thesis by auto
qed

text \<open>The comet's half: a message of the router becomes one frame and one transaction.\<close>

lemma onRpc_writes_frame:
  fixes body :: bytes and flag :: int and tok :: string
  assumes "trans_inv C" "tp \<in> {MSGTYPE_PUSH, MSGTYPE_CALLBACK, MSGTYPE_MESSAGE}" "plat \<noteq> PLAT_WEB"
    and "findSessions (idf uid plat) C = Some s" "ses_conn (sesObj C s) = TCPConn i a"
    and "getTrans s (bumpTid (ses_tid (sesObj C s))) C = None"
    and "\<forall>buf. fst (sockWrite E (TCPConn i a) buf (cworld C))"
  defines "m \<equiv> downMessage tp (ses_encode (sesObj C s)) (webIsOnline uid C) body (bumpTid (ses_tid (sesObj C s)))"
    and "C1 \<equiv> onRpc E (PushRequst tp flag uid plat tok body) C"
  assumes "wf_message m"
  shows "cworld C1 = snd (sockWrite E (TCPConn i a) (frame m) (cworld C))" "ids C1 = ids C" "sessions C1 = sessions C"
    "cstore C1 = cstore C" "watched C1 s (freshRef C)" "getTrans s (bumpTid (ses_tid (sesObj C s))) C1 = Some (freshRef C)"
proof -
  let ?mk = "downMessage tp (ses_encode (sesObj C s)) (webIsOnline uid C) body"
  have "sockWrite E (TCPConn i a) (frame m) (cworld C) = (True, snd (sockWrite E (TCPConn i a) (frame m) (cworld C)))"
    using assms(7) by (metis prod.collapse)
  then obtain D where D: "sendTracked E s tp ?mk body PROTOCOL_TYPE_BINARY C = (Inr True, D)"
    "cworld D = snd (sockWrite E (TCPConn i a) (frame m) (cworld C))"
    "ids D = ids C" "sessions D = sessions C" "cstore D = cstore C" "watched D s (freshRef C)"
    "getTrans s (bumpTid (ses_tid (sesObj C s))) D = Some (freshRef C)"
    using sendTracked_writes [where mk = ?mk and mt = tp and body = body, OF assms(1) refl assms(6,5) assms(10) [unfolded m_def]]
    unfolding m_def by blast
  have "ptlOf plat = PROTOCOL_TYPE_BINARY" using assms(3) by (simp add: ptlOf_def)
  then have "C1 = D" using onRpc_sends [OF assms(2,4)] D(1) by (simp add: C1_def)
  with D(2-7) show "cworld C1 = snd (sockWrite E (TCPConn i a) (frame m) (cworld C))" "ids C1 = ids C" "sessions C1 = sessions C"
    "cstore C1 = cstore C" "watched C1 s (freshRef C)" "getTrans s (bumpTid (ses_tid (sesObj C s))) C1 = Some (freshRef C)"
    by simp_all
qed

text \<open>C32: a push, callback or instant message of the router for a client on a TCP connection that takes
  it: the comet writes one frame; the client reads one message with the text of the request
  (after the flag byte, for an instant message), and answers; the comet reads back one
  acknowledgement, and once it has handled it the message's goroutine ends in exactly one way,
  without storing anything.\<close>

theorem message_reaches_client:
  assumes "trans_inv C" "tp \<in> {MSGTYPE_PUSH, MSGTYPE_CALLBACK, MSGTYPE_MESSAGE}" "plat \<noteq> PLAT_WEB"
    and "findSessions (idf uid plat) C = Some s" "ses_conn (sesObj C s) = TCPConn i a" "findId a C = idf uid plat"
    and "0 \<le> ses_encode (sesObj C s)" "ses_encode (sesObj C s) < 4" "0 \<le> ses_tid (sesObj C s)"
    and "getTrans s (bumpTid (ses_tid (sesObj C s))) C = None" "body \<noteq> []" "length body + 3 < 2 ^ 32"
    and "\<forall>buf. fst (sockWrite E (TCPConn i a) buf (cworld C))"
    and "0 \<le> uaEncode p" "uaEncode p < 4" "uaWorld p = []"
    and "C1 = onRpc E (PushRequst tp flag uid plat tok body) C" "t = freshRef C"
  shows "\<exists>buf ms p' r. cworld C1 = snd (sockWrite E (TCPConn i a) buf (cworld C)) \<and>
    uaRead (protocolLib J) [Data buf] = Some (ms, UaReadFailed) \<and>
    map uaText ms = [(if tp = MSGTYPE_MESSAGE then [flagOf (webIsOnline uid C)] else []) @ body] \<and>
    benchService (logEnv J) ms p = (Inr (), p') \<and> handleTcpConn (map Data (uaWorld p')) = ([r], ReadFailed) \<and>
    (\<exists>X. (\<forall>Y. (gosteps E t (onClient E (TCPConn i a) r C1) Y \<and> resting (trObj Y t)) = (Y = X)) \<and>
      trPc (trObj X t) = Done \<and> cstore X = cstore C)"
proof -
  let ?tid = "bumpTid (ses_tid (sesObj C s))"
  let ?m = "downMessage tp (ses_encode (sesObj C s)) (webIsOnline uid C) body ?tid"
  note dm = downMessage_ok [OF assms(2,7,8,12,11), where web = "webIsOnline uid C" and tid = ?tid]
  have wf: "wf_message ?m" using dm(1) by (simp add: downlink_def)
  note D = onRpc_writes_frame [OF assms(1-5,10,13) wf, where flag = flag and tok = tok, folded assms(17,18)]
  have down: "\<forall>cs \<in> set [[?m]]. cs \<noteq> [] \<and> (\<forall>m \<in> set cs. downlink m)" using dm(1) by simp
  obtain ms p' where M: "uaRead (protocolLib J) (map (\<lambda>cs. Data (wire cs)) [[?m]]) = Some (ms, UaReadFailed)"
    "ms = map uaView (concat [[?m]])" "benchService (logEnv J) ms p = (Inr (), p')"
    "handleTcpConn (map Data (uaWorld p')) = (concat (map (answers (uaEncode p)) (concat [[?m]])), ReadFailed)"
    by (rule client_answers [OF down assms(14-16)])
  let ?r = "ackMessage (uaEncode p) (if tp = MSGTYPE_CALLBACK then MSGTYPE_CBRESP else MSGTYPE_MSGRESP) (word_of_int ?tid)"
  have r: "handleTcpConn (map Data (uaWorld p')) = ([?r], ReadFailed)" using M(4) dm(4) by simp
  obtain h ah pr where h: "?r = MResp h ah pr" "Tid h = word_of_int ?tid" by (simp add: ackMessage_def)
  have "acks C1 (TCPConn i a) h s t"
    using assms(4,6) D(2,3,6) h(2) bumpTid_header [OF assms(9)] by (simp add: acks_def findId_def findSessions_def)
  from ack_run [OF D(5) this, of E] D(4) h(1)
  have "\<exists>X. (\<forall>Y. (gosteps E t (onClient E (TCPConn i a) ?r C1) Y \<and> resting (trObj Y t)) = (Y = X)) \<and>
      trPc (trObj X t) = Done \<and> cstore X = cstore C" by (auto simp: onClient_def)
  moreover have "uaRead (protocolLib J) [Data (frame ?m)] = Some (ms, UaReadFailed)"
    using M(1) by (simp add: wire_def)
  moreover have "map uaText ms = [(if tp = MSGTYPE_MESSAGE then [flagOf (webIsOnline uid C)] else []) @ body]"
    using M(2) dm(3) by simp
  ultimately show ?thesis using M(3) r D(1)
    by (intro exI [of _ "frame ?m"] exI [of _ ms] exI [of _ p'] exI [of _ ?r] conjI)
qed

theorem message_reaches_client_witness:
  "\<exists>buf ms. cworld (onRpc exCenv (PushRequst MSGTYPE_PUSH 0 ''u'' 1 [] [9]) exC) = [Wrote (TCPConn 1 ''a'') buf] \<and>
    uaRead (protocolLib (oneTextLib (JObj []))) [Data buf] = Some (ms, UaReadFailed) \<and> map uaText ms = [[9]]"
proof -
  have tp: "MSGTYPE_PUSH \<in> {MSGTYPE_PUSH, MSGTYPE_CALLBACK, MSGTYPE_MESSAGE}" "(1::int) \<noteq> PLAT_WEB" by simp_all
  have s: "findSessions (idf ''u'' 1) exC = Some 1" "ses_conn (sesObj exC 1) = TCPConn 1 ''a''"
    "findId ''a'' exC = idf ''u'' 1" "0 \<le> ses_encode (sesObj exC 1)" "ses_encode (sesObj exC 1) < 4"
    "0 \<le> ses_tid (sesObj exC 1)" "getTrans 1 (bumpTid (ses_tid (sesObj exC 1))) exC = None"
    by (simp_all add: findSessions_def findId_def exKey_def exSes_def getTrans_def exTrans_def bumpTid_def MaxUint32_def)
  have b: "[9::byte] \<noteq> []" "length [9::byte] + 3 < 2 ^ 32" by simp_all
  have k: "\<forall>buf. fst (sockWrite exCenv (TCPConn 1 ''a'') buf (cworld exC))"
    "sockWrite exCenv c buf w = (True, w @ [Wrote c buf])" for c buf w
    by (simp_all add: exCenv_def)
  have u: "0 \<le> uaEncode exUA" "uaEncode exUA < 4" "uaWorld exUA = []" by simp_all
  have "cworld exC = []" by (simp add: exC_def newComet_def)
  with message_reaches_client [OF exC_trans_inv tp s b k(1) u refl refl, of 0 "[]" "oneTextLib (JObj [])"] k(2)
  show ?thesis by auto
qed

end
