(* ===== verification/Delivery.thy ===== *)
theory Delivery
  imports Client
begin

text \<open>
  What is waiting for a user is delivered when he registers: \<^verbatim>\<open>ProcOfflineMsg\<close> of
  \<^verbatim>\<open>src/comet/offmsg.go\<close>, from the queues of the store over the session's connection to the
  client's read loop.
\<close>

section \<open>What is written and what is remembered\<close>

definition written :: "('r, 'w) cenv \<Rightarrow> conn \<Rightarrow> bytes list \<Rightarrow> 'w \<Rightarrow> 'w" where
  "written E c bufs w = fold (\<lambda>b w. snd (sockWrite E c b w)) bufs w"

lemma written_append: "written E c (xs @ ys) w = written E c ys (written E c xs w)"
  by (simp add: written_def)

lemma written_simps [simp]: "written E c [] w = w" "written E c (b # bs) w = written E c bs (snd (sockWrite E c b w))"
  by (simp_all add: written_def)

text \<open>The transactions of a session: what kind of message, and its text.\<close>

definition tracked :: "('r, 'w) Comet \<Rightarrow> ref \<Rightarrow> (int \<times> bytes) list" where
  "tracked C s = map (\<lambda>t. (trType (trObj C t), trMsg (trObj C t))) (ses_trans (sesObj C s))"

text \<open>Messages \<open>x\<close> of one kind under the ids that follow \<open>k\<close>.\<close>

definition numbered :: "nat \<Rightarrow> ('x \<Rightarrow> int \<Rightarrow> message) \<Rightarrow> 'x list \<Rightarrow> message list" where
  "numbered k mk xs = map (\<lambda>(n, x). mk x (int n)) (enumerate (Suc k) xs)"

lemma numbered_simps [simp]:
  "numbered k mk [] = []" "numbered k mk (x # xs) = mk x (int (Suc k)) # numbered (Suc k) mk xs"
  by (simp_all add: numbered_def)

text \<open>A session that has sent its ids up to \<open>k\<close>, over a TCP connection that takes everything.\<close>

definition sending :: "('r, 'w) cenv \<Rightarrow> nat \<Rightarrow> string \<Rightarrow> int \<Rightarrow> ref \<Rightarrow> nat \<Rightarrow> ('r, 'w) Comet \<Rightarrow> bool" where
  "sending E i a en s k C \<longleftrightarrow> (\<forall>buf w. fst (sockWrite E (TCPConn i a) buf w)) \<and>
     ses_conn (sesObj C s) = TCPConn i a \<and> ses_encode (sesObj C s) = en \<and> ses_tid (sesObj C s) = int k"

lemma sendTracked_next:
  assumes S: "sending E i a en s k C" and k: "int k + 1 < MaxUint32" and wf: "wf_message (mk (int (Suc k)))"
  shows "\<exists>C1. sendTracked E s mt mk body PROTOCOL_TYPE_BINARY C = (Inr True, C1) \<and> sending E i a en s (Suc k) C1 \<and>
    cworld C1 = snd (sockWrite E (TCPConn i a) (frame (mk (int (Suc k)))) (cworld C)) \<and> cstore C1 = cstore C \<and>
    (trans_inv C \<longrightarrow> trans_inv C1 \<and> tracked C1 s = tracked C s @ [(mt, body)])"
proof -
  let ?tid = "int (Suc k)"
  let ?w = "snd (sockWrite E (TCPConn i a) (frame (mk ?tid)) (cworld C))"
  let ?C1 = "booked s ?tid mt body ?w C"
  have tid: "?tid = bumpTid (ses_tid (sesObj C s))" using S k by (simp add: sending_def bumpTid_def)
  have wr: "sockWrite E (TCPConn i a) (frame (mk ?tid)) (cworld C) = (True, ?w)"
    using S by (metis sending_def prod.collapse)
  have conn: "ses_conn (sesObj C s) = TCPConn i a" using S by (simp add: sending_def)
  note run = sendTracked_run [where mk = mk and mt = mt and body = body, OF tid conn wf wr]
  have sid: "sending E i a en s (Suc k) ?C1" using S by (simp add: sending_def)
  have "trans_inv ?C1 \<and> tracked ?C1 s = tracked C s @ [(mt, body)]" if inv: "trans_inv C"
  proof
    show "trans_inv ?C1" by (rule booked_inv [OF inv])
    have "t \<noteq> freshRef C" if "t \<in> set (ses_trans (sesObj C s))" for t using trans_invD(1) [OF inv that] by simp
    then show "tracked ?C1 s = tracked C s @ [(mt, body)]" by (auto simp: tracked_def)
  qed
  with run sid show ?thesis by (intro exI [of _ ?C1]) simp
qed

text \<open>A loop of sends.\<close>

lemma send_all:
  assumes "\<And>x. x \<in> set xs \<Longrightarrow> body x = pbind (pget (\<lambda>C. ses_encode (sesObj C s))) (\<lambda>encode.
      pbind (sendTracked E s mt (mk encode x) (btxt x) PROTOCOL_TYPE_BINARY) (\<lambda>ok. if ok then pret () else fallback x))"
    and "\<And>x tid. x \<in> set xs \<Longrightarrow> wf_message (mk en x tid)"
    and "sending E i a en s k C" "trans_inv C" "int k + int (length xs) < MaxUint32"
  shows "\<exists>C1. pforeach xs body C = (Inr (), C1) \<and> sending E i a en s (k + length xs) C1 \<and> trans_inv C1 \<and>
    cworld C1 = written E (TCPConn i a) (map frame (numbered k (mk en) xs)) (cworld C) \<and> cstore C1 = cstore C \<and>
    tracked C1 s = tracked C s @ map (\<lambda>x. (mt, btxt x)) xs"
  using assms
proof (induction xs arbitrary: k C)
  case (Cons x xs)
  obtain C1 where C1: "sendTracked E s mt (mk en x) (btxt x) PROTOCOL_TYPE_BINARY C = (Inr True, C1)"
      "sending E i a en s (Suc k) C1" "cworld C1 = snd (sockWrite E (TCPConn i a) (frame (mk en x (int (Suc k)))) (cworld C))"
      "cstore C1 = cstore C" "trans_inv C1" "tracked C1 s = tracked C s @ [(mt, btxt x)]"
    using sendTracked_next [OF Cons.prems(3), of "mk en x" mt "btxt x"] Cons.prems(2,4,5) by fastforce
  have "ses_encode (sesObj C s) = en" using Cons.prems(3) by (simp add: sending_def)
  then have "body x C = (Inr (), C1)" using C1(1) Cons.prems(1) [of x] by (simp add: pbind_simps)
  moreover obtain C2 where "pforeach xs body C1 = (Inr (), C2)" "sending E i a en s (Suc k + length xs) C2" "trans_inv C2"
      "cworld C2 = written E (TCPConn i a) (map frame (numbered (Suc k) (mk en) xs)) (cworld C1)" "cstore C2 = cstore C1"
      "tracked C2 s = tracked C1 s @ map (\<lambda>x. (mt, btxt x)) xs"
    using Cons.IH [of "Suc k" C1] Cons.prems C1(2,5) by fastforce
  ultimately show ?case using C1 by (intro exI [of _ C2]) (simp add: pbind_simps)
qed (auto simp: pret_def)

section \<open>The queues of the store\<close>

lemma sending_cstore [simp]:
  "sending E i a en s k (C\<lparr>cstore := st\<rparr>) = sending E i a en s k C" "trans_inv (C\<lparr>cstore := st\<rparr>) = trans_inv C"
  "tracked (C\<lparr>cstore := st\<rparr>) s = tracked C s"
  by (simp_all add: sending_def trans_inv_def tracked_def)

text \<open>The store, for one user: well-formed, with a document in the cache or in redis.\<close>

definition holds :: "'r env \<Rightarrow> 'r Storager \<Rightarrow> string \<Rightarrow> SessionsDoc \<Rightarrow> bool" where
  "holds e st uid d \<longleftrightarrow> st_wf st \<and> loads e st uid \<and> lookupDoc e st uid = Some d"

lemma holds_refined:
  assumes "refines e uid F st st'" "holds e st uid d"
  shows "holds e st' uid (F d)"
proof -
  have c: "st_wf st'" "cached st' uid = Some (F d)" using assms by (simp_all add: refines_def holds_def)
  then show ?thesis using lookupDoc_cached [OF c(2)] by (auto simp: holds_def loads_def cached_def)
qed

lemma holds_taken:
  assumes "holds e st uid d"
  shows "holds e (snd (GetPushMsg e uid plat st)) uid (specGetPush plat d)"
    "fst (GetCallbackMsg e uid plat st) = queued CB plat d" "holds e (snd (GetCallbackMsg e uid plat st)) uid (specGetCallback plat d)"
    "fst (GetImMsg e uid plat st) = queued Body.Im plat d" "holds e (snd (GetImMsg e uid plat st)) uid (specGetIm plat d)"
proof -
  have st: "st_wf st" "loads e st uid" "lookupDoc e st uid = Some d" using assms by (simp_all add: holds_def)
  show "holds e (snd (GetPushMsg e uid plat st)) uid (specGetPush plat d)"
    "holds e (snd (GetCallbackMsg e uid plat st)) uid (specGetCallback plat d)"
    "holds e (snd (GetImMsg e uid plat st)) uid (specGetIm plat d)"
    using GetPushMsg_refines [OF st(1,2), of plat] GetCallbackMsg_refines(1) [OF st(1,2), of plat]
      GetImMsg_refines(1) [OF st(1,2), of plat] holds_refined [OF _ assms] by simp_all
  show "fst (GetCallbackMsg e uid plat st) = queued CB plat d" "fst (GetImMsg e uid plat st) = queued Body.Im plat d"
    using GetCallbackMsg_refines(2) [OF st(1,2)] GetImMsg_refines(2) [OF st(1,2)] st(3) by simp_all
qed

lemma GetPushMsg_found:
  assumes "holds e st uid d"
  shows "fst (GetPushMsg e uid plat st) = None \<longleftrightarrow> docPlat plat d = None"
proof -
  have st: "st_wf st" "loads e st uid" "lookupDoc e st uid = Some d" using assms by (simp_all add: holds_def)
  from FindSessions_cases [OF st(1,2)] st(3)
  obtain q st' where "FindSessions e uid st = (Some q, st')" "docOf st' q = d"
    by (metis option.inject option.distinct(1))
  then show ?thesis using docPlat_docOf [of plat st' q] by (auto simp: GetPushMsg_def Let_def split: option.split)
qed

lemma queues_kept [simp]:
  "queued CB plat (specGetPush plat d) = queued CB plat d" "queued Body.Im plat (specGetPush plat d) = queued Body.Im plat d"
  "queued Body.Im plat (specGetCallback plat d) = queued Body.Im plat d"
  by (auto simp: queued_def specGetPush_def specGetCallback_def modOff_def clearPush_def split: option.splits)

section \<open>The messages of a registration\<close>

definition waitingPush :: "int \<Rightarrow> SessionsDoc \<Rightarrow> bytes list" where
  "waitingPush plat d = (if plat = PLAT_ANDROID \<and> docPlat plat d \<noteq> None then [[]] else [])"

definition afterPush :: "int \<Rightarrow> SessionsDoc \<Rightarrow> SessionsDoc" where
  "afterPush plat d = (if plat = PLAT_ANDROID then specGetPush plat d else d)"

definition offlineBatch :: "int \<Rightarrow> bool \<Rightarrow> int \<Rightarrow> SessionsDoc \<Rightarrow> message list" where
  "offlineBatch en web plat d =
     (let ps = waitingPush plat d; cbs = queued CB plat d; ims = queued Body.Im plat d
      in numbered 0 (pushMessage en 0 web) ps @ numbered (length ps) (\<lambda>v. callbackMessage en (Msg v)) cbs @
         numbered (length ps + length cbs) (\<lambda>v. imMessage en (WebOnline v) (Msg v)) ims)"

lemma empty_push_downlink:
  assumes "0 \<le> en" "en < 4"
  shows "downlink (pushMessage en 0 web [] tid)"
  using assms by (simp add: downlink_def pushMessage_def wf_message_def codec_ok_def mkHeader_def header_simps EncodeParamPush_def)

text \<open>The stored push: whatever was stored, an empty one is sent.\<close>

lemma offlinePush_run:
  assumes "holds (cStore E) (cstore C) uid d" "sending E i a en s 0 C" "trans_inv C" "0 \<le> en" "en < 4"
  shows "\<exists>C1. (if plat = PLAT_ANDROID then offlinePush E s uid plat web else pret ()) C = (Inr (), C1) \<and>
    sending E i a en s (length (waitingPush plat d)) C1 \<and> trans_inv C1 \<and> holds (cStore E) (cstore C1) uid (afterPush plat d) \<and>
    cworld C1 = written E (TCPConn i a) (map frame (numbered 0 (pushMessage en 0 web) (waitingPush plat d))) (cworld C) \<and>
    tracked C1 s = tracked C s @ map (Pair MSGTYPE_PUSH) (waitingPush plat d)"
proof (cases "plat = PLAT_ANDROID")
  case False
  then show ?thesis using assms by (simp add: waitingPush_def afterPush_def)
next
  case True
  obtain r st where get: "GetPushMsg (cStore E) uid plat (cstore C) = (r, st)" by fastforce
  let ?C = "C\<lparr>cstore := st\<rparr>"
  have h: "holds (cStore E) st uid (afterPush plat d)" using holds_taken(1) [OF assms(1), of plat] get True
    by (simp add: afterPush_def)
  show ?thesis
  proof (cases r)
    case None
    then have "waitingPush plat d = []"
      using GetPushMsg_found [OF assms(1), of plat] get by (simp add: waitingPush_def)
    then show ?thesis
      using True None get assms h by (intro exI [of _ ?C]) (simp add: offlinePush_def pbind_simps)
  next
    case (Some p)
    then have ps: "waitingPush plat d = [[]]"
      using GetPushMsg_found [OF assms(1), of plat] get True by (simp add: waitingPush_def)
    have off: "derefPush st p = \<lparr>OffCnt = 0, PushMsg = []\<rparr>" using get Some by (intro offline_push_empty) simp
    have wf: "wf_message (pushMessage en 0 web [] (int (Suc 0)))"
      using empty_push_downlink [OF assms(4,5)] by (simp add: downlink_def)
    have S: "sending E i a en s 0 ?C" using assms(2) by simp
    obtain C1 where C1: "sendTracked E s MSGTYPE_PUSH (pushMessage en 0 web []) [] PROTOCOL_TYPE_BINARY ?C = (Inr True, C1)"
        "sending E i a en s (Suc 0) C1" "cstore C1 = st" "trans_inv C1" "tracked C1 s = tracked C s @ [(MSGTYPE_PUSH, [])]"
        "cworld C1 = snd (sockWrite E (TCPConn i a) (frame (pushMessage en 0 web [] (int (Suc 0)))) (cworld C))"
      using sendTracked_next [where mk = "pushMessage en 0 web []" and mt = MSGTYPE_PUSH and body = "[]", OF S _ wf] assms(3)
      by (auto simp: MaxUint32_def)
    have "ses_encode (sesObj C s) = en" using assms(2) by (simp add: sending_def)
    then have "offlinePush E s uid plat web C = (Inr (), C1)"
      using get Some off C1(1) by (simp add: offlinePush_def pbind_simps)
    with C1 True ps h show ?thesis by (intro exI [of _ C1]) simp
  qed
qed

text \<open>The three parts of a batch are messages a client can read, with the stored texts.\<close>

lemma downlink_parts:
  assumes "0 \<le> en" "en < 4" "Msg v \<noteq> []" "length (Msg v) + 3 < 2 ^ 32"
  shows "downlink (callbackMessage en (Msg v) tid)" "downlink (imMessage en web (Msg v) tid)"
  using downMessage_ok(1) [of MSGTYPE_CALLBACK en "Msg v" web tid] downMessage_ok(1) [of MSGTYPE_MESSAGE en "Msg v" web tid] assms
  by (simp_all add: downMessage_def)

lemma set_numbered: "m \<in> set (numbered k mk xs) \<Longrightarrow> \<exists>n x. x \<in> set xs \<and> m = mk x n"
  by (induction xs arbitrary: k) fastforce+

lemma text_numbered:
  "(\<And>x tid. uaText (uaView (mk x tid)) = f x) \<Longrightarrow> map (\<lambda>m. uaText (uaView m)) (numbered k mk xs) = map f xs"
  by (induction xs arbitrary: k) simp_all

definition deliverable :: "Item \<Rightarrow> bool" where
  "deliverable v \<longleftrightarrow> Msg v \<noteq> [] \<and> length (Msg v) + 3 < 2 ^ 32"

lemma offlineBatch_read:
  assumes "0 \<le> en" "en < 4" "\<forall>v \<in> set (queued CB plat d) \<union> set (queued Body.Im plat d). deliverable v"
  shows "\<forall>m \<in> set (offlineBatch en web plat d). downlink m"
    "map (\<lambda>m. uaText (uaView m)) (offlineBatch en web plat d) = waitingPush plat d @ map Msg (queued CB plat d) @
      map (\<lambda>v. flagOf (WebOnline v) # Msg v) (queued Body.Im plat d)"
proof -
  show "\<forall>m \<in> set (offlineBatch en web plat d). downlink m"
  proof -
    have "v \<in> set (queued CB plat d) \<Longrightarrow> downlink (callbackMessage en (Msg v) tid)"
      "v \<in> set (queued Body.Im plat d) \<Longrightarrow> downlink (imMessage en w (Msg v) tid)" for v tid w
      using downlink_parts [OF assms(1,2)] assms(3) unfolding deliverable_def by blast+
    then show ?thesis
      using empty_push_downlink [OF assms(1,2)]
      by (auto simp: offlineBatch_def Let_def waitingPush_def dest!: set_numbered)
  qed
  show "map (\<lambda>m. uaText (uaView m)) (offlineBatch en web plat d) = waitingPush plat d @ map Msg (queued CB plat d) @
      map (\<lambda>v. flagOf (WebOnline v) # Msg v) (queued Body.Im plat d)"
    using text_numbered [of "pushMessage en 0 web" "\<lambda>b. b" 0 "waitingPush plat d"]
    by (simp add: offlineBatch_def Let_def text_numbered pushMessage_def callbackMessage_def imMessage_def)
qed

lemma takeQueue_run: "takeQueue f C = (Inr (fst (f (cstore C))), C\<lparr>cstore := snd (f (cstore C))\<rparr>)"
  by (simp add: takeQueue_def case_prod_beta Let_def)

text \<open>A queue is taken from the store and sent.\<close>

lemma queue_sent:
  assumes S: "sending E i a en s k C" "trans_inv C" and take: "fst (f (cstore C)) = xs" "holds (cStore E) (snd (f (cstore C))) uid d'"
    and body: "\<And>x. body x = pbind (pget (\<lambda>C. ses_encode (sesObj C s))) (\<lambda>encode.
      pbind (sendTracked E s mt (mk encode x) (btxt x) PROTOCOL_TYPE_BINARY) (\<lambda>ok. if ok then pret () else fallback x))"
    and wf: "\<And>x tid. x \<in> set xs \<Longrightarrow> downlink (mk en x tid)" and max: "int k + int (length xs) < MaxUint32"
  shows "\<exists>C1. pforeach (fst (f (cstore C))) body (C\<lparr>cstore := snd (f (cstore C))\<rparr>) = (Inr (), C1) \<and>
    sending E i a en s (k + length xs) C1 \<and> trans_inv C1 \<and> holds (cStore E) (cstore C1) uid d' \<and>
    cworld C1 = written E (TCPConn i a) (map frame (numbered k (mk en) xs)) (cworld C) \<and>
    tracked C1 s = tracked C s @ map (\<lambda>x. (mt, btxt x)) xs"
proof -
  let ?D = "C\<lparr>cstore := snd (f (cstore C))\<rparr>"
  have D: "sending E i a en s k ?D" "trans_inv ?D" using S by simp_all
  have "wf_message (mk en x tid)" if "x \<in> set xs" for x tid using wf [OF that] by (simp add: downlink_def)
  from send_all [where xs = xs and mk = mk and btxt = btxt and mt = mt, OF body this D max] take show ?thesis by auto
qed

lemma ProcOfflineMsg_run:
  assumes h: "holds (cStore E) (cstore C) uid d" and S: "sending E i a en s 0 C" "trans_inv C" "0 \<le> en" "en < 4"
    and plat: "plat \<noteq> PLAT_WEB"
    and items: "\<forall>v \<in> set (queued CB plat d) \<union> set (queued Body.Im plat d). deliverable v"
    and few: "length (queued CB plat d) + length (queued Body.Im plat d) < 2 ^ 30"
  shows "\<exists>C'. ProcOfflineMsg E s uid plat C = (Inr (), C') \<and>
    cworld C' = written E (TCPConn i a) (map frame (offlineBatch en (webIsOnline uid C) plat d)) (cworld C) \<and>
    tracked C' s = tracked C s @ map (Pair MSGTYPE_PUSH) (waitingPush plat d) @
      map (\<lambda>v. (MSGTYPE_CALLBACK, Msg v)) (queued CB plat d) @ map (\<lambda>v. (MSGTYPE_MESSAGE, Msg v)) (queued Body.Im plat d) \<and>
    holds (cStore E) (cstore C') uid (specGetIm plat (specGetCallback plat (afterPush plat d)))"
proof -
  let ?web = "webIsOnline uid C" and ?ps = "waitingPush plat d" and ?c = "TCPConn i a" and ?e = "cStore E"
  let ?cbs = "queued CB plat d" and ?ims = "queued Body.Im plat d"
  have kept: "queued CB plat (afterPush plat d) = ?cbs" "queued Body.Im plat (specGetCallback plat (afterPush plat d)) = ?ims"
    by (simp_all add: afterPush_def)
  have "length ?ps \<le> 1" by (simp add: waitingPush_def)
  with few have max: "int (length ?ps) + int (length ?cbs) < MaxUint32"
    "int (length ?ps + length ?cbs) + int (length ?ims) < MaxUint32" by (simp_all add: MaxUint32_def)
  have wf: "v \<in> set ?cbs \<Longrightarrow> downlink (callbackMessage en (Msg v) tid)"
    "v \<in> set ?ims \<Longrightarrow> downlink (imMessage en (WebOnline v) (Msg v) tid)" for v tid
    using downlink_parts [OF S(3,4)] items unfolding deliverable_def by blast+
  obtain C1 where C1: "(if plat = PLAT_ANDROID then offlinePush E s uid plat ?web else pret ()) C = (Inr (), C1)"
    "sending E i a en s (length ?ps) C1" "trans_inv C1" "holds (cStore E) (cstore C1) uid (afterPush plat d)"
    "cworld C1 = written E ?c (map frame (numbered 0 (pushMessage en 0 ?web) ?ps)) (cworld C)"
    "tracked C1 s = tracked C s @ map (Pair MSGTYPE_PUSH) ?ps"
    using offlinePush_run [OF h S] by blast
  note T1 = holds_taken(2,3) [OF C1(4), of plat, unfolded kept]
  note Q1 = queue_sent [where f = "GetCallbackMsg ?e uid plat" and body = "offlineCallback E s uid plat" and mk = "\<lambda>en v. callbackMessage en (Msg v)" and btxt = Msg
      and mt = MSGTYPE_CALLBACK, OF C1(2,3) T1 offlineCallback_def wf(1) max(1)]
  obtain C2 where C2: "pforeach (fst (GetCallbackMsg ?e uid plat (cstore C1))) (offlineCallback E s uid plat)
      (C1\<lparr>cstore := snd (GetCallbackMsg ?e uid plat (cstore C1))\<rparr>) = (Inr (), C2)"
    "sending E i a en s (length ?ps + length ?cbs) C2" "trans_inv C2"
    "holds (cStore E) (cstore C2) uid (specGetCallback plat (afterPush plat d))"
    "cworld C2 = written E ?c (map frame (numbered (length ?ps) (\<lambda>v. callbackMessage en (Msg v)) ?cbs)) (cworld C1)"
    "tracked C2 s = tracked C1 s @ map (\<lambda>v. (MSGTYPE_CALLBACK, Msg v)) ?cbs"
    using Q1 by blast
  note T2 = holds_taken(4,5) [OF C2(4), of plat, unfolded kept]
  obtain C3 where C3: "pforeach (fst (GetImMsg ?e uid plat (cstore C2))) (offlineIm E s uid plat)
      (C2\<lparr>cstore := snd (GetImMsg ?e uid plat (cstore C2))\<rparr>) = (Inr (), C3)"
    "holds (cStore E) (cstore C3) uid (specGetIm plat (specGetCallback plat (afterPush plat d)))"
    "cworld C3 = written E ?c (map frame (numbered (length ?ps + length ?cbs) (\<lambda>v. imMessage en (WebOnline v) (Msg v)) ?ims)) (cworld C2)"
    "tracked C3 s = tracked C2 s @ map (\<lambda>v. (MSGTYPE_MESSAGE, Msg v)) ?ims"
    using queue_sent [where f = "GetImMsg ?e uid plat" and body = "offlineIm E s uid plat" and mk = "\<lambda>en v. imMessage en (WebOnline v) (Msg v)" and btxt = Msg
        and mt = MSGTYPE_MESSAGE, OF C2(2,3) T2 offlineIm_def wf(2) max(2)] by blast
  have "ProcOfflineMsg E s uid plat C = (Inr (), C3)"
    using plat C1(1) C2(1) C3(1) by (simp add: ProcOfflineMsg_def pbind_simps takeQueue_run)
  then show ?thesis
    using C1(5,6) C2(5,6) C3(2-4) by (intro exI [of _ C3]) (simp add: offlineBatch_def Let_def written_append)
qed

section \<open>Delivery\<close>

text \<open>The comet that has accepted a client: session, address, answer and report; its queues come next.\<close>

definition regResponse :: "Header \<Rightarrow> message" where
  "regResponse h = MResp ((SetEncode (SetMsgType zeroHeader MSGTYPE_REGRESP) (GetEncode h))\<lparr>Tid := Tid h\<rparr>)
     \<lparr>Len = 1\<rparr> \<lparr>Code = 0\<rparr>"

lemma regResponse_ok: "downlink (regResponse h)" "uaText (uaView (regResponse h)) = []"
  using GetEncode_range [of h]
  by (simp_all add: regResponse_def downlink_def wf_message_def codec_ok_def header_simps EncodeParamResp_def)

definition accepted :: "conn \<Rightarrow> Header \<Rightarrow> string \<Rightarrow> int \<Rightarrow> string \<Rightarrow> 'w \<Rightarrow> ('r, 'w) Comet \<Rightarrow> ('r, 'w) Comet" where
  "accepted c h uid plat tok w C = insertIds (connString c) (idf uid plat) (insertSessions (idf uid plat) (freshRef C)
     (snd (newSes \<lparr>ses_id = uid, ses_plat = plat, ses_conn = c, ses_encode = GetEncode h, ses_tid = 0,
        ses_token = tok, ses_trans = []\<rparr> (C\<lparr>cworld := w\<rparr>))))"

lemma accepted_simps [simp]:
  "sesObj (accepted c h uid plat tok w C) (freshRef C) = \<lparr>ses_id = uid, ses_plat = plat, ses_conn = c,
     ses_encode = GetEncode h, ses_tid = 0, ses_token = tok, ses_trans = []\<rparr>"
  "cworld (accepted c h uid plat tok w C) = w" "cstore (accepted c h uid plat tok w C) = cstore C"
  "rpcCli (accepted c h uid plat tok w C) = rpcCli C" "cometId (accepted c h uid plat tok w C) = cometId C"
  "(accepted c h uid plat tok w C)\<lparr>cworld := w'\<rparr> = accepted c h uid plat tok w' C"
  by (simp_all add: accepted_def insertIds_def insertSessions_def newSes_def)

lemma accepted_inv:
  fixes C :: "('r, 'w) Comet"
  assumes "trans_inv C"
  shows "trans_inv (accepted c h uid plat tok w C)"
proof -
  let ?v = "\<lparr>ses_id = uid, ses_plat = plat, ses_conn = c, ses_encode = GetEncode h, ses_tid = 0,
    ses_token = tok, ses_trans = []\<rparr>"
  have "steady (newSes ?v :: (('r, 'w) Comet, ref) pcd)" by (rule steady_newSes) simp
  moreover have "trans_inv (C\<lparr>cworld := w\<rparr>)" using assms by (simp add: trans_inv_def)
  ultimately have "trans_inv (snd (newSes ?v (C\<lparr>cworld := w\<rparr>)))" by (simp add: steady_def)
  then show ?thesis by (simp add: accepted_def insertIds_def insertSessions_def trans_inv_def)
qed

lemma procRegister_accepted:
  assumes "Auth (cTrans E) (rpcCli C) uid plat tok (cworld C) = (None, w)" "findId (connString (TCPConn i a)) C = []"
    "uid = stringOf (take (bytesValidLen (RegId r)) (RegId r))" "plat = uint (TerminalType r)"
    "tok = stringOf (take (bytesValidLen (RegToken r)) (RegToken r))" "GetMsgType h = MSGTYPE_REGISTER"
    and wr: "sockWrite E (TCPConn i a) (frame (regResponse h)) w = (ok, w1)"
  shows "procRegister E (TCPConn i a) h r C = ProcOfflineMsg E (freshRef C) uid plat
    (accepted (TCPConn i a) h uid plat tok (snd (Notify (cTrans E) (rpcCli C) uid plat tok STATE_ONLINE (cometId C) w1)) C)"
proof -
  let ?c = "TCPConn i a" and ?C1 = "C\<lparr>cworld := w\<rparr>"
  let ?C2 = "accepted ?c h uid plat tok w C"
  have auth: "cAuth E uid plat tok C = (Inr None, ?C1)" using assms(1) by (simp add: cAuth_def)
  have free: "findId (connString ?c) ?C1 = []" using assms(2) by (simp add: findId_def)
  have "wf_message (regResponse h)" using regResponse_ok(1) by (simp add: downlink_def)
  from packs_frame [OF this] wr
  have resp: "response E ?c (GetMsgType h + 1) (GetEncode h) (Tid h) 0 (protoType ?c) ?C2 = (Inr ok, ?C2\<lparr>cworld := w1\<rparr>)"
    by (simp add: response_def Pack_def regResponse_def assms(6) pbind_simps del: packBinary.simps)
  have "procRegister E ?c h r C = pbind (response E ?c (GetMsgType h + 1) (GetEncode h) (Tid h) 0 (protoType ?c)) (\<lambda>_.
      pbind (pmod (cNotify E uid plat tok STATE_ONLINE)) (\<lambda>_. ProcOfflineMsg E (freshRef C) uid plat)) ?C2"
    using auth free
    by (simp add: procRegister_def Let_def pbind_simps(1) newSes_def assms(3-5) [symmetric] accepted_def)
  then show ?thesis using resp by (simp add: pbind_def pmod_def cNotify_def)
qed

text \<open>An example: a callback and an instant message wait for the user of \<open>exC\<close>.\<close>

definition exWaitingDoc :: SessionsDoc where
  "exWaitingDoc = specSaveIm 1 [8] (specSaveCallback 1 [7] exDoc)"

definition exWaiting :: "(redis, exEvent list) Comet" where
  "exWaiting = exC\<lparr>cstore := SaveImMsg mapEnv ''u'' 1 [8] (SaveCallbackMsg mapEnv ''u'' 1 [7] exSt)\<rparr>"

lemma exWaiting_store: "st_wf (cstore exWaiting)" "cached (cstore exWaiting) ''u'' = Some exWaitingDoc"
proof -
  have c: "cached exSt ''u'' = Some exDoc" using exSt(2) by simp
  note cb = runOp_cached [OF exSt(1) c, of mapEnv "OpSaveCallback 1 [7]"]
  have im: "st_wf (SaveCallbackMsg mapEnv ''u'' 1 [7] exSt)"
    "cached (SaveCallbackMsg mapEnv ''u'' 1 [7] exSt) ''u'' = Some (specSaveCallback 1 [7] exDoc)" using cb by simp_all
  from runOp_cached [OF im, of mapEnv "OpSaveIm 1 [8]"]
  show "st_wf (cstore exWaiting)" "cached (cstore exWaiting) ''u'' = Some exWaitingDoc"
    by (simp_all add: exWaiting_def exWaitingDoc_def)
qed

lemma exWaiting_queues [simp]:
  "queued CB 1 exWaitingDoc = [\<lparr>WebOnline = False, Msg = [7]\<rparr>]"
  "queued Body.Im 1 exWaitingDoc = [\<lparr>WebOnline = False, Msg = [8]\<rparr>]" "docPlat 1 exWaitingDoc \<noteq> None"
  by (simp_all add: exWaitingDoc_def queued_def specSaveIm_def specSaveCallback_def RdsStore.saveCbBody_def
      RdsStore.saveImBody_def updDoc_def docPlat_def docWeb_def exDoc_def exPhone_def exWeb_def zeroSession_def zeroBody_def Let_def)

text \<open>C33: the callbacks and instant messages that wait for a user are delivered when he registers; a
  waiting push is not. A client on a TCP connection that takes everything, whose code the router
  accepts and whose document the comet finds in its cache or in redis, is answered and reported
  to the router; then come, one frame each, on an Android terminal that is in the document a push
  without text, whether a push was stored or not, the stored callbacks, and the stored instant messages. The client's
  read loop, with one frame to a segment, reads exactly these: the answer, the empty push, and
  both queues in their order and complete, the instant messages with the flag byte in front.
  Each is a transaction of the new session, of its kind and with its text, and the document is
  left with both queues taken and the push cleared.\<close>

theorem offline_messages_delivered:
  assumes "trans_inv C" "Auth (cTrans E) (rpcCli C) uid plat tok (cworld C) = (None, w)"
    and "findId (connString (TCPConn i a)) C = []" "uid = stringOf (take (bytesValidLen (RegId r)) (RegId r))"
    and "plat = uint (TerminalType r)" "tok = stringOf (take (bytesValidLen (RegToken r)) (RegToken r))"
    and "GetMsgType h = MSGTYPE_REGISTER" "\<forall>buf w. fst (sockWrite E (TCPConn i a) buf w)"
    and "st_wf (cstore C)" "loads (cStore E) (cstore C) uid" "lookupDoc (cStore E) (cstore C) uid = Some d" "plat \<noteq> PLAT_WEB"
    and "\<forall>v \<in> set (queued CB plat d) \<union> set (queued Body.Im plat d). Msg v \<noteq> [] \<and> length (Msg v) + 3 < 2 ^ 32"
    and "length (queued CB plat d) + length (queued Body.Im plat d) < 2 ^ 30"
  shows "\<exists>C' resp ms rs. procRegister E (TCPConn i a) h r C = (Inr (), C') \<and>
    cworld C' = written E (TCPConn i a) ms (snd (Notify (cTrans E) (rpcCli C) uid plat tok STATE_ONLINE (cometId C)
      (snd (sockWrite E (TCPConn i a) resp w)))) \<and>
    uaRead (protocolLib J) (map Data (resp # ms)) = Some (rs, UaReadFailed) \<and>
    map uaText rs = [[]] @ (if plat = PLAT_ANDROID \<and> docPlat plat d \<noteq> None then [[]] else []) @
      map Msg (queued CB plat d) @ map (\<lambda>v. flagOf (WebOnline v) # Msg v) (queued Body.Im plat d) \<and>
    tracked C' (freshRef C) = (if plat = PLAT_ANDROID \<and> docPlat plat d \<noteq> None then [(MSGTYPE_PUSH, [])] else []) @
      map (\<lambda>v. (MSGTYPE_CALLBACK, Msg v)) (queued CB plat d) @ map (\<lambda>v. (MSGTYPE_MESSAGE, Msg v)) (queued Body.Im plat d) \<and>
    lookupDoc (cStore E) (cstore C') uid =
      Some (specGetIm plat (specGetCallback plat (if plat = PLAT_ANDROID then specGetPush plat d else d)))"
proof -
  let ?en = "GetEncode h" and ?s = "freshRef C" and ?r = "regResponse h"
  obtain ok w1 where wr: "sockWrite E (TCPConn i a) (frame ?r) w = (ok, w1)" by fastforce
  let ?w2 = "snd (Notify (cTrans E) (rpcCli C) uid plat tok STATE_ONLINE (cometId C) w1)"
  let ?A = "accepted (TCPConn i a) h uid plat tok ?w2 C"
  let ?ms = "offlineBatch ?en (webIsOnline uid ?A) plat d"
  have h: "holds (cStore E) (cstore ?A) uid d" and S: "sending E i a ?en ?s 0 ?A" and new: "tracked ?A ?s = []"
    using assms(8-11) by (simp_all add: holds_def sending_def tracked_def)
  have del: "\<forall>v \<in> set (queued CB plat d) \<union> set (queued Body.Im plat d). deliverable v"
    using assms(13) by (simp add: deliverable_def)
  obtain C' where C': "ProcOfflineMsg E ?s uid plat ?A = (Inr (), C')"
    "cworld C' = written E (TCPConn i a) (map frame ?ms) ?w2"
    "tracked C' ?s = map (Pair MSGTYPE_PUSH) (waitingPush plat d) @
      map (\<lambda>v. (MSGTYPE_CALLBACK, Msg v)) (queued CB plat d) @ map (\<lambda>v. (MSGTYPE_MESSAGE, Msg v)) (queued Body.Im plat d)"
    "holds (cStore E) (cstore C') uid (specGetIm plat (specGetCallback plat (afterPush plat d)))"
    using ProcOfflineMsg_run [OF h S accepted_inv [OF assms(1)] GetEncode_range assms(12) del assms(14)]
    unfolding new append_Nil accepted_simps by blast
  note read = offlineBatch_read [OF GetEncode_range del, where web = "webIsOnline uid ?A"]
  have R: "uaRead (protocolLib J) (map Data (frame ?r # map frame ?ms)) = Some (map uaView (?r # ?ms), UaReadFailed)"
    using uaRead_segments [of "map (\<lambda>m. [m]) (?r # ?ms)" J] read(1) regResponse_ok(1) by (simp add: wire_def comp_def)
  have T: "map uaText (map uaView (?r # ?ms)) = [[]] @ waitingPush plat d @ map Msg (queued CB plat d) @
      map (\<lambda>v. flagOf (WebOnline v) # Msg v) (queued Body.Im plat d)" using read(2) regResponse_ok(2) by (simp add: comp_def)
  have P: "map (Pair MSGTYPE_PUSH) (waitingPush plat d) =
      (if plat = PLAT_ANDROID \<and> docPlat plat d \<noteq> None then [(MSGTYPE_PUSH, [])] else [])"
    by (auto simp: waitingPush_def)
  have D: "lookupDoc (cStore E) (cstore C') uid = Some (specGetIm plat (specGetCallback plat (afterPush plat d)))"
    using C'(4) by (simp add: holds_def)
  have run: "procRegister E (TCPConn i a) h r C = (Inr (), C')"
    using procRegister_accepted [OF assms(2-7) wr] C'(1) by simp
  have W: "cworld C' = written E (TCPConn i a) (map frame ?ms) (snd (Notify (cTrans E) (rpcCli C) uid plat tok STATE_ONLINE
      (cometId C) (snd (sockWrite E (TCPConn i a) (frame ?r) w))))" using C'(2) wr by simp
  show ?thesis using run W R T [unfolded waitingPush_def] C'(3) [unfolded P] D [unfolded afterPush_def] by blast
qed

definition exReturn :: ParamReg where
  "exReturn = exReg\<lparr>RegId := [117]\<rparr>"

lemma exReturn_fields:
  "stringOf (take (bytesValidLen (RegId exReturn)) (RegId exReturn)) = ''u''" "uint (TerminalType exReturn) = 1"
  "stringOf (take (bytesValidLen (RegToken exReturn)) (RegToken exReturn)) = ''w''"
  by code_simp+

theorem offline_messages_delivered_witness:
  "\<exists>C' resp ms rs. procRegister exCenv (TCPConn 9 ''z'') \<lparr>Line = 1, Tid = 7\<rparr> exReturn exWaiting = (Inr (), C') \<and>
    uaRead (protocolLib (oneTextLib (JObj []))) (map Data (resp # ms)) = Some (rs, UaReadFailed) \<and>
    map uaText rs = [[], [], [7], [0, 8]] \<and>
    tracked C' 3 = [(MSGTYPE_PUSH, []), (MSGTYPE_CALLBACK, [7]), (MSGTYPE_MESSAGE, [8])]"
proof -
  let ?h = "\<lparr>Line = 1, Tid = 7\<rparr> :: Header"
  have inv: "trans_inv exWaiting" using exC_trans_inv by (simp add: exWaiting_def)
  have free: "findId (connString (TCPConn 9 ''z'')) exWaiting = []" "freshRef exWaiting = 3"
    by (simp_all add: findId_def exWaiting_def)
  have h: "GetMsgType ?h = MSGTYPE_REGISTER" "\<forall>buf w. fst (sockWrite exCenv (TCPConn 9 ''z'') buf w)"
    by (simp_all add: GetMsgType_def exCenv_def)
  have p: "(1::int) \<noteq> PLAT_WEB" by simp
  have st: "loads (cStore exCenv) (cstore exWaiting) ''u''" "lookupDoc (cStore exCenv) (cstore exWaiting) ''u'' = Some exWaitingDoc"
    using exWaiting_store(2) lookupDoc_cached [OF exWaiting_store(2)] by (auto simp: loads_def cached_def)
  have q: "\<forall>v \<in> set (queued CB 1 exWaitingDoc) \<union> set (queued Body.Im 1 exWaitingDoc). Msg v \<noteq> [] \<and> length (Msg v) + 3 < 2 ^ 32"
    "length (queued CB 1 exWaitingDoc) + length (queued Body.Im 1 exWaitingDoc) < 2 ^ 30" by simp_all
  from offline_messages_delivered [OF inv exCenv_auth free(1) exReturn_fields [symmetric] h exWaiting_store(1) st p q,
      of "oneTextLib (JObj [])", unfolded free(2)]
  show ?thesis by (elim exE conjE) (intro exI conjI, assumption, assumption, simp_all add: flagOf_def)
qed

end
