(* ===== verification/Sockets.thy ===== *)
theory Sockets
  imports CometProps Tcp
begin

text \<open>
  How the messages of the clients get to the handlers: the read loop of a websocket
  (\<^verbatim>\<open>src/comet/ws.go\<close>), the data channel of the comet and the goroutines that empty it
  (\<^verbatim>\<open>Cache\<close> and \<^verbatim>\<open>handleMessage\<close> of \<^verbatim>\<open>socketdo.go\<close>). The read loop of a TCP connection is
  \<open>handleTcpConn\<close>. A read loop ends by unregistering its connection itself, while what it read
  before may still be in the channel.
\<close>

section \<open>The read loop of a websocket\<close>

datatype wsev = WsText bytes | WsErr

datatype wsstop = ReceiveFailed | BadText jsonErr | WsPanicked gopanic

fun handlerWsconn :: "jsonlib \<Rightarrow> wsev list \<Rightarrow> message list \<times> wsstop" where
  "handlerWsconn L (WsText buf # evs) =
     (case UnPackJson L buf of
        Inl panic \<Rightarrow> ([], WsPanicked panic)
      | Inr (Inl err) \<Rightarrow> ([], BadText err)
      | Inr (Inr m) \<Rightarrow> (let (ms, why) = handlerWsconn L evs in (m # ms, why)))"
| "handlerWsconn L _ = ([], ReceiveFailed)"

lemma handlerWsconn_append:
  assumes "\<forall>(b, m) \<in> set bms. UnPackJson L b = Inr (Inr m)"
  shows "handlerWsconn L (map (\<lambda>(b, m). WsText b) bms @ evs) =
    (map snd bms @ fst (handlerWsconn L evs), snd (handlerWsconn L evs))"
  using assms by (induction bms) (auto simp: case_prod_beta)

section \<open>What a websocket client should send\<close>

text \<open>The object of each message a websocket client may send, and the messages that come of it.\<close>

fun wsData :: "message \<Rightarrow> (string \<times> json) list" where
  "wsData (MRegister h ah r) = [(''id'', JStr (RegId r)), (''termType'', jint (uint (TerminalType r))),
     (''token'', JStr (RegToken r)), (''version'', jint (uint (Version r)))]"
| "wsData (MResp h ah p) = [(''code'', jint (uint (Code p)))]"
| "wsData (MImUp h ah msg) = [(''msg'', JStr msg)]"
| "wsData _ = []"

definition wsHead :: "int \<Rightarrow> Header \<Rightarrow> bool" where
  "wsHead cmd h \<longleftrightarrow> h = newHeader cmd (uint (Tid h))"

fun wsMessage :: "message \<Rightarrow> bool" where
  "wsMessage (MRegister h ah r) \<longleftrightarrow> wsHead MSGTYPE_REGISTER h \<and> ah = \<lparr>Len = 66\<rparr> \<and>
     length (RegId r) = 32 \<and> length (RegToken r) = 32"
| "wsMessage (MHeader h) \<longleftrightarrow> wsHead MSGTYPE_HEARTBEAT h"
| "wsMessage (MResp h ah p) \<longleftrightarrow> ah = \<lparr>Len = 1\<rparr> \<and>
     (wsHead MSGTYPE_PUSHRESP h \<or> wsHead MSGTYPE_CBRESP h \<or> wsHead MSGTYPE_MSGRESP h \<or> wsHead MSGTYPE_KICKRESP h)"
| "wsMessage (MImUp h ah msg) \<longleftrightarrow> wsHead MSGTYPE_MESSAGE h \<and> ah = \<lparr>Len = of_nat (length msg)\<rparr>"
| "wsMessage _ \<longleftrightarrow> False"

fun headOf :: "message \<Rightarrow> Header" where
  "headOf (MRegister h ah r) = h" | "headOf (MHeader h) = h" | "headOf (MResp h ah p) = h"
| "headOf (MImUp h ah msg) = h" | "headOf (MPush h ah p msg) = h" | "headOf (MCallback h ah msg) = h"
| "headOf (MImDown h ah flag msg) = h" | "headOf (MKick h ah reason) = h"

definition wsObject :: "message \<Rightarrow> json" where
  "wsObject m = cmdObject (headOf m) (wsData m)"

lemma wsHeadD:
  assumes "wsHead cmd h" "0 \<le> cmd" "cmd < 64"
  shows "GetMsgType h = cmd" "newHeader cmd (uint (Tid h)) = h"
  using assms newHeader_simps(1) [of cmd "uint (Tid h)"] by (auto simp: wsHead_def)

lemma fill32_full: "length b = 32 \<Longrightarrow> fill32 b = b"
  by (simp add: fill32_def)

lemma unpack_wsObject:
  assumes "wsMessage m"
  obtains kvs where "wsObject m = JObj kvs" "unpackBody kvs = Inr (Inr m)"
proof -
  have "unpackBody [(''cmd'', jint (GetMsgType (headOf m))), (''data'', JObj (wsData m)),
      (''tid'', jint (uint (Tid (headOf m))))] = Inr (Inr m)"
    using assms by (cases m) (auto simp: unpackBody_def wsHeadD fill32_full)
  then show thesis using that by (simp add: wsObject_def cmdObject_def)
qed

definition textOk :: "jsonlib \<Rightarrow> json \<Rightarrow> bool" where
  "textOk J v \<longleftrightarrow> jtext J v \<noteq> [] \<and> jparse J (jtext J v) = Some v"

lemma unpack_wsText:
  assumes "wsMessage m" "textOk J (wsObject m)"
  shows "\<exists>buf. Encode (jtext J (wsObject m)) = Inr buf \<and> UnPackJson J buf = Inr (Inr m)"
proof -
  obtain w where w: "Encode (jtext J (wsObject m)) = Inr w" "Decode w = Inr (Inr (jtext J (wsObject m)))"
    using assms(2) Encode_Decode unfolding textOk_def by metis
  obtain kvs where "wsObject m = JObj kvs" "unpackBody kvs = Inr (Inr m)" by (rule unpack_wsObject [OF assms(1)])
  with w assms(2) show ?thesis by (simp add: UnPackJson_def textOk_def)
qed

text \<open>C4: The read loop of a websocket hands on exactly the messages that were sent, in order: for
  registrations, heartbeats, acknowledgements and upward messages, each as its JSON object in the
  ring and base64, and whatever comes after them.\<close>

theorem websocket_reads_messages:
  assumes "\<forall>m \<in> set ms. wsMessage m \<and> jtext J (wsObject m) \<noteq> [] \<and>
    jparse J (jtext J (wsObject m)) = Some (wsObject m)"
  shows "\<exists>bufs. map (\<lambda>m. Encode (jtext J (wsObject m))) ms = map Inr bufs \<and>
    handlerWsconn J (map WsText bufs @ evs) = (ms @ fst (handlerWsconn J evs), snd (handlerWsconn J evs))"
  using assms
proof (induction ms)
  case (Cons m ms)
  then obtain bufs where "map (\<lambda>m. Encode (jtext J (wsObject m))) ms = map Inr bufs"
      "handlerWsconn J (map WsText bufs @ evs) = (ms @ fst (handlerWsconn J evs), snd (handlerWsconn J evs))" by auto
  moreover obtain buf where "Encode (jtext J (wsObject m)) = Inr buf" "UnPackJson J buf = Inr (Inr m)"
    using unpack_wsText [of m J] Cons.prems by (auto simp: textOk_def)
  ultimately show ?case by (intro exI [of _ "buf # bufs"]) simp
qed simp

text \<open>A library for the values of a list: the text of a value tells its place.\<close>

fun placeOf :: "json list \<Rightarrow> json \<Rightarrow> nat" where
  "placeOf [] v = 0"
| "placeOf (w # ws) v = (if w = v then 0 else Suc (placeOf ws v))"

definition tableLib :: "json list \<Rightarrow> jsonlib" where
  "tableLib vs = \<lparr>jtext = (\<lambda>v. replicate (Suc (placeOf vs v)) 123),
     jparse = (\<lambda>b. if length b - 1 < length vs then Some (vs ! (length b - 1)) else None)\<rparr>"

lemma placeOf: "v \<in> set vs \<Longrightarrow> placeOf vs v < length vs \<and> vs ! placeOf vs v = v"
  by (induction vs) auto

lemma tableLib_ok: "v \<in> set vs \<Longrightarrow> jtext (tableLib vs) v \<noteq> [] \<and> jparse (tableLib vs) (jtext (tableLib vs) v) = Some v"
  using placeOf [of v vs] by (simp add: tableLib_def)

definition exMessages :: "message list" where
  "exMessages =
     [MRegister (newHeader MSGTYPE_REGISTER 1) \<lparr>Len = 66\<rparr>
        \<lparr>Version = 1, TerminalType = 8, RegId = fill32 [117], RegToken = fill32 [116]\<rparr>,
      MHeader (newHeader MSGTYPE_HEARTBEAT 2), MResp (newHeader MSGTYPE_MSGRESP 7) \<lparr>Len = 1\<rparr> \<lparr>Code = 0\<rparr>,
      MImUp (newHeader MSGTYPE_MESSAGE 3) \<lparr>Len = 2\<rparr> [104, 105]]"

theorem websocket_reads_messages_witness:
  "\<exists>bufs. map (\<lambda>m. Encode (jtext (tableLib (map wsObject exMessages)) (wsObject m))) exMessages = map Inr bufs \<and>
    handlerWsconn (tableLib (map wsObject exMessages)) (map WsText bufs @ [WsErr]) = (exMessages, ReceiveFailed)"
proof -
  have "\<forall>m \<in> set exMessages. wsMessage m" by (simp add: exMessages_def wsHead_def newHeader_simps)
  then have "\<forall>m \<in> set exMessages. wsMessage m \<and> jtext (tableLib (map wsObject exMessages)) (wsObject m) \<noteq> [] \<and>
      jparse (tableLib (map wsObject exMessages)) (jtext (tableLib (map wsObject exMessages)) (wsObject m)) = Some (wsObject m)"
    using tableLib_ok [of _ "map wsObject exMessages"] by simp
  from websocket_reads_messages [OF this, of "[WsErr]"] show ?thesis by simp
qed

section \<open>The data channel\<close>

record socketData =
  sdConn :: conn
  sdMsg :: message

definition Cache :: "conn \<Rightarrow> message \<Rightarrow> socketData list \<Rightarrow> socketData list" where
  "Cache c m dataChan = dataChan @ [\<lparr>sdConn = c, sdMsg = m\<rparr>]"

text \<open>
  The comet with its data channel. Any of the connections may put something in, any worker
  takes what is first, and the end of a connection does not wait for either.
\<close>

inductive sockstep :: "('r, 'w) cenv \<Rightarrow> ('r, 'w) Comet \<times> socketData list \<Rightarrow>
    ('r, 'w) Comet \<times> socketData list \<Rightarrow> bool"
  for E :: "('r, 'w) cenv" where
  cache: "sockstep E (C, q) (C, Cache c m q)"
| handleMessage: "sockstep E (C, d # q) (onClient E (sdConn d) (sdMsg d) C, q)"
| conn_end: "sockstep E (C, q) (onClose E c C, q)"

inductive_cases sockstepE: "sockstep E (C, q) CQ"

text \<open>Every step of the channel is one of the comet machine, or leaves the comet alone.\<close>

lemma sockstep_cstep: "sockstep E (C, q) (C', q') \<Longrightarrow> C' = C \<or> cstep E C C'"
  by (erule sockstepE) (auto intro: cstep.client cstep.closed)

lemma sockstep_inv:
  assumes "(sockstep E)\<^sup>*\<^sup>* (C, q) (C', q')" "pool_inv C" "trans_inv C"
  shows "pool_inv C' \<and> trans_inv C'"
  using assms(1)
proof (induction rule: rtranclp_induct2)
  case (step C1 q1 C2 q2)
  then show ?case using sockstep_cstep [OF step(2)] pool_inv_cstep trans_inv_cstep by blast
qed (use assms in blast)

text \<open>Left to itself, the channel is emptied in order.\<close>

lemma channel_drains:
  "(sockstep E)\<^sup>*\<^sup>* (C, q) (fold (\<lambda>d. onClient E (sdConn d) (sdMsg d)) q C, [])"
proof (induction q arbitrary: C)
  case (Cons d q)
  have "sockstep E (C, d # q) (onClient E (sdConn d) (sdMsg d) C, q)" by (rule sockstep.handleMessage)
  with Cons [of "onClient E (sdConn d) (sdMsg d) C"] show ?case
    by (simp add: converse_rtranclp_into_rtranclp)
qed simp

section \<open>A registration that is overtaken\<close>

lemma onClose_unregistered:
  assumes "findId (connString c) C = []"
  shows "onClose E c C = closeConn E c C" "freshRef (onClose E c C) = freshRef C"
    "ids (onClose E c C) = ids C" "sessions (onClose E c C) = sessions C"
proof -
  have same: "ids (closeConn E c C) = ids C" "sessions (closeConn E c C) = sessions C"
    "freshRef (closeConn E c C) = freshRef C" by (cases c; simp)+
  then have "findId (connString c) (closeConn E c C) = []" using assms by (simp add: findId_def)
  then show "onClose E c C = closeConn E c C" by (simp add: onClose_def procUnRegister_def)
  with same show "freshRef (onClose E c C) = freshRef C" "ids (onClose E c C) = ids C"
    "sessions (onClose E c C) = sessions C" by simp_all
qed

lemma procRegister_known:
  assumes "Auth (cTrans E) (rpcCli C) uid plat tok (cworld C) = (err, w)" "findId (connString c) C \<noteq> []"
    "uid = stringOf (take (bytesValidLen (RegId r)) (RegId r))" "plat = uint (TerminalType r)"
    "tok = stringOf (take (bytesValidLen (RegToken r)) (RegToken r))"
  shows "procRegister E c h r C = pbind (response E c (GetMsgType h + 1) (GetEncode h) (Tid h)
    (if err = None then 0 else 3) (protoType c)) (\<lambda>_. pret ()) (C\<lparr>cworld := w\<rparr>)"
proof (cases err)
  case None
  have "cAuth E uid plat tok C = (Inr None, C\<lparr>cworld := w\<rparr>)" using assms(1) None by (simp add: cAuth_def)
  moreover have "findId (connString c) (C\<lparr>cworld := w\<rparr>) \<noteq> []" using assms(2) by (simp add: findId_def)
  ultimately show ?thesis
    using None by (simp add: procRegister_def Let_def pbind_simps(1) assms(3-5) [symmetric])
next
  case (Some e)
  then show ?thesis using procRegister_refused [OF assms(1) [unfolded Some] assms(3-5)] by simp
qed

text \<open>C38: a connection that ends while its registration is still in the data channel leaves a ghost: the
  registration is handled after the connection was unregistered, and the closed connection gets
  a session under the user's key. While its address leads to that key, a later connection from
  the same address that registers, whoever it is, gets no session: with a code the router
  accepts it is told that it succeeded (0), otherwise that it was refused (3), and the pool stays
  as it was. The ghost's two entries go when a connection from that address ends.\<close>

theorem late_registration_leaves_ghost:
  assumes "trans_inv C" "findId (connString c) C = []" "C1 = onClose E c C"
    and "Auth (cTrans E) (rpcCli C1) uid plat tok (cworld C1) = (None, w)"
    and "uid = stringOf (take (bytesValidLen (RegId r)) (RegId r))" "plat = uint (TerminalType r)"
    and "tok = stringOf (take (bytesValidLen (RegToken r)) (RegToken r))"
    and "connString c' = connString c"
    and "uid' = stringOf (take (bytesValidLen (RegId r')) (RegId r'))" "plat' = uint (TerminalType r')"
    and "tok' = stringOf (take (bytesValidLen (RegToken r')) (RegToken r'))"
  shows "\<exists>C2. (sockstep E)\<^sup>*\<^sup>* (C, Cache c (MRegister h ah r) []) (C2, []) \<and>
    findSessions (idf uid plat) C2 = Some (freshRef C) \<and>
    ident (sesObj C2 (freshRef C)) = (uid, plat, c, tok) \<and>
    pool_same C2 (onClient E c' (MRegister h' ah' r') C2) \<and>
    (\<forall>err w'. Auth (cTrans E) (rpcCli C2) uid' plat' tok' (cworld C2) = (err, w') \<longrightarrow>
      procRegister E c' h' r' C2 = pbind (response E c' (GetMsgType h' + 1) (GetEncode h') (Tid h')
        (if err = None then 0 else 3) (protoType c')) (\<lambda>_. pret ()) (C2\<lparr>cworld := w'\<rparr>)) \<and>
    findSessions (idf uid plat) (onClose E c' C2) = None \<and> findId (connString c') (onClose E c' C2) = []"
proof -
  note close = onClose_unregistered [OF assms(2), of E]
  have free: "findId (connString c) C1 = []" using close(3) assms(2,3) by (simp add: findId_def)
  note N = procRegister_new [OF assms(4) free assms(5-7) refl, of h]
  let ?C2 = "onClient E c (MRegister h ah r) C1" and ?k = "idf uid plat"
  have C2: "?C2 = snd (procRegister E c h r C1)" by (simp add: onClient_def)
  have f: "freshRef C1 = freshRef C" using close(2) assms(3) by simp
  have steps: "sockstep E (C, Cache c (MRegister h ah r) []) (C1, Cache c (MRegister h ah r) [])"
    "sockstep E (C1, Cache c (MRegister h ah r) []) (?C2, [])"
    using sockstep.handleMessage [of E C1 "\<lparr>sdConn = c, sdMsg = MRegister h ah r\<rparr>" "[]"]
    unfolding assms(3) by (auto simp: Cache_def intro: sockstep.conn_end)
  then have run: "(sockstep E)\<^sup>*\<^sup>* (C, Cache c (MRegister h ah r) []) (?C2, [])"
    by (meson converse_rtranclp_into_rtranclp r_into_rtranclp)
  have k: "findId (connString c') ?C2 = ?k" "findSessions ?k ?C2 = Some (freshRef C)"
    using N(1,2) f by (simp_all add: C2 findId_def findSessions_def assms(8))
  then have known: "findId (connString c') ?C2 \<noteq> []" by simp
  from quiet_register_known [OF this, of E h' r'] have same: "pool_same ?C2 (onClient E c' (MRegister h' ah' r') ?C2)"
    by (simp add: onClient_def)
  have "trans_inv C1" using trans_inv_cstep [OF cstep.closed assms(1)] assms(3) by simp
  then have "trans_inv ?C2" by (rule trans_inv_cstep [OF cstep.client])
  note gone = onClose_done [OF this k(1) idf_not_Nil k(2), of E]
  show ?thesis
    using run k(2) N(3) f same gone(1,2) procRegister_known [OF _ known assms(9-11), of E _ _ h']
    by (intro exI [of _ ?C2]) (auto simp: C2 findSessions_def findId_def)
qed

theorem late_registration_leaves_ghost_witness:
  "\<exists>C2. (sockstep exCenv)\<^sup>*\<^sup>* (exC, Cache (TCPConn 9 ''z'') (MRegister zeroHeader \<lparr>Len = 66\<rparr> exReg) []) (C2, []) \<and>
     findSessions (idf ''v'' 1) C2 = Some 3 \<and> findSessions (idf ''v'' 1) (onClose exCenv (TCPConn 10 ''z'') C2) = None"
proof -
  have free: "findId (connString (TCPConn 9 ''z'')) exC = []" by (simp add: findId_def)
  have again: "connString (TCPConn 10 ''z'') = connString (TCPConn 9 ''z'')" by simp
  from late_registration_leaves_ghost [OF exC_trans_inv free refl exCenv_auth exReg_fields [symmetric] again
      exReg_fields [symmetric], of zeroHeader "\<lparr>Len = 66\<rparr>"]
  show ?thesis by (metis exC_simps(5))
qed

end
