(* ===== verification/Web.thy ===== *)
theory Web
  imports Sockets Client
begin

text \<open>
  The repository's websocket client, \<^verbatim>\<open>src/ua/web/web.go\<close>. Like the other clients it imports
  \<^verbatim>\<open>galopush/protocol\<close>, which is not in the repository: the constants, the codec and what
  \<^verbatim>\<open>encoding/json\<close> makes of that package's structs are the record \<open>webLib\<close>. A message is
  the struct \<^verbatim>\<open>JsonData\<close> with the body as a string in it.
\<close>

section \<open>The imported package\<close>

record jsonData =
  jdCmd :: int
  jdTid :: int
  jdEnCode :: int
  jdData :: bytes

record jsonRegister =
  jrVersion :: int
  jrTerminalType :: int
  jrId :: string
  jrToken :: string

record webLib =
  wConst :: "protocolName \<Rightarrow> int"
  wGencode :: int
  wMarshalData :: "jsonData \<Rightarrow> bytes option"
  wUnmarshalData :: "bytes \<Rightarrow> jsonData option"
  wMarshalRegister :: "jsonRegister \<Rightarrow> bytes option"
  wMarshalPush :: "bytes \<Rightarrow> bytes option"
  wUnmarshalPush :: "bytes \<Rightarrow> bytes option"
  wCodecEncode :: "bytes \<Rightarrow> nat \<Rightarrow> int \<Rightarrow> gopanic + bytes"
  wCodecDecode :: "bytes \<Rightarrow> nat \<Rightarrow> int \<Rightarrow> gopanic + bytes"

text \<open>What \<^verbatim>\<open>DecodeString\<close> returns beside an error: the bytes it had decoded.\<close>

fun decodedPrefix :: "bytes \<Rightarrow> bytes" where
  "decodedPrefix (p # q # r # s # xs) =
     (if s = padding then
        (if r = padding then
           (case (dec6 p, dec6 q) of (Some p, Some q) \<Rightarrow> [first8 p q] | _ \<Rightarrow> [])
         else (case (dec6 p, dec6 q, dec6 r) of
            (Some p, Some q, Some r) \<Rightarrow> [first8 p q, second8 q r] | _ \<Rightarrow> []))
      else
        (case quad (dec6 p) (dec6 q) (dec6 r) (dec6 s) of None \<Rightarrow> []
         | Some ys \<Rightarrow> ys @ decodedPrefix xs))"
| "decodedPrefix _ = []"

definition decodeLoosely :: "bytes \<Rightarrow> bytes" where
  "decodeLoosely s = decodedPrefix (filter (\<lambda>c. c \<noteq> 10 \<and> c \<noteq> 13) s)"

lemma dec6_padding [simp]: "dec6 padding = None"
  by (simp add: dec6_def padding_def)

lemma decodedPrefix_ok: "decodeQuads s = Some b \<Longrightarrow> decodedPrefix s = b"
  by (induction s arbitrary: b rule: decodeQuads.induct) (auto split: if_splits option.splits)

lemma decodeLoosely_ok: "DecodeString s = Some b \<Longrightarrow> decodeLoosely s = b"
  by (simp add: DecodeString_def decodeLoosely_def decodedPrefix_ok)

section \<open>The client\<close>

text \<open>
  \<^verbatim>\<open>webBeats\<close> counts the heartbeat goroutines, \<^verbatim>\<open>webShown\<close> is what was printed as received,
  \<^verbatim>\<open>webExited\<close> tells that \<^verbatim>\<open>log.Fatal\<close> ended the process.
\<close>

record 'w Web =
  webTid :: int
  webBeats :: nat
  webShown :: "(int \<times> bytes) list"
  webExited :: bool
  webWorld :: 'w

record 'w webEnv =
  webLibOf :: webLib
  webWrite :: "bytes \<Rightarrow> 'w \<Rightarrow> bool \<times> 'w"

definition webFatal :: "('w Web, unit) pcd" where
  "webFatal = pmod (\<lambda>p. p\<lparr>webExited := True\<rparr>)"

definition webNextTid :: "('w Web, int) pcd" where
  "webNextTid p = (Inr (webTid p + 1), p\<lparr>webTid := webTid p + 1\<rparr>)"

definition webWriteData :: "'w webEnv \<Rightarrow> jsonData \<Rightarrow> ('w Web, unit) pcd" where
  "webWriteData E msg =
     (case wMarshalData (webLibOf E) msg of None \<Rightarrow> webFatal
      | Some buff \<Rightarrow> (\<lambda>p.
          let (ok, w) = webWrite E buff (webWorld p); p = p\<lparr>webWorld := w\<rparr>
          in if ok then (Inr (), p) else webFatal p))"

text \<open>The body as the string of the message: plain, or run through the codec and base64.\<close>

definition paramStr :: "webLib \<Rightarrow> bytes \<Rightarrow> gopanic + bytes" where
  "paramStr L paramBuff =
     (if wGencode L > 0
      then sbind (wCodecEncode L paramBuff (length paramBuff) (wGencode L)) (\<lambda>b. Inr (EncodeToString b))
      else Inr paramBuff)"

definition webSend :: "'w webEnv \<Rightarrow> protocolName \<Rightarrow> bytes \<Rightarrow> ('w Web, unit) pcd" where
  "webSend E cmd paramBuff =
     pbind webNextTid (\<lambda>tid.
     pbind (plift (paramStr (webLibOf E) paramBuff)) (\<lambda>data.
       webWriteData E \<lparr>jdCmd = wConst (webLibOf E) cmd, jdTid = tid, jdEnCode = wGencode (webLibOf E),
         jdData = data\<rparr>))"

definition webRegister :: "'w webEnv \<Rightarrow> ('w Web, unit) pcd" where
  "webRegister E =
     (case wMarshalRegister (webLibOf E)
         \<lparr>jrVersion = 1, jrTerminalType = 8, jrId = ''13996130360'', jrToken = ''000000''\<rparr> of
        None \<Rightarrow> webFatal
      | Some paramBuff \<Rightarrow> webSend E N_REGISTER paramBuff)"

definition webMessage :: "'w webEnv \<Rightarrow> string \<Rightarrow> ('w Web, unit) pcd" where
  "webMessage E body =
     (case wMarshalPush (webLibOf E) (bytesOf body) of None \<Rightarrow> webFatal
      | Some paramBuff \<Rightarrow> webSend E N_MESSAGE paramBuff)"

definition webPing :: "'w webEnv \<Rightarrow> ('w Web, unit) pcd" where
  "webPing E =
     pbind webNextTid (\<lambda>tid.
       webWriteData E \<lparr>jdCmd = wConst (webLibOf E) N_HEARTBEAT, jdTid = tid, jdEnCode = wGencode (webLibOf E),
         jdData = []\<rparr>)"

section \<open>Reading\<close>

text \<open>\<^verbatim>\<open>unPack\<close> returns an error (\<open>False\<close>) or nil.\<close>

definition webShow :: "'w webEnv \<Rightarrow> jsonData \<Rightarrow> ('w Web, bool) pcd" where
  "webShow E data =
     pbind (plift (if jdEnCode data > 0
         then (let b = decodeLoosely (jdData data) in wCodecDecode (webLibOf E) b (length b) (jdEnCode data))
         else Inr (jdData data))) (\<lambda>b.
       case wUnmarshalPush (webLibOf E) b of None \<Rightarrow> pbind webFatal (\<lambda>_. pret False)
       | Some x \<Rightarrow>
           (case DecodeString x of None \<Rightarrow> pbind webFatal (\<lambda>_. pret False)
            | Some msg \<Rightarrow>
                pbind (pmod (\<lambda>p. p\<lparr>webShown := webShown p @ [(jdCmd data, msg)]\<rparr>)) (\<lambda>_. pret True)))"

definition webUnPack :: "'w webEnv \<Rightarrow> bytes \<Rightarrow> ('w Web, bool) pcd" where
  "webUnPack E buffer =
     (let L = webLibOf E in
      case wUnmarshalData L buffer of None \<Rightarrow> pret False
      | Some data \<Rightarrow>
          if jdCmd data \<in> {wConst L N_REGRESP, wConst L N_HBRESP, wConst L N_MSGRESP} then
            pbind (if jdCmd data = wConst L N_REGRESP then pmod (\<lambda>p. p\<lparr>webBeats := webBeats p + 1\<rparr>) else pret ())
              (\<lambda>_. pret True)
          else if jdCmd data \<in> {wConst L N_PUSH, wConst L N_CALLBACK, wConst L N_MESSAGE} then webShow E data
          else pret False)"

text \<open>\<^verbatim>\<open>readRuntime\<close>: the first error ends the process.\<close>

fun webRead :: "'w webEnv \<Rightarrow> wsev list \<Rightarrow> ('w Web, unit) pcd" where
  "webRead E (WsText buf # evs) = pbind (webUnPack E buf) (\<lambda>ok. if ok then webRead E evs else webFatal)"
| "webRead E _ = webFatal"

section \<open>The client and the comet\<close>

datatype webAct = WRegister | WPing | WMessage string

fun webDo :: "'w webEnv \<Rightarrow> webAct \<Rightarrow> ('w Web, unit) pcd" where
  "webDo E WRegister = webRegister E"
| "webDo E WPing = webPing E"
| "webDo E (WMessage body) = webMessage E body"

definition webStart :: "'w \<Rightarrow> 'w Web" where
  "webStart w = \<lparr>webTid = 0, webBeats = 0, webShown = [], webExited = False, webWorld = w\<rparr>"

lemma webStart_world [simp]: "webWorld (webStart w) = w"
  by (simp add: webStart_def)

text \<open>A connection that takes everything and keeps it.\<close>

definition webLine :: "webLib \<Rightarrow> bytes list webEnv" where
  "webLine L = \<lparr>webLibOf = L, webWrite = (\<lambda>b w. (True, w @ [b]))\<rparr>"

definition braced :: "bytes \<Rightarrow> bool" where "braced b \<longleftrightarrow> (\<exists>xs. b = 123 # xs)"

lemma braced_no_base64: "braced b \<Longrightarrow> DecodeString b = None"
proof -
  have "decodeQuads (123 # xs) = None" for xs
    by (cases "(123 :: byte) # xs" rule: decodeQuads.cases) (auto simp: dec6_def split: option.splits)
  then show "braced b \<Longrightarrow> ?thesis" by (auto simp: braced_def DecodeString_def)
qed

lemma braced_refused: "braced b \<Longrightarrow> UnPackJson J b = Inr (Inl Base64Error)"
  by (simp add: UnPackJson_def Decode_def braced_no_base64)

text \<open>Everything the client has written is a JSON object.\<close>

abbreviation (input) wroteObjects :: "bytes list Web \<Rightarrow> bool" where
  "wroteObjects p \<equiv> (\<forall>b \<in> set (webWorld p). braced b)"

lemma keeps_basics [keeps_rules]:
  "pkeeps wroteObjects webFatal" "pkeeps wroteObjects webNextTid"
  by (auto simp: pkeeps_def webFatal_def webNextTid_def)

lemma keeps_writeData [keeps_rules]:
  assumes "\<And>d b. wMarshalData L d = Some b \<Longrightarrow> braced b"
  shows "pkeeps wroteObjects (webWriteData (webLine L) d)"
  using assms by (auto simp: pkeeps_def webWriteData_def webLine_def webFatal_def split: option.splits)

lemma keeps_webDo:
  assumes "\<And>d b. wMarshalData L d = Some b \<Longrightarrow> braced b"
  shows "pkeeps wroteObjects (webDo (webLine L) a)"
  by (cases a)
    (auto simp: webRegister_def webMessage_def webPing_def webSend_def split: option.splits
      intro!: keeps_rules dest: assms)

lemma refused_run:
  assumes "\<forall>b \<in> set bs. UnPackJson J b = Inr (Inl err)" "bs \<noteq> []"
  shows "handlerWsconn J (map WsText bs @ evs) = ([], BadText err)"
  using assms by (cases bs) simp_all

text \<open>C36: Whatever the repository's websocket client writes (registrations, heartbeats, messages), the
  comet refuses the first of it as no base64 text, handles nothing and ends the connection: the
  client writes bare JSON objects.\<close>

theorem web_client_is_refused:
  assumes "\<And>d b. wMarshalData L d = Some b \<Longrightarrow> \<exists>xs. b = 123 # xs"
    and "webWorld (snd (pforeach acts (webDo (webLine L)) (webStart []))) = bs" "bs \<noteq> []"
  shows "handlerWsconn J (map WsText bs @ evs) = ([], BadText Base64Error)"
proof (rule refused_run)
  have "pkeeps wroteObjects (pforeach acts (webDo (webLine L)))"
    using assms(1) by (intro pkeeps_pforeach keeps_webDo) (simp add: braced_def)
  then have "\<forall>b \<in> set bs. braced b"
    unfolding pkeeps_def using assms(2) by (metis empty_iff list.set(1) webStart_world)
  then show "\<forall>b \<in> set bs. UnPackJson J b = Inr (Inl Base64Error)" by (simp add: braced_refused)
qed (rule assms(3))

definition exampleWebLib :: webLib where
  "exampleWebLib = \<lparr>wConst = protocolConst, wGencode = ENCODE_DEFAULT,
     wMarshalData = (\<lambda>d. Some (123 # jdData d @ [125])), wUnmarshalData = (\<lambda>b. None),
     wMarshalRegister = (\<lambda>r. Some (bytesOf (jrId r))), wMarshalPush = Some, wUnmarshalPush = Some,
     wCodecEncode = CodecEncode, wCodecDecode = CodecDecode\<rparr>"

theorem web_client_is_refused_witness:
  "handlerWsconn \<lparr>jtext = (\<lambda>v. [123]), jparse = (\<lambda>b. None)\<rparr> (map WsText [123 # bytesOf ''13996130360'' @ [125], [123, 125]] @ [])
    = ([], BadText Base64Error)"
  by (rule web_client_is_refused [where L = exampleWebLib and acts = "[WRegister, WPing]"])
    (simp_all add: exampleWebLib_def webLine_def webRegister_def webPing_def webSend_def webNextTid_def pbind_simps
      webWriteData_def paramStr_def webStart_def ENCODE_DEFAULT_def)

end
