(* ===== verification/Dial.thy ===== *)
theory Dial
  imports Web Client RouterReports
begin

text \<open>
  How the clients under \<^verbatim>\<open>src/ua\<close> start: each asks the router's dispatcher for an address over
  HTTP, dials it and registers. The network is a parameter; the properties put the model of the
  router behind it.
\<close>

section \<open>The network of a client\<close>

text \<open>
  \<^verbatim>\<open>http.PostForm\<close> fails (\<open>None\<close>) or gives a response, whose body can be read (\<open>Some\<close>) or not.
  A connection is named by the address it was dialled at.
\<close>

record 'w clientNet =
  netLib :: uaLib
  netWebLib :: webLib
  httpPost :: "string \<Rightarrow> (string \<times> string) list \<Rightarrow> 'w \<Rightarrow> bytes option option \<times> 'w"
  resolveTCP :: "string \<Rightarrow> 'w \<Rightarrow> bool \<times> 'w"
  dialTCP :: "string option \<Rightarrow> string \<Rightarrow> 'w \<Rightarrow> bool \<times> 'w"
  dialWS :: "string \<Rightarrow> string \<Rightarrow> 'w \<Rightarrow> bool \<times> 'w"
  netWrite :: "string \<Rightarrow> bytes \<Rightarrow> 'w \<Rightarrow> bool \<times> 'w"
  netCount :: "string \<Rightarrow> 'w \<Rightarrow> 'w"

definition connTo :: "'w clientNet \<Rightarrow> string \<Rightarrow> 'w uaEnv" where
  "connTo N addr = \<lparr>uaLibOf = netLib N, uaWrite = netWrite N addr, uaCount = netCount N\<rparr>"

definition wsTo :: "'w clientNet \<Rightarrow> string \<Rightarrow> 'w webEnv" where
  "wsTo N url = \<lparr>webLibOf = netWebLib N, webWrite = netWrite N url\<rparr>"

definition netDo :: "('w \<Rightarrow> 'a \<times> 'w) \<Rightarrow> ('w UA, 'a) pcd" where
  "netDo f p = (let (x, w) = f (uaWorld p) in (Inr x, p\<lparr>uaWorld := w\<rparr>))"

definition webDoNet :: "('w \<Rightarrow> 'a \<times> 'w) \<Rightarrow> ('w Web, 'a) pcd" where
  "webDoNet f p = (let (x, w) = f (webWorld p) in (Inr x, p\<lparr>webWorld := w\<rparr>))"

section \<open>Asking the dispatcher\<close>

definition loadblancer :: string where
  "loadblancer = ''http://192.168.1.63:5150/v1/gComet.addr''"

definition postForm :: "'w clientNet \<Rightarrow> (string \<times> string) list \<Rightarrow> 'w \<Rightarrow> string option \<times> 'w" where
  "postForm N form w =
     (let (resp, w) = httpPost N loadblancer form w in
      case resp of None \<Rightarrow> (None, w)
      | Some body \<Rightarrow> (case body of None \<Rightarrow> (None, w) | Some b \<Rightarrow> (Some (stringOf b), w)))"

text \<open>The load tool sends the platform's number, the others its name.\<close>

definition benchCometAddr :: "'w clientNet \<Rightarrow> ('w UA, string option) pcd" where
  "benchCometAddr N =
     pbind (pget (\<lambda>p. [(''id'', uaUid p), (''termtype'', showInt (uaPlat p))])) (\<lambda>form. netDo (postForm N form))"

definition androidCometAddr :: "'w clientNet \<Rightarrow> ('w UA, string option) pcd" where
  "androidCometAddr N = netDo (postForm N [(''id'', ''8''), (''termtype'', ''Android'')])"

definition webCometAddr :: "'w clientNet \<Rightarrow> ('w Web, string option) pcd" where
  "webCometAddr N = webDoNet (postForm N [(''id'', ''13996130360''), (''termtype'', ''Web'')])"

section \<open>bench.go\<close>

text \<open>
  \<^verbatim>\<open>start\<close> gives the address of the connection that \<^verbatim>\<open>service\<close> and \<^verbatim>\<open>readRuntime\<close> are started
  on, if it gets that far. An address that cannot be resolved is a panic.
\<close>

definition resolveOrPanic :: "'w clientNet \<Rightarrow> string \<Rightarrow> ('w UA, unit) pcd" where
  "resolveOrPanic N a = pbind (netDo (resolveTCP N a)) (\<lambda>ok. plift (if ok then Inr () else Inl Raised))"

definition benchStart :: "'w clientNet \<Rightarrow> string \<Rightarrow> ('w UA, string option) pcd" where
  "benchStart N bind =
     pbind (benchCometAddr N) (\<lambda>r.
       case r of None \<Rightarrow> pbind (pmod (uaAdd (connTo N []) ''getCometAddr'')) (\<lambda>_. pret None)
       | Some cometAddr \<Rightarrow>
           pbind (resolveOrPanic N bind) (\<lambda>_.
           pbind (resolveOrPanic N cometAddr) (\<lambda>_.
           pbind (netDo (dialTCP N (Some bind) cometAddr)) (\<lambda>ok.
             if \<not> ok then pbind (pmod (uaAdd (connTo N []) ''net.Dial'')) (\<lambda>_. pret None)
             else
               pbind (benchRegister (connTo N cometAddr)) (\<lambda>_.
               pbind (pmod (uaAdd (connTo N cometAddr) ''new ua'')) (\<lambda>_. pret (Some cometAddr)))))))"

definition benchPingRuntime :: "'w uaEnv \<Rightarrow> nat \<Rightarrow> ('w UA, unit) pcd" where
  "benchPingRuntime E ticks = pforeach [0..<ticks] (\<lambda>_. pbind (benchHeartbeat E) (\<lambda>_. pret ()))"

definition benchSendAnyThing :: "'w uaEnv \<Rightarrow> ('w UA, bool) pcd" where
  "benchSendAnyThing E = netDo (uaWrite E ((replicate 1024 0)[0 := 11, 1 := 1]))"

definition MAX_SOCKET_CONNECTION :: nat where
  "MAX_SOCKET_CONNECTION = 60000"

definition newBenchUA :: "uaLib \<Rightarrow> string \<Rightarrow> nat \<Rightarrow> 'w \<Rightarrow> 'w UA" where
  "newBenchUA L userid i w = \<lparr>uaUid = userid @ showInt (int i), uaPlat = 1, uaToken = ''token'' @ showInt (int i),
     uaEncode = uConst L N_LOOP_XOR, uaTid = of_nat i, uaPings = 0, uaExited = False, uaWorld = w\<rparr>"

text \<open>The clients of \<^verbatim>\<open>main\<close>, each run to its loops when it is started; a panic ends the process.\<close>

definition benchGo :: "'w clientNet \<Rightarrow> string \<Rightarrow> string \<Rightarrow> nat \<Rightarrow> ('w, unit) pcd" where
  "benchGo N userid laddr i w =
     (case benchStart N laddr (newBenchUA (netLib N) userid i w) of
        (Inl e, p) \<Rightarrow> (Inl e, uaWorld p) | (Inr _, p) \<Rightarrow> (Inr (), uaWorld p))"

definition benchMain :: "'w clientNet \<Rightarrow> string \<Rightarrow> string \<Rightarrow> ('w, unit) pcd" where
  "benchMain N userid laddr = pforeach [0..<MAX_SOCKET_CONNECTION] (benchGo N userid laddr)"

section \<open>android.go and web.go\<close>

text \<open>\<open>hup\<close>: whether a SIGHUP comes; the signal goroutine handles one, here after the registration.\<close>

definition androidMain :: "'w clientNet \<Rightarrow> bool \<Rightarrow> ('w UA, string option) pcd" where
  "androidMain N hup =
     pbind (androidCometAddr N) (\<lambda>r.
       case r of None \<Rightarrow> pret None
       | Some cometAddr \<Rightarrow>
           pbind (netDo (dialTCP N None cometAddr)) (\<lambda>ok.
             if \<not> ok then pret None
             else
               pbind (androidRegister (connTo N cometAddr) ''8'' ''d73d89472cdb13a1cdf79a55bccbbd56'') (\<lambda>_.
               pbind (if hup then androidIm (connTo N cometAddr) ''helloworld-------'' else pret True) (\<lambda>_.
                 pret (Some cometAddr)))))"

definition androidPingRuntime :: "'w uaEnv \<Rightarrow> nat \<Rightarrow> ('w UA, unit) pcd" where
  "androidPingRuntime E ticks = pforeach [0..<ticks] (\<lambda>_. pbind (androidHeartbeat E) (\<lambda>_. pret ()))"

text \<open>A statement after one that may end the process with \<^verbatim>\<open>log.Fatal\<close>.\<close>

definition unlessExited :: "('w Web, unit) pcd \<Rightarrow> ('w Web, unit) pcd" where
  "unlessExited m = pbind (pget webExited) (\<lambda>x. if x then pret () else m)"

definition webMain :: "'w clientNet \<Rightarrow> bool \<Rightarrow> ('w Web, string option) pcd" where
  "webMain N hup =
     pbind (webCometAddr N) (\<lambda>r.
       case r of None \<Rightarrow> pret None
       | Some cometAddr \<Rightarrow>
           let url = ''ws://'' @ cometAddr @ ''/ws'' in
           pbind (webDoNet (dialWS N url ''http://localhost/'')) (\<lambda>ok.
             if \<not> ok then pbind webFatal (\<lambda>_. pret None)
             else
               pbind (webRegister (wsTo N url)) (\<lambda>_.
               pbind (unlessExited (if hup then webMessage (wsTo N url) ''this is a im msg which send by web client'' else pret ()))
                 (\<lambda>_. pret (Some url)))))"

definition webHeartbeat :: "'w webEnv \<Rightarrow> nat \<Rightarrow> ('w Web, unit) pcd" where
  "webHeartbeat E ticks = pforeach [0..<ticks] (\<lambda>_. unlessExited (webPing E))"

lemma showNat_digits: "set (showNat n) \<subseteq> digitChar ` {..<10}"
proof (induction n rule: showNat.induct)
  case (1 n)
  then show ?case by (cases "n < 10") (simp_all add: showNat.simps [of n])
qed

section \<open>The clients of the load tool\<close>

lemma length_showNat: "n < 10 ^ Suc k \<Longrightarrow> length (showNat n) \<le> Suc k"
proof (induction k arbitrary: n)
  case (Suc k)
  then have "n div 10 < 10 ^ Suc k" by simp
  from Suc.IH [OF this] show ?case by (simp add: showNat.simps [of n])
qed (simp add: showNat.simps)

lemma fits_showNat:
  assumes "length s + Suc k \<le> 32" "0 \<notin> set (bytesOf s)" "n < 10 ^ Suc k"
  shows "fits (s @ showInt (int n))"
proof -
  have "of_nat (of_char c) \<noteq> (0 :: byte)" if c: "c \<in> set (showNat n)" for c
  proof -
    obtain d where d: "d < 10" "c = digitChar d" using showNat_digits [of n] c by auto
    have "unat (of_nat (48 + d) :: byte) = 48 + d" using d(1) by (subst unat_of_nat) simp
    then show ?thesis using of_char_digitChar [OF d(1)] d(2) by (metis add_is_0 unat_0 zero_neq_numeral)
  qed
  then show ?thesis
    using assms(1,2) length_showNat [OF assms(3)] by (auto simp: fits_def bytesOf_def showInt_def)
qed

lemma newBenchUA_simps [simp]:
  "uaUid (newBenchUA L u i w) = u @ showInt (int i)" "uaToken (newBenchUA L u i w) = ''token'' @ showInt (int i)"
  "uaEncode (newBenchUA L u i w) = uConst L N_LOOP_XOR" "uaTid (newBenchUA L u i w) = of_nat i"
  "uaWorld (newBenchUA L u i w) = w"
  by (simp_all add: newBenchUA_def)

text \<open>The registration of client \<open>i\<close>.\<close>

definition benchRegistration :: "string \<Rightarrow> nat \<Rightarrow> message" where
  "benchRegistration u i = registration (newBenchUA (protocolLib \<lparr>jtext = (\<lambda>v. []), jparse = (\<lambda>b. None)\<rparr>) u i ())"

lemma benchRegistration_ok:
  assumes "length u \<le> 27" "0 \<notin> set (bytesOf u)" "i < MAX_SOCKET_CONNECTION"
  shows "registration (newBenchUA (protocolLib J) u i w) = benchRegistration u i"
    "uplink (benchRegistration u i)" "delivered (benchRegistration u i)"
    "fits (u @ showInt (int i))" "fits (''token'' @ showInt (int i))"
proof -
  have i: "i < 10 ^ Suc 4" using assms(3) by (simp add: MAX_SOCKET_CONNECTION_def)
  show fits: "fits (u @ showInt (int i))" using assms(1,2) by (intro fits_showNat [OF _ _ i]) simp_all
  show fits': "fits (''token'' @ showInt (int i))" by (intro fits_showNat [OF _ _ i]) (simp_all add: bytesOf_def)
  show "registration (newBenchUA (protocolLib J) u i w) = benchRegistration u i"
    by (simp add: benchRegistration_def registration_def)
  show "uplink (benchRegistration u i)" "delivered (benchRegistration u i)"
    unfolding benchRegistration_def
    by (rule registration_ok; simp only: newBenchUA_simps fits fits'; simp)+
qed

text \<open>What the clients \<open>is\<close> have written, each at the address it was given.\<close>

definition registeredAt :: "string \<Rightarrow> string list \<Rightarrow> nat list \<Rightarrow> (string \<times> bytes) list" where
  "registeredAt u as is = map2 (\<lambda>a i. (a, frame (benchRegistration u i))) as is"

lemma registeredAt_Cons [simp]:
  "registeredAt u [] [] = []"
  "registeredAt u (a # as) (i # is) = (a, frame (benchRegistration u i)) # registeredAt u as is"
  by (simp_all add: registeredAt_def)

section \<open>What a client relies on\<close>

text \<open>A start on a network that answers, connects and takes what is written.\<close>

lemma benchStart_at:
  assumes "postForm N [(''id'', uaUid p), (''termtype'', showInt (uaPlat p))] (uaWorld p) = (Some a, w1)"
    and "\<And>b. resolveTCP N b w1 = (True, w1)" "dialTCP N (Some bind) a w1 = (True, w1)"
    and "netWrite N a (frame (registration p)) w1 = (True, w2)" "netCount N ''new ua'' w2 = w2"
    and "netLib N = protocolLib J" "uplink (registration p)"
  shows "benchStart N bind p = (Inr (Some a), (uaNextTid p)\<lparr>uaWorld := w2\<rparr>)"
proof -
  let ?p = "p\<lparr>uaWorld := w1\<rparr>"
  have ask: "benchCometAddr N p = (Inr (Some a), ?p)"
    using assms(1) by (simp add: benchCometAddr_def pbind_simps netDo_def)
  have reg: "registration ?p = registration p" "uaNextTid ?p = (uaNextTid p)\<lparr>uaWorld := w1\<rparr>"
    by (simp_all add: registration_def uaNextTid_def)
  have "benchRegister (connTo N a) ?p = (Inr True, (uaNextTid ?p)\<lparr>uaWorld := w2\<rparr>)"
    using assms(4,6,7) by (intro benchRegister_writes [where J = J]) (simp_all add: reg connTo_def)
  with ask assms(2,3,5) show ?thesis
    by (simp add: benchStart_def pbind_simps netDo_def resolveOrPanic_def reg uaAdd_def connTo_def)
qed

text \<open>
  The contract of the network as the clients use it: in a healthy state the dispatcher gives one
  of the addresses \<open>hosts\<close> to every user, everything can be dialled, and what is written at an
  address is kept in \<open>sent\<close>; it stays healthy.
\<close>

locale address_service =
  fixes N :: "'w clientNet" and healthy :: "'w \<Rightarrow> bool" and sent :: "'w \<Rightarrow> (string \<times> bytes) list"
    and hosts :: "string set" and J :: jsonlib
  assumes ask: "healthy w \<Longrightarrow> \<exists>a \<in> hosts. \<exists>w'. healthy w' \<and> sent w' = sent w \<and>
      postForm N [(''id'', uid), (''termtype'', showInt i)] w = (Some a, w')"
    and connect: "healthy w \<Longrightarrow> resolveTCP N a w = (True, w)" "healthy w \<Longrightarrow> dialTCP N l a w = (True, w)"
    and send: "healthy w \<Longrightarrow> \<exists>w'. netWrite N a b w = (True, w') \<and> healthy w' \<and> sent w' = sent w @ [(a, b)]"
    and count: "netCount N k w = w"
    and package: "netLib N = protocolLib J"
begin

lemma starts:
  assumes "healthy (uaWorld p)" "uplink (registration p)"
  shows "\<exists>a \<in> hosts. \<exists>w. benchStart N bind p = (Inr (Some a), (uaNextTid p)\<lparr>uaWorld := w\<rparr>) \<and> healthy w \<and>
    sent w = sent (uaWorld p) @ [(a, frame (registration p))]"
proof -
  obtain a w1 where a: "a \<in> hosts" "healthy w1" "sent w1 = sent (uaWorld p)"
    "postForm N [(''id'', uaUid p), (''termtype'', showInt (uaPlat p))] (uaWorld p) = (Some a, w1)"
    using ask [OF assms(1)] by blast
  obtain w2 where w2: "netWrite N a (frame (registration p)) w1 = (True, w2)" "healthy w2"
    "sent w2 = sent w1 @ [(a, frame (registration p))]" using send [OF a(2)] by blast
  from benchStart_at [OF a(4) connect(1) [OF a(2)] connect(2) [OF a(2)] w2(1) count package assms(2)]
  show ?thesis using a(1,3) w2(2,3) by auto
qed

text \<open>The clients of the load tool, one after the other.\<close>

lemma goes:
  assumes "healthy w" "length u \<le> 27" "0 \<notin> set (bytesOf u)" "i < MAX_SOCKET_CONNECTION"
  shows "\<exists>a \<in> hosts. \<exists>w'. benchGo N u laddr i w = (Inr (), w') \<and> healthy w' \<and>
    sent w' = sent w @ [(a, frame (benchRegistration u i))]"
proof -
  note reg = benchRegistration_ok [OF assms(2-4)]
  have h: "healthy (uaWorld (newBenchUA (protocolLib J) u i w))" using assms(1) by simp
  have up: "uplink (registration (newBenchUA (protocolLib J) u i w))" using reg(1,2) by metis
  from starts [OF h up, of laddr] show ?thesis
    by (auto simp: benchGo_def package reg(1))
qed

lemma all_go:
  assumes "healthy w" "length u \<le> 27" "0 \<notin> set (bytesOf u)" "\<forall>i \<in> set is. i < MAX_SOCKET_CONNECTION"
  shows "\<exists>w' as. length as = length is \<and> set as \<subseteq> hosts \<and> pforeach is (benchGo N u laddr) w = (Inr (), w') \<and>
    healthy w' \<and> sent w' = sent w @ registeredAt u as is"
  using assms
proof (induction "is" arbitrary: w)
  case Nil
  show ?case using Nil.prems(1) by (intro exI [of _ w] exI [of _ "[]"]) (simp add: pret_def)
next
  case (Cons i "is")
  have i: "i < MAX_SOCKET_CONNECTION" "\<forall>j \<in> set is. j < MAX_SOCKET_CONNECTION" using Cons.prems(4) by simp_all
  obtain a w1 where a: "a \<in> hosts" "benchGo N u laddr i w = (Inr (), w1)" "healthy w1"
    "sent w1 = sent w @ [(a, frame (benchRegistration u i))]" using goes [OF Cons.prems(1-3) i(1), of laddr] by blast
  obtain w' as where w': "length as = length is" "set as \<subseteq> hosts" "pforeach is (benchGo N u laddr) w1 = (Inr (), w')"
    "healthy w'" "sent w' = sent w1 @ registeredAt u as is" using Cons.IH [OF a(3) Cons.prems(2,3) i(2)] by blast
  show ?case using a w' by (intro exI [of _ w'] exI [of _ "a # as"]) (simp add: pbind_simps)
qed

lemma load_tool:
  assumes "healthy w" "length u \<le> 27" "0 \<notin> set (bytesOf u)"
  shows "\<exists>w' as. length as = MAX_SOCKET_CONNECTION \<and> set as \<subseteq> hosts \<and> benchMain N u laddr w = (Inr (), w') \<and>
    healthy w' \<and> sent w' = sent w @ registeredAt u as [0..<MAX_SOCKET_CONNECTION]"
  using all_go [OF assms, of "[0..<MAX_SOCKET_CONNECTION]" laddr] by (simp add: benchMain_def)

end

section \<open>The router behind the dispatcher's address\<close>

text \<open>\<^verbatim>\<open>r.FormValue\<close>: the first value of the key.\<close>

definition formValue :: "(string \<times> string) list \<Rightarrow> string \<Rightarrow> string" where
  "formValue form k = (case map_of form k of None \<Rightarrow> [] | Some v \<Rightarrow> v)"

text \<open>
  A network in which the router answers and everything can be dialled and written; its state is
  the router with what was written on each connection. The router ranges over its comets in the
  order \<open>order\<close>.
\<close>

definition routerNet :: "('r, 'w) renv \<Rightarrow> comet list \<Rightarrow> jsonlib \<Rightarrow> webLib \<Rightarrow>
    (('r, 'w) Router \<times> (string \<times> bytes) list) clientNet" where
  "routerNet RE order J W = \<lparr>netLib = protocolLib J, netWebLib = W,
     httpPost = (\<lambda>url form (R, ws).
       if url \<noteq> loadblancer then (None, (R, ws))
       else (let (a, R) = loadDispatcher RE order ''POST'' (formValue form ''id'') (formValue form ''termtype'') R
             in (Some (Some (bytesOf (case a of None \<Rightarrow> [] | Some a \<Rightarrow> a))), (R, ws)))),
     resolveTCP = (\<lambda>a w. (True, w)), dialTCP = (\<lambda>l a w. (True, w)), dialWS = (\<lambda>u o' w. (True, w)),
     netWrite = (\<lambda>a b (R, ws). (True, (R, ws @ [(a, b)]))), netCount = (\<lambda>k w. w)\<rparr>"

lemma routerNet_simps [simp]:
  "uaLibOf (connTo (routerNet RE order J W) a) = protocolLib J"
  "uaWrite (connTo (routerNet RE order J W) a) b (R, ws) = (True, (R, ws @ [(a, b)]))"
  "uaAdd (connTo (routerNet RE order J W) a) k p = p"
  "resolveTCP (routerNet RE order J W) a w = (True, w)" "dialTCP (routerNet RE order J W) l a w = (True, w)"
  "dialWS (routerNet RE order J W) u h w = (True, w)"
  by (simp_all add: routerNet_def connTo_def uaAdd_def)

lemma postForm_router:
  assumes "loadDispatcher RE order ''POST'' (formValue form ''id'') (formValue form ''termtype'') R = (Some a, R')"
  shows "postForm (routerNet RE order J W) form (R, ws) = (Some a, (R', ws))"
  using assms by (simp add: postForm_def routerNet_def stringOf_bytesOf)

text \<open>A platform's number is none of the dispatcher's names.\<close>

lemma showInt_not_Web: "showInt i \<noteq> ''Web''"
proof
  assume "showInt i = ''Web''"
  then have "showNat (nat i) = ''Web''" by (simp add: showInt_def split: if_splits)
  then have "CHR ''W'' \<in> digitChar ` {..<10}" using showNat_digits [of "nat i"] by auto
  then obtain n where n: "n < 10" "CHR ''W'' = digitChar n" by auto
  have "of_char (CHR ''W'') = 48 + n" by (simp only: n(2) of_char_digitChar [OF n(1)])
  moreover have "(of_char (CHR ''W'') :: nat) = 87" by simp
  ultimately show False using n(1) by linarith
qed

lemma FormValues [simp]:
  "formValue [(''id'', u), (''termtype'', s)] ''id'' = u" "formValue [(''id'', u), (''termtype'', s)] ''termtype'' = s"
  by (simp_all add: formValue_def)

lemma loadDispatcher_run:
  assumes "fst (loadDispatcher RE order meth uid platS R) = Some a"
  shows "loadDispatcher RE order meth uid platS R = (Some a, routerStep RE (HttpRequest order meth uid platS) R)"
  using assms by (simp add: prod_eq_iff)

text \<open>Where the dispatcher sends a user.\<close>

lemma dispatched:
  assumes "router_ok RE R" "set order = ran (comets R)" "order \<noteq> []"
  obtains c where "fst (loadDispatcher RE order ''POST'' uid (showInt i) R) = Some (tcpAddr c)" "c \<in> ran (comets R)"
    "case Option.bind (lookupDoc (storeEnv RE) (store R) uid) (\<lambda>d. findComet (DocComet d) (comets R)) of
       Some own \<Rightarrow> c = own | None \<Rightarrow> least c (choices order)"
proof -
  have st: "st_wf (store R)" "loads (storeEnv RE) (store R) uid"
    using assms(1) users_ok_loads by (auto simp: router_ok_def users_ok_def)
  obtain c where c: "fst (loadDispatcher RE order ''POST'' uid (showInt i) R) = Some (tcpAddr c)"
    and home: "case Option.bind (lookupDoc (storeEnv RE) (store R) uid) (\<lambda>d. findComet (DocComet d) (comets R)) of
       Some own \<Rightarrow> c = own | None \<Rightarrow> c \<in> set order \<and> least c (choices order)"
    using dispatcher_answer [OF st assms(3), of "showInt i"] by (auto simp: showInt_not_Web)
  have "c \<in> ran (comets R)"
    using home assms(2)
    by (auto simp: findComet_def ran_def split: option.splits bind_splits)
  then show thesis using home by (intro that [OF c]) (auto split: option.splits)
qed

lemma benchStart_run:
  assumes "fst (loadDispatcher RE order ''POST'' (uaUid p) (showInt (uaPlat p)) R) = Some a"
    and "uaWorld p = (R, ws)" "uplink (registration p)"
    and "R' = routerStep RE (HttpRequest order ''POST'' (uaUid p) (showInt (uaPlat p))) R"
  shows "benchStart (routerNet RE order J W) bind p = (Inr (Some a), (uaNextTid p)\<lparr>uaWorld := (R', ws @ [(a, frame (registration p))])\<rparr>)"
proof (rule benchStart_at [where J = J and ?w1.0 = "(R', ws)"])
  have "loadDispatcher RE order ''POST'' (uaUid p) (showInt (uaPlat p)) R = (Some a, R')"
    using loadDispatcher_run [OF assms(1)] assms(4) by simp
  then show "postForm (routerNet RE order J W) [(''id'', uaUid p), (''termtype'', showInt (uaPlat p))] (uaWorld p) = (Some a, (R', ws))"
    using postForm_router [of RE order "[(''id'', uaUid p), (''termtype'', showInt (uaPlat p))]" R a R'] assms(2) by simp
qed (simp_all add: assms(3) routerNet_def)

text \<open>A router with a comet keeps the contract, whatever the loads.\<close>

definition dispatching :: "('r, 'v) renv \<Rightarrow> comet list \<Rightarrow> ('r, 'v) Router \<Rightarrow> bool" where
  "dispatching RE order R \<longleftrightarrow> redis_ok (storeEnv RE) \<and> router_ok RE R \<and> set order = ran (comets R) \<and> order \<noteq> []"

lemma dispatching_asked:
  assumes "dispatching RE order R"
  shows "dispatching RE order (routerStep RE (HttpRequest order ''POST'' uid platS) R)"
  using assms routerStep_ok(1) [of RE R "HttpRequest order ''POST'' uid platS"]
    loadDispatcher_keeps_users(2) [of RE R order "''POST''" uid platS]
  by (simp add: dispatching_def router_ok_def)

interpretation dispatcher: address_service "routerNet RE order J W" "\<lambda>w. dispatching RE order (fst w)" snd
  "tcpAddr ` set order" J
  for RE :: "('r, 'v) renv" and order J W
proof unfold_locales
  fix w :: "('r, 'v) Router \<times> (string \<times> bytes) list" and uid i
  assume d: "dispatching RE order (fst w)"
  obtain R ws where w: "w = (R, ws)" by fastforce
  have D: "router_ok RE R" "set order = ran (comets R)" "order \<noteq> []"
    using d w by (simp_all add: dispatching_def)
  obtain c where c: "fst (loadDispatcher RE order ''POST'' uid (showInt i) R) = Some (tcpAddr c)" "c \<in> ran (comets R)"
    by (rule dispatched [OF D])
  have "postForm (routerNet RE order J W) [(''id'', uid), (''termtype'', showInt i)] w =
      (Some (tcpAddr c), (routerStep RE (HttpRequest order ''POST'' uid (showInt i)) R, ws))"
    unfolding w by (rule postForm_router) (simp only: FormValues loadDispatcher_run [OF c(1)])
  then show "\<exists>a \<in> tcpAddr ` set order. \<exists>w'. dispatching RE order (fst w') \<and> snd w' = snd w \<and>
      postForm (routerNet RE order J W) [(''id'', uid), (''termtype'', showInt i)] w = (Some a, w')"
    using dispatching_asked [of RE order R uid "showInt i"] c(2) d w by (auto simp: dispatching_def)
qed (auto simp: routerNet_def)

text \<open>
  The load tool as a whole, against a router: none of its clients fails, and each has written its
  registration, and nothing else, at a comet the router knows.
\<close>

theorem load_tool_registers_everyone:
  assumes "dispatching RE order R" "length u \<le> 27" "0 \<notin> set (bytesOf u)"
  shows "\<exists>R' as. length as = MAX_SOCKET_CONNECTION \<and> set as \<subseteq> tcpAddr ` ran (comets R) \<and>
    benchMain (routerNet RE order J W) u laddr (R, []) = (Inr (), (R', registeredAt u as [0..<MAX_SOCKET_CONNECTION]))"
  using dispatcher.load_tool [of RE order "(R, [])" u J W laddr] assms by (auto simp: dispatching_def)

section \<open>What the clients write while they run\<close>

definition heartbeatOf :: "int \<Rightarrow> u32 \<Rightarrow> message" where
  "heartbeatOf en tid = MHeader ((SetEncode (SetMsgType zeroHeader MSGTYPE_HEARTBEAT) en)\<lparr>Tid := tid\<rparr>)"

lemma heartbeatOf_ok:
  assumes "0 \<le> en" "en < 4"
  shows "uplink (heartbeatOf en tid)" "delivered (heartbeatOf en tid)"
  using assms by (auto simp: heartbeatOf_def uplink_def wf_message_def codec_ok_def header_simps delivered_def)

lemma benchHeartbeat_writes:
  assumes "0 \<le> uaEncode p" "uaEncode p < 4"
  shows "benchHeartbeat (logEnv J) p =
    (Inr True, (uaNextTid p)\<lparr>uaWorld := uaWorld p @ [frame (heartbeatOf (uaEncode p) (uaTid p + 1))]\<rparr>)"
proof -
  let ?m = "heartbeatMsg (protocolLib J) (uaEncode p) (uaTid p + 1)"
  have m: "asMessage ?m = heartbeatOf (uaEncode p) (uaTid p + 1)"
    by (simp add: heartbeatMsg_def uaHead_def heartbeatOf_def)
  have "wf_message (asMessage ?m)" using heartbeatOf_ok(1) [OF assms] m by (simp add: uplink_def)
  from sends_frame [OF this, of J "uaNextTid p"] show ?thesis
    by (simp add: benchHeartbeat_def pbind_simps uaNextTid_def m)
qed

text \<open>Every tick is read by the comet as a heartbeat, with the ids one after the other.\<close>

lemma pings_are_read:
  assumes "0 \<le> uaEncode p" "uaEncode p < 4" "uaWorld p = []"
  shows "\<exists>p'. benchPingRuntime (logEnv J) n p = (Inr (), p') \<and> uaTid p' = uaTid p + of_nat n \<and>
    handleTcpConn (map Data (uaWorld p')) = (map (\<lambda>k. heartbeatOf (uaEncode p) (uaTid p + of_nat (Suc k))) [0..<n], ReadFailed)"
proof -
  have "\<exists>p'. pforeach is (\<lambda>_. pbind (benchHeartbeat (logEnv J)) (\<lambda>_. pret ())) p = (Inr (), p') \<and>
      uaTid p' = uaTid p + of_nat (length is) \<and>
      uaWorld p' = uaWorld p @ map (\<lambda>k. frame (heartbeatOf (uaEncode p) (uaTid p + of_nat (Suc k)))) [0..<length is]"
    if "0 \<le> uaEncode p" "uaEncode p < 4" for "is" :: "nat list" and p :: "bytes list UA"
    using that
  proof (induction "is" arbitrary: p)
    case (Cons i "is")
    let ?p = "(uaNextTid p)\<lparr>uaWorld := uaWorld p @ [frame (heartbeatOf (uaEncode p) (uaTid p + 1))]\<rparr>"
    have "uaEncode ?p = uaEncode p" by (simp add: uaNextTid_def)
    with Cons.prems have "0 \<le> uaEncode ?p" "uaEncode ?p < 4" by simp_all
    from Cons.IH [OF this] obtain p' where p':
      "pforeach is (\<lambda>_. pbind (benchHeartbeat (logEnv J)) (\<lambda>_. pret ())) ?p = (Inr (), p')"
      "uaTid p' = uaTid ?p + of_nat (length is)"
      "uaWorld p' = uaWorld ?p @ map (\<lambda>k. frame (heartbeatOf (uaEncode ?p) (uaTid ?p + of_nat (Suc k)))) [0..<length is]"
      by blast
    have "pforeach (i # is) (\<lambda>_. pbind (benchHeartbeat (logEnv J)) (\<lambda>_. pret ())) p = (Inr (), p')"
      using benchHeartbeat_writes [OF Cons.prems, of J] p'(1) by (simp add: pbind_simps)
    moreover have "uaWorld p' = uaWorld p @
        map (\<lambda>k. frame (heartbeatOf (uaEncode p) (uaTid p + of_nat (Suc k)))) [0..<length (i # is)]"
      by (simp add: p'(3) map_upt_Suc uaNextTid_def add.assoc del: upt_Suc)
    moreover have "uaTid p' = uaTid p + of_nat (length (i # is))" by (simp add: p'(2) uaNextTid_def)
    ultimately show ?case by blast
  qed (simp add: pret_def)
  from this [OF assms(1,2), of "[0..<n]"] obtain p' where p': "benchPingRuntime (logEnv J) n p = (Inr (), p')"
    "uaTid p' = uaTid p + of_nat n"
    "uaWorld p' = map (\<lambda>k. frame (heartbeatOf (uaEncode p) (uaTid p + of_nat (Suc k)))) [0..<n]"
    using assms(3) by (auto simp: benchPingRuntime_def)
  have "handleTcpConn (map Data (uaWorld p')) = (map (\<lambda>k. heartbeatOf (uaEncode p) (uaTid p + of_nat (Suc k))) [0..<n], ReadFailed)"
    using frames_read [of "map (\<lambda>k. heartbeatOf (uaEncode p) (uaTid p + of_nat (Suc k))) [0..<n]"] heartbeatOf_ok [OF assms(1,2)]
    by (simp add: p'(3) comp_def)
  with p'(1,2) show ?thesis by blast
qed

section \<open>Properties\<close>

text \<open>C34: a client that starts, against a router that has handled any inputs: the dispatcher sends it
  to the comet its user is attached to, if that is registered, and otherwise to one that the
  balancer has left to choose from, of least load among those; if no comet is idle these are all
  comets. All the client does there is to write one frame, which the comet's read loop reads as
  one message; and the comet that handles it knows the client afterwards exactly if the client's
  code is the one the latest login of its user left with the router.\<close>

theorem client_joins_end_to_end:
  fixes RE :: "('r, 'v) renv" and C :: "('r, ('r, 'v) Router \<times> rpcRequest list) Comet"
  assumes "redis_ok (storeEnv RE)" "router_ok RE R0" "\<forall>i \<in> set is. asciiInput RE i" "R = runRouter RE is R0"
    and "set order = ran (comets R)" "order \<noteq> []"
    and "fits (uaUid p)" "fits (uaToken p)" "0 \<le> uaEncode p" "uaEncode p < 4" "uaWorld p = (R, [])"
    and "cTrans E = routerTransport RE" "findId (connString sock) C = []"
  shows "\<exists>c R' m b p'. benchStart (routerNet RE order J W) bind p = (Inr (Some (tcpAddr c)), p') \<and>
    c \<in> ran (comets R) \<and>
    (case Option.bind (lookupDoc (storeEnv RE) (store R) (uaUid p)) (\<lambda>d. findComet (DocComet d) (comets R)) of
       Some own \<Rightarrow> c = own
     | None \<Rightarrow> least c (choices order) \<and>
         ((\<forall>c' \<in> ran (comets R). online c' \<noteq> 0) \<longrightarrow> (\<forall>c' \<in> ran (comets R). online c \<le> online c'))) \<and>
    uaWorld p' = (R', [(tcpAddr c, b)]) \<and> handleTcpConn [Data b] = ([m], ReadFailed) \<and>
    findId (connString sock) (onClient E sock m (C\<lparr>cworld := (R', q)\<rparr>)) =
      (if fold absLogin (loginsOf RE (topics R0) (uaUid p) is) (codes RE R0 (uaUid p)) PLAT_ANDROID = Some (uaToken p)
       then idf (uaUid p) PLAT_ANDROID else [])"
proof -
  let ?plat = "showInt (uaPlat p)"
  let ?ask = "HttpRequest order ''POST'' (uaUid p) ?plat"
  let ?R' = "routerStep RE ?ask R"
  have "router_ok RE R" using runRouter_ok [OF assms(1-3)] assms(4) by simp
  then obtain c where c: "fst (loadDispatcher RE order ''POST'' (uaUid p) ?plat R) = Some (tcpAddr c)"
    and where_: "c \<in> ran (comets R)"
    "case Option.bind (lookupDoc (storeEnv RE) (store R) (uaUid p)) (\<lambda>d. findComet (DocComet d) (comets R)) of
       Some own \<Rightarrow> c = own | None \<Rightarrow> least c (choices order)"
    by (rule dispatched [OF _ assms(5,6)])
  have all: "\<forall>c' \<in> ran (comets R). online c \<le> online c'"
    if "least c (choices order)" "\<forall>c' \<in> ran (comets R). online c' \<noteq> 0"
    using that choices_all [of order] assms(5) by (simp add: least_def)
  note up = registration_ok [OF assms(7-10)]
  have run: "benchStart (routerNet RE order J W) bind p =
      (Inr (Some (tcpAddr c)), (uaNextTid p)\<lparr>uaWorld := (?R', [(tcpAddr c, frame (registration p))])\<rparr>)"
    using benchStart_run [OF c assms(11) up(1) refl] by simp
  have read: "handleTcpConn [Data (frame (registration p))] = ([registration p], ReadFailed)"
    using frames_read [of "[registration p]"] up by simp
  let ?C = "C\<lparr>cworld := (?R', q)\<rparr>"
  have C: "cworld ?C = (runRouter RE (is @ [?ask]) R0, q)" "findId (connString sock) ?C = []"
    "\<forall>i \<in> set (is @ [?ask]). asciiInput RE i" "loginsOf RE ts u (is @ [?ask]) = loginsOf RE ts u is" for ts u
    using assms(3,4,13) by (simp_all add: runRouter_def findId_def loginsOf_def List.map_filter_def)
  from registered_after_history [OF assms(1,2) C(3) assms(12) C(1,2) assms(7,8)] C(4)
  have "findId (connString sock) (onClient E sock (registration p) ?C) =
      (if fold absLogin (loginsOf RE (topics R0) (uaUid p) is) (codes RE R0 (uaUid p)) PLAT_ANDROID = Some (uaToken p)
       then idf (uaUid p) PLAT_ANDROID else [])" by simp
  with run where_ read show ?thesis
    by (intro exI conjI) (assumption | simp split: option.splits add: all)+
qed

definition exDialUA :: "((redis, (nat \<times> rpcRequest) list) Router \<times> (string \<times> bytes) list) UA" where
  "exDialUA = \<lparr>uaUid = ''u'', uaPlat = 1, uaToken = ''old'', uaEncode = 3, uaTid = 0, uaPings = 0,
     uaExited = False, uaWorld = (exRouter, [])\<rparr>"

lemma exDialUA_simps [simp]: "uaUid exDialUA = ''u''" "uaToken exDialUA = ''old''" "uaEncode exDialUA = 3"
  "uaWorld exDialUA = (exRouter, [])" "fits ''u''" "fits ''old''"
  by (simp_all add: exDialUA_def fits_def bytesOf_def)

theorem client_joins_end_to_end_witness:
  "\<exists>R' m b p'. benchStart (routerNet exEnv [exComet ''c1'' 7 2] (oneTextLib (JObj [])) exampleWebLib) ''0'' exDialUA =
      (Inr (Some (tcpAddr (exComet ''c1'' 7 2))), p') \<and>
    uaWorld p' = (R', [(tcpAddr (exComet ''c1'' 7 2), b)]) \<and> handleTcpConn [Data b] = ([m], ReadFailed) \<and>
    findId ''z'' (onClient exSysEnv (TCPConn 9 ''z'') m ((exSysComet [])\<lparr>cworld := (R', [])\<rparr>)) = idf ''u'' 1"
proof -
  have redis: "redis_ok (storeEnv exEnv)" using mapEnv_ok by simp
  have run: "\<forall>i \<in> set []. asciiInput exEnv i" "exRouter = runRouter exEnv [] exRouter" by (simp_all add: runRouter_def)
  have comets: "set [exComet ''c1'' 7 2] = ran (comets exRouter)" "[exComet ''c1'' 7 2] \<noteq> []" by (simp_all add: exComet_def)
  have ua: "fits (uaUid exDialUA)" "fits (uaToken exDialUA)" "0 \<le> uaEncode exDialUA" "uaEncode exDialUA < 4"
    "uaWorld exDialUA = (exRouter, [])" by simp_all
  have sys: "cTrans exSysEnv = routerTransport exEnv" "findId (connString (TCPConn 9 ''z'')) (exSysComet []) = []"
    by (simp_all add: exSysEnv_def exSysComet_def newComet_def findId_def)
  have code: "fold absLogin (loginsOf exEnv (topics exRouter) ''u'' []) (codes exEnv exRouter ''u'') PLAT_ANDROID = Some ''old''"
    by (simp add: loginsOf_def List.map_filter_def codes_exRouter logged_def docPlat_def)
  from client_joins_end_to_end [OF redis exRouter_ok run comets ua sys, of "oneTextLib (JObj [])" exampleWebLib "''0''" "[]",
      unfolded exDialUA_simps code]
  show ?thesis by (auto simp: lookupDoc_exSt findComet_def)
qed

end
