(* ===== verification/Producer.thy ===== *)
theory Producer
  imports RouterInv Format
begin

text \<open>
  \<^verbatim>\<open>src/pushProducer/pushProducer.go\<close>: the program that puts test messages into the queue over
  HTTP. \<^verbatim>\<open>http.Post\<close> is a parameter: it fails (\<open>None\<close>) or gives a response whose body can be read
  (\<open>Some\<close>) or not.
\<close>

section \<open>The program\<close>

type_synonym 'w post = "string \<Rightarrow> string \<Rightarrow> bytes \<Rightarrow> 'w \<Rightarrow> bytes option option \<times> 'w"

definition RUNTIME_NUM :: nat where "RUNTIME_NUM = 1"

definition MSG_NUM :: nat where "MSG_NUM = 1"

definition putUrl :: string where
  "putUrl = ''http://192.168.1.63:4151/put?topic=push''"

definition testMessage :: "nat \<Rightarrow> bytes" where
  "testMessage i = bytesOf (''i am a push msg with id='' @ showInt (int i))"

text \<open>
  A post that fails leaves \<^verbatim>\<open>resp\<close> nil, and \<^verbatim>\<open>defer resp.Body.Close()\<close> panics on it; a body that
  cannot be read is only printed.
\<close>

definition putTest :: "'w post \<Rightarrow> nat \<Rightarrow> ('w, unit) pcd" where
  "putTest P i w =
     (let (resp, w) = P putUrl ''text/plain'' (testMessage i) w
      in case resp of None \<Rightarrow> (Inl NilDeref, w) | Some b \<Rightarrow> (Inr (), w))"

definition pushTest :: "'w post \<Rightarrow> ('w, unit) pcd" where
  "pushTest P = pforeach [0..<MSG_NUM] (putTest P)"

text \<open>The goroutines one after the other; \<^verbatim>\<open>main\<close> waits for all of them.\<close>

definition producerMain :: "'w post \<Rightarrow> ('w, unit) pcd" where
  "producerMain P = pforeach [0..<RUNTIME_NUM] (\<lambda>_. pushTest P)"

section \<open>What becomes of the messages\<close>

text \<open>The queue in front of a router: what is put into the topic is handed to its consumer.\<close>

definition queuePost :: "('r, 'w) renv \<Rightarrow> ('r, 'w) Router post" where
  "queuePost E url ctype b R = (Some (Some []), if url = putUrl then routerStep E (QueueMessage ''push'' b) R else R)"

text \<open>No JSON text begins with the letter i.\<close>

definition json_parsers :: "('r, 'w) renv \<Rightarrow> bool" where
  "json_parsers E \<longleftrightarrow> (\<forall>b. unOnline E (105 # b) = None \<and> unTimeout E (105 # b) = None \<and> unDown E (105 # b) = None)"

lemma testMessage_Cons: "\<exists>xs. testMessage i = 105 # 32 # xs"
  by (simp add: testMessage_def bytesOf_def)

lemma bad_second: "dec6 q = None \<Longrightarrow> decodeQuads (p # q # xs) = None"
  by (cases "p # q # xs" rule: decodeQuads.cases) (auto split: option.splits)

lemma testMessage_no_base64: "DecodeString (testMessage i) = None"
proof -
  obtain xs where "testMessage i = 105 # 32 # xs" using testMessage_Cons by blast
  moreover have "dec6 32 = None" by (simp add: dec6_def)
  ultimately show ?thesis
    by (simp add: DecodeString_def bad_second)
qed

text \<open>The test messages are no JSON, so the router drops them all.\<close>

theorem producer_is_ignored:
  assumes "json_parsers E"
  shows "snd (producerMain (queuePost E) R) = R"
proof -
  have "routerStep E (QueueMessage ''push'' (testMessage i)) R = R" for i
  proof -
    obtain xs where "testMessage i = 105 # xs" using testMessage_Cons by blast
    then show ?thesis
      using assms testMessage_no_base64 [of i]
      by (simp add: onNsq_def HandleMessage_def NsqHandler_def json_parsers_def Let_def)
  qed
  then show ?thesis
    by (simp add: producerMain_def pushTest_def RUNTIME_NUM_def MSG_NUM_def putTest_def queuePost_def pbind_def pret_def)
qed

text \<open>A queue that cannot be reached crashes the program at its first message.\<close>

theorem producer_panics:
  assumes "\<And>url ctype b. P url ctype b w = (None, w)"
  shows "producerMain P w = (Inl NilDeref, w)"
  by (simp add: producerMain_def pushTest_def RUNTIME_NUM_def MSG_NUM_def putTest_def assms pbind_def)

end
