(* ===== verification/EarlyAck.thy ===== *)
theory EarlyAck
  imports CometProps
begin

text \<open>
  A send taken apart. \<open>sendTracked\<close> is one step everywhere else; here it is the three stretches
  between which the goroutine of the client's messages can run: the write, remembering the
  transaction, and arming its timer (\<^verbatim>\<open>src/comet/rpcdo.go\<close>, the same lines in \<^verbatim>\<open>push\<close>,
  \<^verbatim>\<open>callback\<close>, \<^verbatim>\<open>message\<close> and \<^verbatim>\<open>ProcOfflineMsg\<close>).
\<close>

section \<open>The statements of a send\<close>

definition sendWrite :: "('r, 'w) cenv \<Rightarrow> ref \<Rightarrow> (int \<Rightarrow> message) \<Rightarrow> int \<Rightarrow> (('r, 'w) Comet, int \<times> bool) pcd" where
  "sendWrite E s mk ptlType =
     pbind (nextTid s) (\<lambda>tid.
     pbind (plift (Pack (jlib E) (mk tid) ptlType)) (\<lambda>buf.
     pbind (pget (\<lambda>C. ses_conn (sesObj C s))) (\<lambda>c.
     pbind (writeConn E c buf) (\<lambda>ok. pret (tid, ok)))))"

definition trackNew :: "ref \<Rightarrow> int \<Rightarrow> int \<Rightarrow> bytes \<Rightarrow> (('r, 'w) Comet, ref) pcd" where
  "trackNew s tid msgType body =
     pbind (newTransaction tid msgType body) (\<lambda>t. pbind (pmod (saveTransaction s t)) (\<lambda>_. pret t))"

lemma sendTracked_split:
  "sendTracked E s msgType mk body ptlType =
     pbind (sendWrite E s mk ptlType) (\<lambda>(tid, ok).
       if \<not> ok then pret False
       else pbind (trackNew s tid msgType body) (\<lambda>t. pbind (pmod (checkTrans s t)) (\<lambda>_. pret True)))"
  by (rule ext) (auto simp: sendTracked_def sendWrite_def trackNew_def pbind_def pmod_def split: prod.splits sum.splits)

lemma sendWrite_frame:
  assumes "sendWrite E s mk ptl C = (Inr (tid, ok), C1)"
  shows "tid = bumpTid (ses_tid (sesObj C s))" "ids C1 = ids C" "sessions C1 = sessions C" "trObj C1 = trObj C"
    "ses_trans (sesObj C1 s) = ses_trans (sesObj C s)" "freshRef C1 = freshRef C" "cstore C1 = cstore C"
proof -
  let ?N = "modSes s (\<lambda>v. v\<lparr>ses_tid := bumpTid (ses_tid (sesObj C s))\<rparr>) C"
  have nx: "nextTid s C = (Inr (bumpTid (ses_tid (sesObj C s))), ?N)" by (simp add: nextTid_def Let_def)
  obtain buf where buf: "Pack (jlib E) (mk (bumpTid (ses_tid (sesObj C s)))) ptl = Inr buf"
    using assms nx by (cases "Pack (jlib E) (mk (bumpTid (ses_tid (sesObj C s)))) ptl") (simp_all add: sendWrite_def pbind_simps)
  obtain ok' w where "writeConn E (ses_conn (sesObj ?N s)) buf ?N = (Inr ok', ?N\<lparr>cworld := w\<rparr>)"
    using writeConn_world [of E "ses_conn (sesObj ?N s)" buf ?N] by blast
  then have C1: "tid = bumpTid (ses_tid (sesObj C s))" "C1 = ?N\<lparr>cworld := w\<rparr>"
    using assms buf nx by (auto simp: sendWrite_def pbind_simps)
  show "tid = bumpTid (ses_tid (sesObj C s))" by (rule C1(1))
  show "ids C1 = ids C" "sessions C1 = sessions C" "trObj C1 = trObj C"
    "ses_trans (sesObj C1 s) = ses_trans (sesObj C s)" "freshRef C1 = freshRef C" "cstore C1 = cstore C"
    unfolding C1(2) by (simp_all add: modSes_def)
qed

text \<open>C30: An acknowledgement that is handled while its message is still being booked is lost: after the
  write and before the transaction is remembered it is ignored, between that and the arming of
  the timer it panics on the missing timer. Either way the state is as if it had not come, and
  the goroutine, left alone, ends in one way, having stored the message that the client has.\<close>

theorem early_ack_is_lost:
  assumes "trans_inv C" "mt \<in> {MSGTYPE_PUSH, MSGTYPE_CALLBACK, MSGTYPE_MESSAGE}"
    and "findSessions (findId (connString c) C) C = Some s" "getTrans s (bumpTid (ses_tid (sesObj C s))) C = None"
    and "sendWrite E s mk ptl C = (Inr (uint (Tid h), True), C1)" "trackNew s (uint (Tid h)) mt body C1 = (Inr t, C2)"
  shows "procResp E c h C1 = (Inr (), C1) \<and> procResp E c h C2 = (Inl NilDeref, C2) \<and>
    sendTracked E s mt mk body ptl C = (Inr True, checkTrans s t C2) \<and>
    (\<exists>X. (\<forall>Y. (gosteps E t (checkTrans s t C2) Y \<and> resting (trObj Y t)) = (Y = X)) \<and> trPc (trObj X t) = Done \<and>
      cstore X = storedFor (cStore E) mt (ses_id (sesObj C s)) (ses_plat (sesObj C s)) body (cstore C))"
proof -
  note W = sendWrite_frame [OF assms(5)]
  have C2: "t = freshRef C" "C2 = saveTransaction s t (snd (newTransaction (uint (Tid h)) mt body C1))"
    using assms(6) W(6) by (auto simp: trackNew_def newTransaction_def pbind_def pmod_def)
  have sent: "sendTracked E s mt mk body ptl C = (Inr True, checkTrans s t C2)"
    using assms(5,6) by (simp add: sendTracked_split pbind_simps)
  note S = sendTracked_cases [OF assms(1,4) sent]
  let ?D = "checkTrans s t C2"
  have w: "watched ?D s t" using S C2(1) by simp
  have "getTrans s (uint (Tid h)) C1 = None" using assms(4) W by (simp add: getTrans_def)
  then have "procResp E c h C1 = (Inr (), C1)"
    using assms(3) W by (simp add: procResp_def findId_def findSessions_def)
  moreover have "getTrans s (uint (Tid h)) C2 = Some t" "trTimer (trObj C2 t) = NoTimer"
    using assms(1,4) W trans_invD(1) [OF assms(1)]
    by (auto simp: getTrans_def find_None_iff C2 saveTransaction_def newTransaction_def modSes_def zeroTrans_def find_append
        split: option.splits dest!: find_Some_set) 
  then have "procResp E c h C2 = (Inl NilDeref, C2)"
    using assms(3) W C2 by (simp add: procResp_def findId_def findSessions_def stopTrans_def saveTransaction_def newTransaction_def modSes_def pbind_def)
  moreover have "cstore (keepOffline E (sesObj ?D s) (trObj ?D t) ?D) =
      storedFor (cStore E) mt (ses_id (sesObj C s)) (ses_plat (sesObj C s)) body (cstore C)"
    using S C2(1) by (subst keepOffline_storedFor [OF assms(2)]) simp_all
  ultimately show ?thesis using sent timeout_run [OF w, of E] by auto
qed


theorem early_ack_is_lost_witness:
  "\<exists>C1 C2 X. sendWrite exCenv 1 (pushMessage 0 0 False [9]) (ptlOf 1) exC = (Inr (2, True), C1) \<and>
     trackNew 1 2 MSGTYPE_PUSH [9] C1 = (Inr 3, C2) \<and>
     procResp exCenv (TCPConn 1 ''a'') (zeroHeader\<lparr>Tid := 2\<rparr>) C1 = (Inr (), C1) \<and>
     gosteps exCenv 3 (checkTrans 1 3 C2) X \<and> cstore X = SavePushMsg mapEnv ''u'' 1 [9] exSt"
proof -
  let ?N = "modSes 1 (\<lambda>v. v\<lparr>ses_tid := 2\<rparr>) exC" and ?h = "zeroHeader\<lparr>Tid := 2\<rparr>"
  have wf: "wf_message (pushMessage 0 0 False [9] 2)"
    by (simp add: wf_message_def pushMessage_def codec_ok_def mkHeader_def)
  obtain b where "Pack (jlib exCenv) (pushMessage 0 0 False [9] 2) (ptlOf 1) = Inr b"
    using packBinary_frame [OF wf] by (auto simp: Pack_def ptlOf_def pushMessage_def)
  moreover have "writeConn exCenv (TCPConn 1 ''a'') b C = (Inr True, C\<lparr>cworld := cworld C @ [Wrote (TCPConn 1 ''a'') b]\<rparr>)" for C
    by (simp add: exCenv_def)
  moreover have "nextTid 1 exC = (Inr 2, ?N)" by (simp add: nextTid_def exSes_def bumpTid_def MaxUint32_def)
  ultimately have W: "sendWrite exCenv 1 (pushMessage 0 0 False [9]) (ptlOf 1) exC =
      (Inr (uint (Tid ?h), True), ?N\<lparr>cworld := cworld ?N @ [Wrote (TCPConn 1 ''a'') b]\<rparr>)" (is "_ = (_, ?C1)")
    by (simp add: sendWrite_def pbind_simps modSes_def exSes_def del: One_nat_def writeConn.simps)
  obtain C2 where T: "trackNew 1 (uint (Tid ?h)) MSGTYPE_PUSH [9] ?C1 = (Inr 3, C2)"
    by (simp add: trackNew_def newTransaction_def pbind_simps modSes_def)
  have "findSessions (findId (connString (TCPConn 1 ''a'')) exC) exC = Some 1"
    "getTrans 1 (bumpTid (ses_tid (sesObj exC 1))) exC = None"
    by (simp_all add: findSessions_def findId_def exSes_def getTrans_def exTrans_def bumpTid_def MaxUint32_def)
  from early_ack_is_lost [OF exC_trans_inv _ this W T]
  have P: "procResp exCenv (TCPConn 1 ''a'') ?h ?C1 = (Inr (), ?C1)"
    "\<exists>X. gosteps exCenv 3 (checkTrans 1 3 C2) X \<and> cstore X = storedFor mapEnv MSGTYPE_PUSH ''u'' 1 [9] exSt"
    by (auto simp: exSes_def exCenv_def)
  then show ?thesis using W T by (auto simp: storedFor_def)
qed

end
