(* ===== verification/Link.thy ===== *)
theory Link
  imports Rpc
begin

text \<open>
  The link of the comet to the router: the state channel of the RPC client, the heartbeat
  goroutine (\<^verbatim>\<open>StartPing\<close> of \<^verbatim>\<open>src/internal/rpc/client.go\<close>) and the loop that reads the
  channel (\<^verbatim>\<open>checkRpc\<close> of \<^verbatim>\<open>src/comet/comet.go\<close>). The channel has room for one value, and a
  goroutine that sends to it while it is full is blocked.
\<close>

section \<open>The link\<close>

text \<open>
  \<open>cli\<close> holds the channel (its \<open>status\<close>), \<open>pingers\<close> counts the heartbeat goroutines that run,
  \<open>alive\<close> says whether the loop of \<^verbatim>\<open>checkRpc\<close> has not returned.
\<close>

record 'w link =
  cli :: RpcClient
  pingers :: nat
  alive :: bool
  lworld :: 'w

text \<open>What the comet registers with: its id and the three addresses of the configuration.\<close>

record identity =
  myId :: string
  myTcp :: string
  myWs :: string
  myRpc :: string

text \<open>\<^verbatim>\<open>checkRpc\<close>, the body for one received value; a failed registration is only logged.\<close>

definition cometCheckRpc :: "'w transport \<Rightarrow> identity \<Rightarrow> int \<Rightarrow> 'w link \<Rightarrow> 'w link" where
  "cometCheckRpc t me i L =
     (if i = 0 then
        (case ReConnect t (cli L) (lworld L) of
           (Inl err, w) \<Rightarrow> L\<lparr>alive := False, lworld := w\<rparr>
         | (Inr c, w) \<Rightarrow> L\<lparr>cli := c, lworld := w\<rparr>)
      else if i = 1 then
        (let (err, w) = Register t (cli L) (myId me) (myTcp me) (myWs me) (myRpc me) (lworld L)
         in L\<lparr>pingers := pingers L + 1, lworld := w\<rparr>)
      else L)"

definition chanRoom :: nat where "chanRoom = 1"

inductive linkstep :: "'w transport \<Rightarrow> identity \<Rightarrow> 'w link \<Rightarrow> 'w link \<Rightarrow> bool"
  for t :: "'w transport" and me :: identity where
  ping_ok: "pingers L > 0 \<Longrightarrow> pingTick t (cli L) (lworld L) = ((True, c), w) \<Longrightarrow>
     linkstep t me L (L\<lparr>cli := c, lworld := w\<rparr>)"
| ping_failed: "pingers L > 0 \<Longrightarrow> pingTick t (cli L) (lworld L) = ((False, c), w) \<Longrightarrow>
     length (status (cli L)) < chanRoom \<Longrightarrow>
     linkstep t me L (L\<lparr>cli := c, pingers := pingers L - 1, lworld := w\<rparr>)"
| receive: "alive L \<Longrightarrow> status (cli L) = i # rest \<Longrightarrow>
     linkstep t me L (cometCheckRpc t me i (L\<lparr>cli := (cli L)\<lparr>status := rest\<rparr>\<rparr>))"

inductive_cases linkstepE: "linkstep t me L L'"

text \<open>The link begins when the comet has dialled the router, as \<^verbatim>\<open>Start\<close> does with an empty name.\<close>

inductive linkreach :: "'w transport \<Rightarrow> identity \<Rightarrow> 'w link \<Rightarrow> bool"
  for t :: "'w transport" and me :: identity where
  start: "NewRpcClient t [] addr [] w = (Inr c, w') \<Longrightarrow>
     linkreach t me \<lparr>cli = c, pingers = 0, alive = True, lworld = w'\<rparr>"
| step: "linkreach t me L \<Longrightarrow> linkstep t me L L' \<Longrightarrow> linkreach t me L'"

section \<open>One token\<close>

text \<open>
  A value in the channel and a running heartbeat are one and the same token: each is turned
  into the other, and it is gone when a reconnection has failed.
\<close>

definition token :: "'w link \<Rightarrow> bool" where
  "token L \<longleftrightarrow> length (status (cli L)) + pingers L = (if alive L then 1 else 0) \<and>
     set (status (cli L)) \<subseteq> {0, 1}"

lemma pingTick_status:
  "pingTick t p w = ((ok, c), w') \<Longrightarrow> status c = (if ok then status p else status p @ [0])"
  by (auto simp: pingTick_def split: prod.splits option.splits)

lemma ReConnect_status:
  "ReConnect t p w = (Inr c, w') \<Longrightarrow> status c = status p @ [1]"
  by (auto simp: ReConnect_def connect_def split: prod.splits sum.splits option.splits)

lemma token_start: "NewRpcClient t cid addr [] w = (Inr c, w') \<Longrightarrow>
    token \<lparr>cli = c, pingers = 0, alive = True, lworld = w'\<rparr>"
  by (auto simp: NewRpcClient_def token_def split: option.splits prod.splits)

lemma token_step:
  assumes "linkstep t me L L'" "token L"
  shows "token L'"
  using assms(1)
proof cases
  case (ping_ok c w)
  then show ?thesis using assms(2) pingTick_status [OF ping_ok(3)] by (simp add: token_def)
next
  case (ping_failed c w)
  then show ?thesis using assms(2) pingTick_status [OF ping_failed(3)]
    by (auto simp: token_def chanRoom_def split: if_splits)
next
  case (receive i rest)
  then have tok: "rest = []" "pingers L = 0" "i = 0 \<or> i = 1" using assms(2) by (auto simp: token_def)
  let ?c = "(cli L)\<lparr>status := rest\<rparr>"
  obtain r w where re: "ReConnect t ?c (lworld L) = (r, w)" by fastforce
  show ?thesis
  proof (cases r)
    case (Inr c)
    then show ?thesis using receive tok re ReConnect_status [of t ?c "lworld L" c w]
      by (auto simp: cometCheckRpc_def token_def split: prod.split)
  qed (use receive tok re in \<open>auto simp: cometCheckRpc_def token_def split: prod.split\<close>)
qed

lemma linkreach_token: "linkreach t me L \<Longrightarrow> token L"
  by (induction rule: linkreach.induct) (auto intro: token_start token_step)

lemma token_moves:
  assumes "token L"
  shows "(\<exists>L'. linkstep t me L L') \<longleftrightarrow> alive L"
proof
  assume "\<exists>L'. linkstep t me L L'"
  then obtain L' where "linkstep t me L L'" by blast
  then show "alive L" using assms by cases (auto simp: token_def split: if_splits)
next
  assume alive: "alive L"
  show "\<exists>L'. linkstep t me L L'"
  proof (cases "status (cli L)")
    case Nil
    then have p: "pingers L > 0" "length (status (cli L)) < chanRoom"
      using assms alive by (auto simp: token_def chanRoom_def)
    obtain ok c w where tick: "pingTick t (cli L) (lworld L) = ((ok, c), w)" by (metis prod.exhaust)
    show ?thesis
    proof (cases ok)
      case True
      then show ?thesis using linkstep.ping_ok [OF p(1), of t c w me] tick by auto
    next
      case False
      then show ?thesis using linkstep.ping_failed [OF p(1) _ p(2), of t c w me] tick by auto
    qed
  next
    case (Cons i rest)
    then show ?thesis using linkstep.receive [OF alive] by blast
  qed
qed

text \<open>C37: the link of the comet to the router never blocks and never runs twice: at every moment there is
  either one value in the state channel or one heartbeat, so the channel of capacity one is
  empty whenever a goroutine sends to it and something can always happen; the exception is a
  reconnection that failed once, after which nothing pings, reconnects or registers any more.\<close>

theorem link_keeps_one_token:
  assumes "linkreach t me L"
  shows "length (status (cli L)) + pingers L = (if alive L then 1 else 0) \<and>
    ((\<exists>L'. linkstep t me L L') \<longleftrightarrow> alive L)"
  using linkreach_token [OF assms] token_moves by (auto simp: token_def)

text \<open>A router that can be dialled once and answers nothing.\<close>

definition deadRouter :: "bool transport" where
  "deadRouter = \<lparr>dial = (\<lambda>addr up. (if up then Some 1 else None, False)), call = (\<lambda>h m req up. (None, up)),
     hangup = (\<lambda>h up. up)\<rparr>"

definition exIdentity :: identity where
  "exIdentity = \<lparr>myId = ''1001'', myTcp = ''t'', myWs = ''w'', myRpc = ''r''\<rparr>"

definition exLink :: "int list \<Rightarrow> nat \<Rightarrow> bool \<Rightarrow> bool link" where
  "exLink st n up = \<lparr>cli = \<lparr>clientId = [], serverAddr = ''addr'', conn = 1, status = st\<rparr>, pingers = n, alive = up,
     lworld = False\<rparr>"

lemma exLink_lost: "linkreach deadRouter exIdentity (exLink [] 0 False)"
proof -
  have "NewRpcClient deadRouter [] ''addr'' [] True = (Inr (cli (exLink [1] 0 True)), False)"
    by (simp add: NewRpcClient_def deadRouter_def exLink_def)
  from linkreach.start [OF this] have "linkreach deadRouter exIdentity (exLink [1] 0 True)"
    by (simp add: exLink_def)
  moreover have "linkstep deadRouter exIdentity (exLink [1] 0 True) (exLink [] 1 True)"
    using linkstep.receive [of "exLink [1] 0 True" 1 "[]" deadRouter exIdentity]
    by (simp add: exLink_def cometCheckRpc_def Register_def callChecked_def deadRouter_def)
  moreover have "linkstep deadRouter exIdentity (exLink [] 1 True) (exLink [0] 0 True)"
    using linkstep.ping_failed [of "exLink [] 1 True" deadRouter "cli (exLink [0] 0 True)" False exIdentity]
    by (simp add: exLink_def pingTick_def PingPeer_def callChecked_def deadRouter_def chanRoom_def)
  moreover have "linkstep deadRouter exIdentity (exLink [0] 0 True) (exLink [] 0 False)"
    using linkstep.receive [of "exLink [0] 0 True" 0 "[]" deadRouter exIdentity]
    by (simp add: exLink_def cometCheckRpc_def ReConnect_def connect_def deadRouter_def)
  ultimately show ?thesis by (meson linkreach.step)
qed

theorem link_keeps_one_token_witness:
  "\<not> (\<exists>L'. linkstep deadRouter exIdentity (exLink [] 0 False) L')"
  using link_keeps_one_token [OF exLink_lost] by (simp add: exLink_def)

end
