(* ===== verification/Config.thy ===== *)
theory Config
  imports Router CometInv
begin

text \<open>
  How the processes are set up: \<^verbatim>\<open>Init\<close> of comet and router (\<^verbatim>\<open>src/comet/comet.go\<close>,
  \<^verbatim>\<open>src/router/router.go\<close>) read the configuration, and the topic discoverer of
  \<^verbatim>\<open>src/internal/nsq/nsq.go\<close> makes one dispatcher per configured topic. The file parser is
  a parameter: \<open>conf section key\<close> is the text of a key. The file names of redis and its
  password only go to the redis client, which is outside the model.
\<close>

section \<open>Strings\<close>

definition digitVal :: "char \<Rightarrow> nat option" where
  "digitVal c = (let n = of_char c in if 48 \<le> n \<and> n \<le> 57 then Some (n - 48) else None)"

fun digitsVal :: "string \<Rightarrow> nat \<Rightarrow> nat option" where
  "digitsVal [] acc = Some acc"
| "digitsVal (c # cs) acc =
     (case digitVal c of None \<Rightarrow> None | Some d \<Rightarrow> digitsVal cs (10 * acc + d))"

text \<open>
  \<^verbatim>\<open>strconv.Atoi\<close> returns a value beside its error (\<open>True\<close> is the nil error): 0 for a text that is
  no number, the nearest 64 bit integer for one that is out of range.
\<close>

definition Atoi :: "string \<Rightarrow> int \<times> bool" where
  "Atoi s =
     (let neg = (s \<noteq> [] \<and> hd s = CHR ''-'');
          body = (if s \<noteq> [] \<and> hd s \<in> {CHR ''-'', CHR ''+''} then tl s else s)
      in if body = [] then (0, False)
         else (case digitsVal body 0 of None \<Rightarrow> (0, False)
               | Some n \<Rightarrow>
                   (let i = if neg then - int n else int n
                    in if i < - (2 ^ 63) then (- (2 ^ 63), False)
                       else if i > 2 ^ 63 - 1 then (2 ^ 63 - 1, False) else (i, True))))"

text \<open>\<^verbatim>\<open>strings.Split\<close> at a separator of one character.\<close>

fun splitOn :: "char \<Rightarrow> string \<Rightarrow> string list" where
  "splitOn c [] = [[]]"
| "splitOn c (x # xs) = (if x = c then [] # splitOn c xs else (x # hd (splitOn c xs)) # tl (splitOn c xs))"

lemma splitOn_length: "length (splitOn c s) = Suc (count_list s c)"
  by (induction s) auto

lemma splitOn_join:
  assumes "\<forall>x \<in> set xs. c \<notin> set x" "c \<notin> set x"
  shows "splitOn c (x @ concat (map (\<lambda>y. c # y) xs)) = x # xs"
  using assms
proof (induction xs arbitrary: x)
  case Nil
  then show ?case by (induction x) auto
next
  case (Cons y ys)
  from Cons.prems(2) show ?case
  proof (induction x)
    case Nil
    then show ?case using Cons.IH [of y] Cons.prems(1) by simp
  qed auto
qed

lemma digitVal_digitChar: "n < 10 \<Longrightarrow> digitVal (digitChar n) = Some n"
  by (simp add: digitVal_def of_char_digitChar Let_def)

lemma digitsVal_append: "digitsVal (xs @ ys) a = (case digitsVal xs a of None \<Rightarrow> None | Some b \<Rightarrow> digitsVal ys b)"
  by (induction xs arbitrary: a) (auto split: option.split)

lemma digitsVal_showNat: "digitsVal (showNat n) 0 = Some n"
proof (induction n rule: showNat.induct)
  case (1 n)
  show ?case
  proof (cases "n < 10")
    case True
    then show ?thesis by (simp add: showNat.simps [of n] digitVal_digitChar)
  next
    case False
    then show ?thesis using "1.IH" by (simp add: showNat.simps [of n] digitsVal_append digitVal_digitChar)
  qed
qed

text \<open>A number survives being written and read.\<close>

lemma Atoi_showInt:
  assumes "- (2 ^ 63) \<le> i" "i < 2 ^ 63"
  shows "Atoi (showInt i) = (i, True)"
proof -
  have nosign: "hd (showNat n) \<notin> {CHR ''-'', CHR ''+''}" for n
  proof -
    have "\<exists>m < 10. hd (showNat n) = digitChar m"
    proof (induction n rule: showNat.induct)
      case (1 n)
      then show ?case by (cases "n < 10") (auto simp: showNat.simps [of n])
    qed
    then obtain m where m: "m < 10" "hd (showNat n) = digitChar m" by blast
    have "of_char (CHR ''-'') = (45 :: nat)" "of_char (CHR ''+'') = (43 :: nat)" by simp_all
    with of_char_digitChar [OF m(1)] m(2) show ?thesis by auto
  qed
  show ?thesis
    using assms nosign [of "nat i"] by (auto simp: Atoi_def showInt_def digitsVal_showNat Let_def)
qed

section \<open>The comet\<close>

type_synonym config = "string \<Rightarrow> string \<Rightarrow> string"

definition database :: "config \<Rightarrow> int" where
  "database conf = (let (n, ok) = Atoi (conf ''redis'' ''database'') in if ok then n else 0)"

record cometConfig =
  ccRouterRpcAddr :: string
  ccRpcBindAddr :: string
  ccRpcConnectAddr :: string
  ccMaxRpcInFight :: int
  ccTcpBindAddr :: string
  ccTcpConnectAddr :: string
  ccWsBindAddr :: string
  ccWsConnectAddr :: string
  ccMaxUaInFight :: int
  ccRuntime :: int
  ccDatabase :: int

text \<open>
  \<^verbatim>\<open>Init\<close> gives the settings and the comet with its empty pool; making the data channel panics
  for a negative capacity. The RPC client is set by \<^verbatim>\<open>Start\<close>.
\<close>

definition Init :: "config \<Rightarrow> RpcClient \<Rightarrow> 'r \<Rightarrow> 'w \<Rightarrow> gopanic + cometConfig \<times> ('r, 'w) Comet" where
  "Init conf client redis w =
     (let cfg = \<lparr>ccRouterRpcAddr = conf ''router'' ''rpcAddr'',
            ccRpcBindAddr = conf ''comet'' ''rpcBindAddr'', ccRpcConnectAddr = conf ''comet'' ''rpcConnectAddr'',
            ccMaxRpcInFight = fst (Atoi (conf ''comet'' ''rpcServerCache'')),
            ccTcpBindAddr = conf ''comet'' ''tcpBindAddr'', ccTcpConnectAddr = conf ''comet'' ''tcpConnectAddr'',
            ccWsBindAddr = conf ''comet'' ''wsBindAddr'', ccWsConnectAddr = conf ''comet'' ''wsConnectAddr'',
            ccMaxUaInFight = fst (Atoi (conf ''comet'' ''socketServerCache'')),
            ccRuntime = fst (Atoi (conf ''comet'' ''socketCacheRuntime'')),
            ccDatabase = database conf\<rparr>
      in if ccMaxUaInFight cfg < 0 then Inl MakeChan
         else Inr (cfg, newComet (conf ''comet'' ''cometId'') client (NewStorager redis) w))"

lemma Init_reach: "Init conf client redis w = Inr (cfg, C) \<Longrightarrow> creach E C"
  by (auto simp: Init_def Let_def intro: creach.start split: if_splits)

text \<open>
  \<^verbatim>\<open>Start\<close> dials the router. When that fails it panics, which it recovers from: the process
  stays, without socket servers and workers (\<open>False\<close>).
\<close>

definition cometStart :: "'w transport \<Rightarrow> cometConfig \<Rightarrow> ('r, 'w) Comet \<Rightarrow> bool \<times> ('r, 'w) Comet" where
  "cometStart t cfg C =
     (case NewRpcClient t [] (ccRouterRpcAddr cfg) [] (cworld C) of
        (Inl err, w) \<Rightarrow> (False, C\<lparr>cworld := w\<rparr>)
      | (Inr client, w) \<Rightarrow> (True, C\<lparr>rpcCli := client, cworld := w\<rparr>))"

text \<open>
  The package's \<^verbatim>\<open>init\<close> for Apple's service: the client (its certificate, and whether it is the
  development service) and the sounds, neither of which is set without a certificate.
\<close>

definition apnsInit :: "(string \<Rightarrow> string \<Rightarrow> 'c option) \<Rightarrow> config \<Rightarrow> ('c \<times> bool) option \<times> string list" where
  "apnsInit FromP12File conf =
     (let isDevelopment = fst (Atoi (conf ''apns'' ''development''));
          pemFile = conf ''apns'' ''pemFile''; password = conf ''apns'' ''password''
      in case FromP12File pemFile password of
           None \<Rightarrow> (None, [])
         | Some cert \<Rightarrow> (Some (cert, isDevelopment = 1), iOSSound))"

text \<open>Without the certificate a push for an offline iPhone is dropped: nothing is sent and nothing stored.\<close>

lemma push_without_certificate:
  assumes "apnsInit FromP12File conf = (None, apnsSounds E)" "findSessions (idf uid PLAT_IOS) C = None"
  shows "onRpc E (PushRequst MSGTYPE_PUSH flag uid PLAT_IOS tok body) C = C"
proof -
  have "apnsSounds E = []" using assms(1) by (auto simp: apnsInit_def Let_def split: option.splits)
  then have "cApns E tok body flag C = C" by (simp add: cApns_def apnsPush_no_sound)
  then show ?thesis using assms(2) by (simp add: onRpc_def push_def pushFallback_def)
qed

section \<open>The router\<close>

record routerConfig =
  rcRpcAddr :: string
  rcMaxRpcInFight :: int
  rcLookupAddr :: "string list"
  rcTcpAddr :: string
  rcHttpBindAddr :: string
  rcDatabase :: int

definition routerInit :: "config \<Rightarrow> 'r \<Rightarrow> 'w \<Rightarrow> routerConfig \<times> ('r, 'w) Router" where
  "routerInit conf redis w =
     (\<lparr>rcRpcAddr = conf ''router'' ''rpcAddr'', rcMaxRpcInFight = fst (Atoi (conf ''router'' ''rpcServerCache'')),
        rcLookupAddr = splitOn CHR '','' (conf ''nsq'' ''nsqlookupAddr''), rcTcpAddr = conf ''nsq'' ''tcpAddr'',
        rcHttpBindAddr = conf ''http'' ''bindAddr'', rcDatabase = database conf\<rparr>,
      \<lparr>topics = splitOn CHR '','' (conf ''nsq'' ''topics''), upMsgTopic = conf ''nsq'' ''upMsgTopic'',
        comets = Map.empty, store = NewStorager redis, world = w\<rparr>)"

text \<open>
  The queue handler looks topics up by their place: with fewer than four separators in the
  configured list every message makes it panic.
\<close>

lemma router_needs_five_topics:
  "(\<forall>E topic b. fst (NsqHandler E topic b (snd (routerInit conf redis w))) = Some IndexOutOfRange) \<longleftrightarrow>
    count_list (conf ''nsq'' ''topics'') CHR '','' < 4"
proof
  assume few: "count_list (conf ''nsq'' ''topics'') CHR '','' < 4"
  then show "\<forall>E topic b. fst (NsqHandler E topic b (snd (routerInit conf redis w))) = Some IndexOutOfRange"
    by (simp add: NsqHandler_def routerInit_def splitOn_length)
next
  assume all: "\<forall>E topic b. fst (NsqHandler E topic b (snd (routerInit conf redis w))) = Some IndexOutOfRange"
  show "count_list (conf ''nsq'' ''topics'') CHR '','' < 4"
  proof (rule ccontr)
    assume "\<not> ?thesis"
    then have "fst (NsqHandler (E\<lparr>unTimeout := \<lambda>_. None\<rparr>) (topics (snd (routerInit conf redis w)) ! 4) b
        (snd (routerInit conf redis w))) = None" for E :: "('a, 'b) renv" and b
      by (simp add: NsqHandler_def routerInit_def splitOn_length)
    with all show False by (metis option.distinct(1))
  qed
qed

section \<open>Topics\<close>

text \<open>
  \<^verbatim>\<open>NewTopicDiscoverer\<close>: \<open>consume\<close> makes a consumer for a topic; a topic that cannot be
  consumed ends the process (\<open>None\<close>). A dispatcher is its topic; the handler is the same for all.
\<close>

definition NewDispatcher :: "string \<Rightarrow> string" where
  "NewDispatcher topic = topic"

definition NewConsumerDispatcher :: "(string \<Rightarrow> 'w \<Rightarrow> bool \<times> 'w) \<Rightarrow> string \<Rightarrow> 'w \<Rightarrow> string option \<times> 'w" where
  "NewConsumerDispatcher consume topic w =
     (let r = NewDispatcher topic; (ok, w) = consume topic w in (if ok then Some r else None, w))"

fun NewTopicDiscoverer :: "(string \<Rightarrow> 'w \<Rightarrow> bool \<times> 'w) \<Rightarrow> string list \<Rightarrow> (string \<rightharpoonup> string) \<Rightarrow> 'w \<Rightarrow>
    (string \<rightharpoonup> string) option \<times> 'w" where
  "NewTopicDiscoverer consume [] m w = (Some m, w)"
| "NewTopicDiscoverer consume (v # vs) m w =
     (case NewConsumerDispatcher consume v w of
        (None, w) \<Rightarrow> (None, w)
      | (Some d, w) \<Rightarrow> NewTopicDiscoverer consume vs (m(v \<mapsto> d)) w)"

lemma discovered_topics:
  "NewTopicDiscoverer consume vs m w = (Some m', w') \<Longrightarrow>
     m' = (\<lambda>v. if v \<in> set vs then Some v else m v)"
  by (induction vs arbitrary: m w)
    (fastforce simp: NewConsumerDispatcher_def NewDispatcher_def split: prod.splits if_splits)+

end
