(* ===== verification/Boot.thy ===== *)
theory Boot
  imports Config
begin

text \<open>
  Starting the two processes: \<^verbatim>\<open>Start\<close> of \<^verbatim>\<open>src/comet/comet.go\<close> and \<^verbatim>\<open>src/router/router.go\<close>, the
  servers they start (\<^verbatim>\<open>NewRpcServer\<close>, \<^verbatim>\<open>startTcpServer\<close>, \<^verbatim>\<open>startWsServer\<close>,
  \<^verbatim>\<open>startHttpServer\<close>) and the accept loop of the TCP server.

  A process has one table of HTTP handlers, \<^verbatim>\<open>http.DefaultServeMux\<close>: \<^verbatim>\<open>http.Handle\<close> and
  \<^verbatim>\<open>rpc.HandleHTTP\<close> add to it and panic for a pattern it has, and every server that is
  started with a nil handler serves it. The sockets and the queue client are parameters. What a
  started goroutine does before its loop is run when it is started; a panic in a goroutine
  that does not recover ends the process.
\<close>

section \<open>A process\<close>

datatype goroutine =
    HttpServe string
  | RpcMessages
  | TcpServ string
  | SocketHandler
  | CheckRpc
  | Stat
  | CometExits

text \<open>The channel \<^verbatim>\<open>exit\<close>, which only \<^verbatim>\<open>Stop\<close> uses.\<close>

datatype chan = NilChan | OpenChan | ClosedChan

record 'w process =
  mux :: "string list"
  served :: "string list"
  gos :: "goroutine list"
  crashed :: bool
  exitChan :: chan
  outer :: 'w

record 'w net =
  netListen :: "string \<Rightarrow> 'w \<Rightarrow> bool \<times> 'w"
  nsqConsume :: "string \<Rightarrow> 'w \<Rightarrow> bool \<times> 'w"
  nsqProducer :: "string \<Rightarrow> 'w \<Rightarrow> bool \<times> 'w"

text \<open>
  What \<^verbatim>\<open>Init\<close> leaves: the handlers are those the import of \<^verbatim>\<open>net/http/pprof\<close> adds (\<open>pprof\<close>). The
  comet makes its channel, the router does not, and starts its statistics.
\<close>

definition cometProcess :: "string list \<Rightarrow> 'w \<Rightarrow> 'w process" where
  "cometProcess pprof w =
     \<lparr>mux = pprof, served = [], gos = [], crashed = False, exitChan = OpenChan, outer = w\<rparr>"

definition routerProcess :: "string list \<Rightarrow> 'w \<Rightarrow> 'w process" where
  "routerProcess pprof w =
     \<lparr>mux = pprof, served = [], gos = [Stat], crashed = False, exitChan = NilChan, outer = w\<rparr>"

definition rpcPath :: string where "rpcPath = ''/_goRPC_''"

definition debugPath :: string where "debugPath = ''/debug/rpc''"

definition httpHandle :: "string \<Rightarrow> ('w process, unit) pcd" where
  "httpHandle pat s =
     (if pat \<in> set (mux s) then (Inl MuxTwice, s) else (Inr (), s\<lparr>mux := mux s @ [pat]\<rparr>))"

definition listenOn :: "'w net \<Rightarrow> string \<Rightarrow> ('w process, bool) pcd" where
  "listenOn E addr s = (let (ok, w) = netListen E addr (outer s) in (Inr ok, s\<lparr>outer := w\<rparr>))"

definition spawn :: "goroutine \<Rightarrow> 'w process \<Rightarrow> 'w process" where
  "spawn g s = s\<lparr>gos := gos s @ [g]\<rparr>"

text \<open>\<^verbatim>\<open>http.Serve\<close> with a nil handler.\<close>

definition serveMux :: "string \<Rightarrow> 'w process \<Rightarrow> 'w process" where
  "serveMux addr s = spawn (HttpServe addr) (s\<lparr>served := served s @ [addr]\<rparr>)"

text \<open>Which pattern is answered on which address.\<close>

definition answers_on :: "'w process \<Rightarrow> string \<Rightarrow> string \<Rightarrow> bool" where
  "answers_on s addr pat \<longleftrightarrow> addr \<in> set (served s) \<and> pat \<in> set (mux s)"

text \<open>A goroutine without \<^verbatim>\<open>recover\<close>.\<close>

definition unrecovered :: "('w process, unit) pcd \<Rightarrow> ('w process, unit) pcd" where
  "unrecovered f s = (case f s of (Inr u, s) \<Rightarrow> (Inr u, s) | (Inl p, s) \<Rightarrow> (Inr (), s\<lparr>crashed := True\<rparr>))"

definition listenAndServe :: "'w net \<Rightarrow> string \<Rightarrow> ('w process, unit) pcd" where
  "listenAndServe E addr =
     pbind (listenOn E addr) (\<lambda>ok. if ok then pmod (serveMux addr) else plift (Inl Raised))"

text \<open>\<^verbatim>\<open>close\<close> panics for a channel that is nil or closed.\<close>

definition closeChan :: "chan \<Rightarrow> gopanic + chan" where
  "closeChan c = (if c = OpenChan then Inr ClosedChan else Inl CloseChan)"

definition StopProcess :: "('w process, unit) pcd" where
  "StopProcess s = (case closeChan (exitChan s) of Inl p \<Rightarrow> (Inl p, s) | Inr c \<Rightarrow> (Inr (), s\<lparr>exitChan := c\<rparr>))"

text \<open>The debug server of the comet's \<^verbatim>\<open>main\<close>; its error is dropped.\<close>

definition debugServer :: "'w net \<Rightarrow> config \<Rightarrow> 'w process \<Rightarrow> 'w process" where
  "debugServer E conf s = snd (listenAndServe E (conf ''http'' ''bindAddr'') s)"

section \<open>The RPC server\<close>

definition startRpcServer :: "'w net \<Rightarrow> string \<Rightarrow> ('w process, bool) pcd" where
  "startRpcServer E addr =
     pbind (httpHandle rpcPath) (\<lambda>_. pbind (httpHandle debugPath) (\<lambda>_.
     pbind (listenOn E addr) (\<lambda>ok.
       if ok then pbind (pmod (serveMux addr)) (\<lambda>_. pret True) else pret False)))"

definition NewRpcServer :: "'w net \<Rightarrow> string \<Rightarrow> int \<Rightarrow> ('w process, unit) pcd" where
  "NewRpcServer E addr cache =
     (if cache < 0 then plift (Inl MakeChan)
      else
        pbind (startRpcServer E addr) (\<lambda>ok.
          if ok then pmod (spawn RpcMessages) else plift (Inl Raised)))"

section \<open>The TCP server\<close>

text \<open>
  What \<^verbatim>\<open>AcceptTCP\<close> gives: an error, or a connection, with the results of the two calls that
  switch on keep-alive.
\<close>

datatype accepted = AcceptErr | NewConn conn bool bool

datatype fate = Served conn | ClosedAtOnce conn

fun acceptLoop :: "accepted list \<Rightarrow> fate list" where
  "acceptLoop [] = []"
| "acceptLoop (AcceptErr # as) = acceptLoop as"
| "acceptLoop (NewConn c alive period # as) =
     (if \<not> alive then ClosedAtOnce c # acceptLoop as
      else if \<not> period then ClosedAtOnce c # acceptLoop as
      else Served c # acceptLoop as)"

text \<open>
  \<^verbatim>\<open>tcpServ\<close> starts itself again when it cannot listen, and has no other end: \<open>None\<close> when it
  never gets its address.
\<close>

partial_function (option) tcpServ :: "'w net \<Rightarrow> string \<Rightarrow> accepted list \<Rightarrow> 'w \<Rightarrow> (fate list \<times> 'w) option" where
  "tcpServ E addr as w =
     (let (ok, w) = netListen E addr w in if ok then Some (acceptLoop as, w) else tcpServ E addr as w)"

section \<open>The comet\<close>

definition startTcpServer :: "string \<Rightarrow> 'w process \<Rightarrow> 'w process" where
  "startTcpServer addr = spawn (TcpServ addr)"

definition wsServ :: "'w net \<Rightarrow> string \<Rightarrow> ('w process, unit) pcd" where
  "wsServ E addr = pbind (httpHandle ''/'') (\<lambda>_. listenAndServe E addr)"

definition startWsServer :: "'w net \<Rightarrow> string \<Rightarrow> ('w process, unit) pcd" where
  "startWsServer E addr = unrecovered (wsServ E addr)"

fun startSocketHandle :: "nat \<Rightarrow> 'w process \<Rightarrow> 'w process" where
  "startSocketHandle 0 s = s"
| "startSocketHandle (Suc n) s = startSocketHandle n (spawn SocketHandler s)"

text \<open>
  \<^verbatim>\<open>Start\<close>, on the process and on the comet whose RPC client it sets. It recovers from a panic
  of the RPC server or of its own, and then has done only what came before.
\<close>

definition CometStart :: "'w net \<Rightarrow> 'w transport \<Rightarrow> cometConfig \<Rightarrow> ('r, 'w) Comet \<Rightarrow>
    ('w process, ('r, 'w) Comet) pcd" where
  "CometStart E t cfg C =
     pbind (NewRpcServer E (ccRpcBindAddr cfg) (ccMaxRpcInFight cfg)) (\<lambda>_ s.
       (case cometStart t cfg (C\<lparr>cworld := outer s\<rparr>) of
          (False, C) \<Rightarrow> (Inl Raised, s\<lparr>outer := cworld C\<rparr>)
        | (True, C) \<Rightarrow>
            pbind (pmod (spawn CheckRpc)) (\<lambda>_.
            pbind (pmod (startTcpServer (ccTcpBindAddr cfg))) (\<lambda>_.
            pbind (startWsServer E (ccWsBindAddr cfg)) (\<lambda>_.
            pbind (pmod (startSocketHandle (nat (ccRuntime cfg)))) (\<lambda>_.
            pbind (pmod (spawn Stat)) (\<lambda>_ s. (Inr (C\<lparr>cworld := outer s\<rparr>), s)))))) (s\<lparr>outer := cworld C\<rparr>)))"

section \<open>The router\<close>

definition startHttpServer :: "'w net \<Rightarrow> string \<Rightarrow> ('w process, unit) pcd" where
  "startHttpServer E addr =
     unrecovered (pbind (httpHandle ''/v1/gComet.addr'') (\<lambda>_. listenAndServe E addr))"

definition NewProducer :: "'w net \<Rightarrow> string \<Rightarrow> ('w process, unit) pcd" where
  "NewProducer E addr s =
     (let (ok, w) = nsqProducer E addr (outer s) in (if ok then Inr () else Inl Raised, s\<lparr>outer := w\<rparr>))"

text \<open>
  The body of \<^verbatim>\<open>Start\<close>; a topic that cannot be consumed ends the process through \<^verbatim>\<open>log.Fatal\<close>.
\<close>

definition routerAttempt :: "'w net \<Rightarrow> routerConfig \<Rightarrow> string list \<Rightarrow> ('w process, unit) pcd" where
  "routerAttempt E cfg ts =
     pbind (NewRpcServer E (rcRpcAddr cfg) (rcMaxRpcInFight cfg)) (\<lambda>_.
     pbind (pmod (spawn CometExits)) (\<lambda>_ s.
       (case NewTopicDiscoverer (nsqConsume E) ts Map.empty (outer s) of
          (None, w) \<Rightarrow> (Inr (), s\<lparr>outer := w, crashed := True\<rparr>)
        | (Some discover, w) \<Rightarrow>
            pbind (NewProducer E (rcTcpAddr cfg)) (\<lambda>_. startHttpServer E (rcHttpBindAddr cfg))
              (s\<lparr>outer := w\<rparr>))))"

text \<open>\<^verbatim>\<open>Start\<close> runs the body again after every panic; \<open>None\<close> when that never ends.\<close>

partial_function (option) RouterStart :: "'w net \<Rightarrow> routerConfig \<Rightarrow> string list \<Rightarrow> 'w process \<Rightarrow> 'w process option" where
  "RouterStart E cfg ts s =
     (let (r, s) = routerAttempt E cfg ts s in
      if isl r then RouterStart E cfg ts s else Some s)"

section \<open>Trying again is futile\<close>

text \<open>What makes every further attempt panic: the RPC handlers are there, or the channel's capacity is negative.\<close>

definition doomed :: "routerConfig \<Rightarrow> 'w process \<Rightarrow> bool" where
  "doomed cfg s \<longleftrightarrow> rcMaxRpcInFight cfg < 0 \<or> rpcPath \<in> set (mux s)"

lemma attempt_doomed:
  assumes "doomed cfg s"
  shows "\<exists>p. routerAttempt E cfg ts s = (Inl p, s)"
  using assms
  by (auto simp: doomed_def routerAttempt_def NewRpcServer_def startRpcServer_def httpHandle_def pbind_def plift_def)

lemma NewRpcServer_doomed:
  assumes "NewRpcServer E addr (rcMaxRpcInFight cfg) s = (r, s')"
  shows "doomed cfg s'"
proof (cases "rcMaxRpcInFight cfg < 0")
  case False
  then have "rpcPath \<in> set (mux s')"
    using assms
    by (auto simp: NewRpcServer_def startRpcServer_def pbind_def pmod_def pret_def plift_def spawn_def serveMux_def
        httpHandle_def listenOn_def split: prod.splits sum.splits if_splits)
  then show ?thesis by (simp add: doomed_def)
qed (simp add: doomed_def)

text \<open>No step forgets a handler.\<close>

abbreviation grows :: "('w process, 'a) pcd \<Rightarrow> bool" where
  "grows f \<equiv> (\<forall>pat. pkeeps (\<lambda>s. pat \<in> set (mux s)) f)"

lemma pkeeps_unrecovered [keeps_rules]:
  assumes "pkeeps (\<lambda>s. pat \<in> set (mux s)) f"
  shows "pkeeps (\<lambda>s. pat \<in> set (mux s)) (unrecovered f)"
  using assms unfolding pkeeps_def unrecovered_def by (fastforce split: prod.splits sum.splits)

lemma grows_steps [simp]:
  "grows (httpHandle pat)" "grows (listenOn E addr)" "grows (NewProducer E addr)"
  "grows (pmod (serveMux addr))" "grows (pmod (spawn g))"
  by (auto simp: pkeeps_def httpHandle_def listenOn_def NewProducer_def serveMux_def spawn_def split: prod.splits)

lemma grows_startHttpServer [simp]: "grows (startHttpServer E addr)"
  by (auto simp: startHttpServer_def listenAndServe_def intro!: keeps_rules)

lemma attempt_leaves_doomed:
  assumes "routerAttempt E cfg ts s = (r, s')"
  shows "doomed cfg s'"
proof -
  obtain r1 s1 where rpc: "NewRpcServer E (rcRpcAddr cfg) (rcMaxRpcInFight cfg) s = (r1, s1)" by fastforce
  let ?rest = "pbind (NewProducer E (rcTcpAddr cfg)) (\<lambda>_. startHttpServer E (rcHttpBindAddr cfg))"
  have "grows ?rest" by (auto intro!: keeps_rules)
  then have more: "set (mux s2) \<subseteq> set (mux s')" if "?rest s2 = (r, s')" for s2
    using that by (auto dest: pkeepsD)
  have "set (mux s1) \<subseteq> set (mux s')"
  proof (cases r1)
    case (Inr u)
    then show ?thesis
      using assms rpc
      by (auto simp: routerAttempt_def pbind_simps spawn_def split: option.splits prod.splits dest!: more)
  qed (use assms rpc in \<open>simp add: routerAttempt_def pbind_simps\<close>)
  with NewRpcServer_doomed [OF rpc] show ?thesis by (auto simp: doomed_def)
qed

lemma RouterStart_doomed:
  assumes "doomed cfg s"
  shows "RouterStart E cfg ts s = None"
proof (rule ccontr)
  assume "\<not> ?thesis"
  then obtain s' where "RouterStart E cfg ts s = Some s'" by auto
  then have "\<not> doomed cfg s"
  proof (rule RouterStart.raw_induct [where P = "\<lambda>E cfg ts s r. \<not> doomed cfg s", rotated])
    fix start E cfg ts and s :: "'a process" and y
    assume IH: "\<And>E cfg ts s y. start E cfg ts s = Some y \<Longrightarrow> \<not> doomed cfg s"
      and body: "(let (r, s) = routerAttempt E cfg ts s in if isl r then start E cfg ts s else Some s) = Some y"
    show "\<not> doomed cfg s"
    proof
      assume "doomed cfg s"
      then show False using attempt_doomed [of cfg s E ts] body IH by auto
    qed
  qed
  with assms show False by simp
qed

lemma RouterStart_attempt:
  "RouterStart E cfg ts s =
     (case routerAttempt E cfg ts s of (Inr u, s') \<Rightarrow> Some s' | (Inl p, s') \<Rightarrow> None)"
proof -
  obtain r s' where a: "routerAttempt E cfg ts s = (r, s')" by fastforce
  show ?thesis
    using attempt_leaves_doomed [OF a] 
    by (subst RouterStart.simps) (auto simp: a RouterStart_doomed split: sum.split)
qed

text \<open>Every handler of the process is answered on every address it serves.\<close>

lemma startWsServer_ok:
  assumes "startWsServer E addr s = (r, s')"
  shows "r = Inr ()" "set (mux s) \<subseteq> set (mux s')" "set (served s) \<subseteq> set (served s')"
    "\<not> crashed s' \<Longrightarrow> ''/'' \<in> set (mux s') \<and> addr \<in> set (served s') \<and> \<not> crashed s"
  using assms
  by (auto simp: startWsServer_def unrecovered_def wsServ_def listenAndServe_def httpHandle_def listenOn_def pbind_def
      pmod_def plift_def serveMux_def spawn_def split: if_splits prod.splits sum.splits)

lemma NewRpcServer_ok:
  assumes "NewRpcServer E addr cache s = (Inr u, s')"
  shows "set (mux s') = {rpcPath, debugPath} \<union> set (mux s)" "set (served s') = insert addr (set (served s))"
    "crashed s' = crashed s"
  using assms
  by (auto simp: NewRpcServer_def startRpcServer_def pbind_def pmod_def pret_def plift_def spawn_def serveMux_def
        httpHandle_def listenOn_def split: prod.splits sum.splits if_splits)

lemma startSocketHandle_same:
  "mux (startSocketHandle n s) = mux s" "served (startSocketHandle n s) = served s"
  "crashed (startSocketHandle n s) = crashed s"
  by (induction n s rule: startSocketHandle.induct) (simp_all add: spawn_def)

lemma CometStart_serves:
  assumes ok: "CometStart E t cfg C s0 = (Inr C', s)" "\<not> crashed s"
    and p: "pat \<in> {rpcPath, debugPath, ''/''} \<union> set (mux s0)" 
    and a: "addr \<in> {ccWsBindAddr cfg, ccRpcBindAddr cfg} \<union> set (served s0)"
  shows "answers_on s addr pat"
proof -
  from ok obtain s1 w1 r2 s2 where
    1: "NewRpcServer E (ccRpcBindAddr cfg) (ccMaxRpcInFight cfg) s0 = (Inr (), s1)"
    and 2: "startWsServer E (ccWsBindAddr cfg) (startTcpServer (ccTcpBindAddr cfg) (spawn CheckRpc (s1\<lparr>outer := w1\<rparr>)))
       = (r2, s2)"
    and s: "s = spawn Stat (startSocketHandle (nat (ccRuntime cfg)) s2)"
    by (auto simp: CometStart_def pbind_def pmod_def split: prod.splits sum.splits bool.splits)
  show ?thesis
    using startWsServer_ok [OF 2] NewRpcServer_ok [OF 1] p a ok(2)
    unfolding s answers_on_def
    by (auto simp: startSocketHandle_same spawn_def startTcpServer_def)
qed

lemma debugServer_process:
  "mux (debugServer E conf s) = mux s" "crashed (debugServer E conf s) = crashed s"
  "fst (netListen E (conf ''http'' ''bindAddr'') (outer s)) \<Longrightarrow>
     served (debugServer E conf s) = served s @ [conf ''http'' ''bindAddr'']"
  by (auto simp: debugServer_def listenAndServe_def listenOn_def pbind_def pmod_def plift_def serveMux_def spawn_def
      split: prod.splits)

lemma RouterStart_exitChan: "RouterStart E cfg ts s = Some s' \<Longrightarrow> exitChan s' = exitChan s"
  by (auto simp: RouterStart_attempt routerAttempt_def NewRpcServer_def startRpcServer_def startHttpServer_def
      unrecovered_def NewProducer_def listenAndServe_def httpHandle_def listenOn_def pbind_def pmod_def pret_def plift_def
      serveMux_def spawn_def split: prod.splits sum.splits if_splits option.splits)

text \<open>The router has never made the channel that its \<^verbatim>\<open>Stop\<close> closes.\<close>

lemma router_stop_panics:
  "RouterStart E cfg ts (routerProcess pprof w) = Some s \<Longrightarrow> StopProcess s = (Inl CloseChan, s)"
  by (auto dest!: RouterStart_exitChan simp: StopProcess_def closeChan_def routerProcess_def)

text \<open>Every connection the TCP server accepts is either served or closed, once and in order.\<close>

definition fateOf :: "accepted \<Rightarrow> fate option" where
  "fateOf a = (case a of AcceptErr \<Rightarrow> None
     | NewConn c alive period \<Rightarrow> Some (if alive \<and> period then Served c else ClosedAtOnce c))"

lemma acceptLoop_fates: "acceptLoop as = List.map_filter fateOf as"
  by (induction as rule: acceptLoop.induct) (auto simp: fateOf_def List.map_filter_simps)

section \<open>Properties\<close>

text \<open>C39: A start of the router that panics is never repaired by being run again: the process has one
  table of HTTP handlers, which already holds the RPC path, so every further run panics at once (or
  the configured capacity stays negative). \<^verbatim>\<open>Start\<close> ends exactly when its first run does.\<close>

theorem router_start_retry_is_futile:
  "RouterStart E cfg ts s =
     (case routerAttempt E cfg ts s of (Inr u, s') \<Rightarrow> Some s' | (Inl p, s') \<Rightarrow> None)"
  by (rule RouterStart_attempt)

text \<open>C40: Once the comet has started, every address it serves answers every path the process
  registered: the router's RPC methods (push, kick) are answered on the public websocket address and on
  the debug address too, and the websocket handler and the profiler on the RPC address.\<close>

theorem rpc_answered_on_public_address:
  assumes "Init conf client redis w0 = Inr (cfg, C0)"
    and "CometStart E t cfg C0 (debugServer E conf (cometProcess pprof w0)) = (Inr C, s)" "\<not> crashed s"
    and "pat \<in> {rpcPath, debugPath, ''/''} \<union> set pprof"
    and "addr \<in> {conf ''comet'' ''wsBindAddr'', conf ''comet'' ''rpcBindAddr''} \<or>
      addr = conf ''http'' ''bindAddr'' \<and> fst (netListen E addr w0)"
  shows "answers_on s addr pat"
proof -
  have "addr \<in> {ccWsBindAddr cfg, ccRpcBindAddr cfg} \<union> set (served (debugServer E conf (cometProcess pprof w0)))"
    using assms(1,5) by (auto simp: Init_def Let_def cometProcess_def debugServer_process split: if_splits)
  with assms(2-4) show ?thesis
    by (intro CometStart_serves) (auto simp: debugServer_process cometProcess_def)
qed

definition openNet :: "unit net" where
  "openNet = \<lparr>netListen = (\<lambda>a w. (True, w)), nsqConsume = (\<lambda>a w. (True, w)), nsqProducer = (\<lambda>a w. (True, w))\<rparr>"

definition exampleConf :: config where
  "exampleConf sec key =
     (if key = ''wsBindAddr'' then '':8080'' else if key = ''rpcBindAddr'' then ''10.0.0.2:8907''
      else if sec = ''http'' then ''127.0.0.1:6060'' else ''1'')"

definition exampleRouter :: "unit transport" where
  "exampleRouter = \<lparr>dial = (\<lambda>a w. (Some 1, w)), call = (\<lambda>h m r w. (Some 0, w)), hangup = (\<lambda>h w. w)\<rparr>"

definition noClient :: RpcClient where
  "noClient = \<lparr>clientId = [], serverAddr = [], conn = 0, status = []\<rparr>"

lemma Init_example:
  "Init exampleConf noClient () () =
     Inr (\<lparr>ccRouterRpcAddr = ''1'', ccRpcBindAddr = ''10.0.0.2:8907'', ccRpcConnectAddr = ''1'', ccMaxRpcInFight = 1,
        ccTcpBindAddr = ''1'', ccTcpConnectAddr = ''1'', ccWsBindAddr = '':8080'', ccWsConnectAddr = ''1'',
        ccMaxUaInFight = 1, ccRuntime = 1, ccDatabase = 1\<rparr>, newComet ''1'' noClient (NewStorager ()) ())"
  by (simp add: Init_def exampleConf_def Let_def database_def Atoi_def digitVal_def)

theorem rpc_answered_on_public_address_witness:
  "\<exists>C s. CometStart openNet exampleRouter
      \<lparr>ccRouterRpcAddr = ''1'', ccRpcBindAddr = ''10.0.0.2:8907'', ccRpcConnectAddr = ''1'', ccMaxRpcInFight = 1,
        ccTcpBindAddr = ''1'', ccTcpConnectAddr = ''1'', ccWsBindAddr = '':8080'', ccWsConnectAddr = ''1'',
        ccMaxUaInFight = 1, ccRuntime = 1, ccDatabase = 1\<rparr> (newComet ''1'' noClient (NewStorager ()) ())
      (debugServer openNet exampleConf (cometProcess [''/debug/pprof/''] ())) = (Inr C, s) \<and>
    answers_on s '':8080'' rpcPath"
  (is "\<exists>C s. CometStart _ _ ?cfg ?C0 ?s0 = _ \<and> _")
proof -
  obtain C s where ok: "CometStart openNet exampleRouter ?cfg ?C0 ?s0 = (Inr C, s)" and "\<not> crashed s"
    by (simp add: CometStart_def cometStart_def NewRpcClient_def exampleRouter_def NewRpcServer_def startRpcServer_def
        startWsServer_def unrecovered_def wsServ_def listenAndServe_def httpHandle_def listenOn_def pbind_def pmod_def
        pret_def openNet_def serveMux_def spawn_def debugServer_def cometProcess_def rpcPath_def debugPath_def
        startTcpServer_def newComet_def)
  then have "answers_on s '':8080'' rpcPath"
    by (intro rpc_answered_on_public_address [OF Init_example ok]) (simp_all add: exampleConf_def)
  with ok show ?thesis by blast
qed

end
