(* ===== verification/Counter.thy ===== *)
theory Counter
  imports Format
begin

text \<open>
  \<^verbatim>\<open>src/internal/counter/counter.go\<close>: counters by name, each with its current value and the
  largest value it had. \<^verbatim>\<open>int64\<close> values are integers: a counter of connections does not
  reach the width.
\<close>

record Data =
  current :: int
  maxSeen :: int

type_synonym Counter = "string \<rightharpoonup> Data"

definition NewCounter :: Counter where
  "NewCounter = Map.empty"

definition Add :: "string \<Rightarrow> Counter \<Rightarrow> Counter" where
  "Add tp datas =
     (case datas tp of
        Some d \<Rightarrow>
          (let d = d\<lparr>current := current d + 1\<rparr>;
               d = (if current d > maxSeen d then d\<lparr>maxSeen := current d\<rparr> else d)
           in datas(tp \<mapsto> d))
      | None \<Rightarrow> datas(tp \<mapsto> \<lparr>current = 1, maxSeen = 1\<rparr>))"

definition Sub :: "string \<Rightarrow> Counter \<Rightarrow> Counter" where
  "Sub tp datas =
     (case datas tp of
        Some d \<Rightarrow> datas(tp \<mapsto> d\<lparr>current := current d - 1\<rparr>)
      | None \<Rightarrow> datas)"

text \<open>\<^verbatim>\<open>String\<close> lists the counters in the iteration order of the map, which is an argument.\<close>

definition counterLine :: "string \<Rightarrow> Data \<Rightarrow> string" where
  "counterLine k v = [CHR 0x09] @ ''['' @ k @ '' current is '' @ showInt (current v) @ '' max is '' @
     showInt (maxSeen v) @ '']''"

definition counterString :: "string list \<Rightarrow> Counter \<Rightarrow> string" where
  "counterString order datas =
     fold (\<lambda>k res. case datas k of None \<Rightarrow> res | Some v \<Rightarrow> res @ counterLine k v) order ''[cnt]''"

section \<open>Runs\<close>

datatype countOp = IncOp string | DecOp string

fun countStep :: "countOp \<Rightarrow> Counter \<Rightarrow> Counter" where
  "countStep (IncOp k) = Add k"
| "countStep (DecOp k) = Sub k"

definition countRun :: "countOp list \<Rightarrow> Counter" where
  "countRun ops = fold countStep ops NewCounter"

text \<open>The value of a counter as a reader of the calls would compute it.\<close>

fun balance :: "string \<Rightarrow> countOp list \<Rightarrow> int option \<Rightarrow> int option" where
  "balance k [] b = b"
| "balance k (IncOp j # ops) b =
     balance k ops (if j = k then Some (case b of None \<Rightarrow> 1 | Some n \<Rightarrow> n + 1) else b)"
| "balance k (DecOp j # ops) b =
     balance k ops (if j = k then map_option (\<lambda>n. n - 1) b else b)"

lemma balance_append: "balance k (xs @ ys) b = balance k ys (balance k xs b)"
  by (induction k xs b rule: balance.induct) auto

lemma balance_snoc:
  "balance k (ops @ [x]) None =
     (if x = IncOp k then Some (case balance k ops None of None \<Rightarrow> 1 | Some n \<Rightarrow> n + 1)
      else if x = DecOp k then map_option (\<lambda>n. n - 1) (balance k ops None)
      else balance k ops None)"
  by (cases x) (auto simp: balance_append)

lemma countStep_at:
  "countStep x c k =
     (if x = IncOp k then Some (case c k of None \<Rightarrow> \<lparr>current = 1, maxSeen = 1\<rparr>
          | Some d \<Rightarrow> \<lparr>current = current d + 1, maxSeen = max (maxSeen d) (current d + 1)\<rparr>)
      else if x = DecOp k then map_option (\<lambda>d. d\<lparr>current := current d - 1\<rparr>) (c k)
      else c k)"
  by (cases x) (auto simp: Add_def Sub_def Let_def max_def split: option.split)

lemma countRun_snoc: "countRun (ops @ [x]) = countStep x (countRun ops)"
  by (simp add: countRun_def)

lemma balance_take_snoc:
  "balance k (take n (ops @ [x])) None =
    (if n \<le> length ops then balance k (take n ops) None else balance k (ops @ [x]) None)"
  by simp

text \<open>A counter that exists holds the balance and its largest value so far.\<close>

definition counts :: "string \<Rightarrow> countOp list \<Rightarrow> Data option \<Rightarrow> bool" where
  "counts k ops r \<longleftrightarrow> (case r of
      None \<Rightarrow> \<forall>n. balance k (take n ops) None = None
    | Some d \<Rightarrow> Some (current d) = balance k ops None \<and>
        (\<exists>n \<le> length ops. balance k (take n ops) None = Some (maxSeen d)) \<and>
        (\<forall>n v. balance k (take n ops) None = Some v \<longrightarrow> v \<le> maxSeen d))"

lemma counts_first:
  assumes "counts k ops None" "c k = None"
  shows "counts k (ops @ [x]) (countStep x c k)"
proof -
  have none: "balance k (take n ops) None = None" for n using assms(1) by (simp add: counts_def)
  then have "balance k ops None = None" by (metis order_refl take_all)
  with assms(2) have "countStep x c k = (if x = IncOp k then Some \<lparr>current = 1, maxSeen = 1\<rparr> else None)"
    "balance k (ops @ [x]) None = (if x = IncOp k then Some 1 else None)"
    by (simp_all add: countStep_at balance_snoc)
  then show ?thesis
    unfolding counts_def balance_take_snoc none by (auto intro!: exI [of _ "Suc (length ops)"])
qed

lemma counts_next:
  assumes "counts k ops (Some d)" "c k = Some d"
  shows "counts k (ops @ [x]) (countStep x c k)"
proof -
  obtain n where d: "balance k ops None = Some (current d)" "n \<le> length ops"
      "balance k (take n ops) None = Some (maxSeen d)"
      "\<forall>n v. balance k (take n ops) None = Some v \<longrightarrow> v \<le> maxSeen d"
    using assms(1) by (auto simp: counts_def)
  then have "current d \<le> maxSeen d" by (metis order_refl take_all)
  define d' where "d' = (if x = IncOp k then \<lparr>current = current d + 1, maxSeen = max (maxSeen d) (current d + 1)\<rparr>
    else if x = DecOp k then d\<lparr>current := current d - 1\<rparr> else d)"
  have d': "countStep x c k = Some d'" "balance k (ops @ [x]) None = Some (current d')"
      "maxSeen d' = max (maxSeen d) (current d')"
    using assms(2) d(1) \<open>current d \<le> maxSeen d\<close>
    by (simp_all add: d'_def countStep_at balance_snoc del: countStep.simps)
  have top: "v \<le> maxSeen d'" if "balance k (take m (ops @ [x])) None = Some v" for m v
    using that d' d(4) unfolding balance_take_snoc by (fastforce split: if_splits)
  have "\<exists>m \<le> length (ops @ [x]). balance k (take m (ops @ [x])) None = Some (maxSeen d')"
  proof (cases "maxSeen d' = maxSeen d")
    case True
    with d(2,3) show ?thesis unfolding balance_take_snoc by (intro exI [of _ n]) simp
  next
    case False
    with d'(2,3) show ?thesis unfolding balance_take_snoc
      by (intro exI [of _ "Suc (length ops)"]) (auto simp: max_def split: if_splits)
  qed
  with d' top show ?thesis by (simp add: counts_def)
qed

lemma counts_run: "counts k ops (countRun ops k)"
proof (induction ops rule: rev_induct)
  case Nil
  then show ?case by (simp add: counts_def countRun_def NewCounter_def)
next
  case (snoc x ops)
  then show ?case
    unfolding countRun_snoc by (cases "countRun ops k") (auto intro: counts_first counts_next)
qed

text \<open>C15: after any calls of \<^verbatim>\<open>Add\<close> and \<^verbatim>\<open>Sub\<close> in any order, a counter that exists holds the balance of
  its calls since its first \<^verbatim>\<open>Add\<close>, and its maximum is the largest value it had at any time:
  never below a value it had, and equal to one of them.\<close>

theorem counter_tracks_maximum:
  assumes "countRun ops k = Some d"
  shows "Some (current d) = balance k ops None \<and>
    (\<exists>n \<le> length ops. balance k (take n ops) None = Some (maxSeen d)) \<and>
    (\<forall>n v. balance k (take n ops) None = Some v \<longrightarrow> v \<le> maxSeen d)"
  using counts_run [of k ops] assms by (simp add: counts_def)

theorem counter_tracks_maximum_witness:
  "balance ''tcp'' [IncOp ''tcp'', IncOp ''tcp'', DecOp ''tcp''] None = Some 1 \<and>
   (\<exists>d. countRun [IncOp ''tcp'', IncOp ''tcp'', DecOp ''tcp''] ''tcp'' = Some d \<and> current d = 1 \<and> 2 \<le> maxSeen d)"
proof -
  let ?ops = "[IncOp ''tcp'', IncOp ''tcp'', DecOp ''tcp'']"
  obtain d where d: "countRun ?ops ''tcp'' = Some d"
    by (simp add: countRun_def NewCounter_def Add_def Sub_def)
  note c = counter_tracks_maximum [OF d]
  then have "balance ''tcp'' (take 2 ?ops) None = Some 2 \<longrightarrow> 2 \<le> maxSeen d" by blast
  moreover have "balance ''tcp'' (take 2 ?ops) None = Some 2" by simp
  moreover have "Some (current d) = balance ''tcp'' ?ops None" using c by blast
  ultimately show ?thesis using d by simp
qed

end
