(* ===== verification/RedisStore.thy ===== *)
theory RedisStore
  imports OfflineQueue TextForm
begin

text \<open>
  \<^verbatim>\<open>src/internal/redisstore/redisstore.go\<close>: offline messages kept directly in redis, one
  document per user with the queues of all his terminals. The redis client and the text form
  are parameters: each client call answers or fails, \<^verbatim>\<open>Unmarshal\<close> gives whatever it leaves in
  a zero value (its error is ignored).
\<close>

section \<open>Data\<close>

record RPush =
  rOffline :: u16
  rPushMsg :: bytes

record RItem =
  rPlat :: int
  rWebOnline :: int
  rMsg :: bytes

record RBody =
  rPush :: RPush
  rCallback :: "RItem list"
  rIm :: "RItem list"

record ROffMsg =
  rId :: string
  rBody :: RBody

definition zeroOffMsg :: ROffMsg where
  "zeroOffMsg = \<lparr>rId = [], rBody = \<lparr>rPush = \<lparr>rOffline = 0, rPushMsg = []\<rparr>, rCallback = [], rIm = []\<rparr>\<rparr>"

record 'r redcli =
  rcExists :: "'r \<Rightarrow> string \<Rightarrow> bool option \<times> 'r"
  rcGet :: "'r \<Rightarrow> string \<Rightarrow> bytes option \<times> 'r"
  rcSet :: "'r \<Rightarrow> string \<Rightarrow> bytes \<Rightarrow> bool \<times> 'r"
  rcMarshal :: "ROffMsg \<Rightarrow> bytes"
  rcUnmarshal :: "bytes \<Rightarrow> ROffMsg"

datatype redisErr = ExistsFailed | GetFailed | SetFailed

section \<open>Operations\<close>

text \<open>
  The beginning the three saves share: an existing document is loaded, otherwise the zero one
  is used.
\<close>

definition loadOff :: "'r redcli \<Rightarrow> string \<Rightarrow> 'r \<Rightarrow> (redisErr + ROffMsg) \<times> 'r" where
  "loadOff E uid r =
     (case rcExists E r uid of
        (None, r) \<Rightarrow> (Inl ExistsFailed, r)
      | (Some False, r) \<Rightarrow> (Inr zeroOffMsg, r)
      | (Some True, r) \<Rightarrow>
          (case rcGet E r uid of
             (None, r) \<Rightarrow> (Inl GetFailed, r)
           | (Some b, r) \<Rightarrow> (Inr (rcUnmarshal E b), r)))"

definition storeOff :: "'r redcli \<Rightarrow> string \<Rightarrow> ROffMsg \<Rightarrow> 'r \<Rightarrow> redisErr option \<times> 'r" where
  "storeOff E uid omsg r =
     (case rcSet E r uid (rcMarshal E omsg) of (ok, r) \<Rightarrow> (if ok then None else Some SetFailed, r))"

definition modBody :: "(RBody \<Rightarrow> RBody) \<Rightarrow> ROffMsg \<Rightarrow> ROffMsg" where
  "modBody f omsg = omsg\<lparr>rBody := f (rBody omsg)\<rparr>"

definition saveOff :: "'r redcli \<Rightarrow> string \<Rightarrow> (RBody \<Rightarrow> RBody) \<Rightarrow> 'r \<Rightarrow> redisErr option \<times> 'r" where
  "saveOff E uid f r =
     (case loadOff E uid r of
        (Inl err, r) \<Rightarrow> (Some err, r)
      | (Inr omsg, r) \<Rightarrow> storeOff E uid (modBody f omsg) r)"

definition SavePush :: "'r redcli \<Rightarrow> string \<Rightarrow> bytes \<Rightarrow> 'r \<Rightarrow> redisErr option \<times> 'r" where
  "SavePush E uid msg =
     saveOff E uid (\<lambda>b. b\<lparr>rPush := \<lparr>rOffline = rOffline (rPush b) + 1, rPushMsg = msg\<rparr>\<rparr>)"

text \<open>
  The loop that looks for an equal callback only leaves itself when it finds one; the message
  is appended in every case.
\<close>

definition SaveCallback :: "'r redcli \<Rightarrow> string \<Rightarrow> int \<Rightarrow> bytes \<Rightarrow> 'r \<Rightarrow> redisErr option \<times> 'r" where
  "SaveCallback E uid plat msg =
     saveOff E uid (\<lambda>b. b\<lparr>rCallback := rCallback b @ [\<lparr>rPlat = plat, rWebOnline = 0, rMsg = msg\<rparr>]\<rparr>)"

definition SaveIm :: "'r redcli \<Rightarrow> string \<Rightarrow> int \<Rightarrow> int \<Rightarrow> bytes \<Rightarrow> 'r \<Rightarrow> redisErr option \<times> 'r" where
  "SaveIm E uid plat webOnline msg =
     saveOff E uid (\<lambda>b.
       let im = (if length (rIm b) > 50 then drop 1 (take 50 (rIm b)) else rIm b)
       in b\<lparr>rIm := im @ [\<lparr>rPlat = plat, rWebOnline = webOnline, rMsg = msg\<rparr>]\<rparr>)"

text \<open>A failed get answers with nothing; the document is written back after a take.\<close>

definition takeOff :: "'r redcli \<Rightarrow> string \<Rightarrow> 'a \<Rightarrow> (RBody \<Rightarrow> 'a) \<Rightarrow> (RBody \<Rightarrow> RBody) \<Rightarrow> 'r \<Rightarrow> 'a \<times> 'r" where
  "takeOff E uid none sel f r =
     (case rcGet E r uid of
        (None, r) \<Rightarrow> (none, r)
      | (Some b, r) \<Rightarrow>
          (let omsg = rcUnmarshal E b
           in (sel (rBody omsg), snd (storeOff E uid (modBody f omsg) r))))"

definition GetPush :: "'r redcli \<Rightarrow> string \<Rightarrow> 'r \<Rightarrow> (u16 \<times> bytes) \<times> 'r" where
  "GetPush E uid =
     takeOff E uid (0, []) (\<lambda>b. (rOffline (rPush b), rPushMsg (rPush b)))
       (\<lambda>b. b\<lparr>rPush := \<lparr>rOffline = 0, rPushMsg = []\<rparr>\<rparr>)"

definition GetCallback :: "'r redcli \<Rightarrow> string \<Rightarrow> int \<Rightarrow> 'r \<Rightarrow> bytes list \<times> 'r" where
  "GetCallback E uid plat =
     takeOff E uid [] (\<lambda>b. map rMsg (filter (\<lambda>it. rPlat it = plat) (rCallback b)))
       (\<lambda>b. b\<lparr>rCallback := filter (\<lambda>it. rPlat it \<noteq> plat) (rCallback b)\<rparr>)"

definition GetIm :: "'r redcli \<Rightarrow> string \<Rightarrow> int \<Rightarrow> 'r \<Rightarrow> RItem list \<times> 'r" where
  "GetIm E uid plat =
     takeOff E uid [] (\<lambda>b. filter (\<lambda>it. rPlat it = plat) (rIm b))
       (\<lambda>b. b\<lparr>rIm := filter (\<lambda>it. rPlat it \<noteq> plat) (rIm b)\<rparr>)"

section \<open>A healthy redis\<close>

text \<open>The document a user has, if redis answers: the stored one, or none.\<close>

definition offDoc :: "'r redcli \<Rightarrow> string \<Rightarrow> 'r \<Rightarrow> ROffMsg option" where
  "offDoc E uid r = map_option (rcUnmarshal E) (fst (rcGet E r uid))"

text \<open>A user id that was never set, or a document that was: the two states a save can meet.\<close>

definition redcli_ok :: "'r redcli \<Rightarrow> bool" where
  "redcli_ok E \<longleftrightarrow>
     (\<forall>r k. fst (rcExists E r k) = Some (fst (rcGet E r k) \<noteq> None)) \<and>
     (\<forall>r k. snd (rcExists E r k) = r \<and> snd (rcGet E r k) = r) \<and>
     (\<forall>r k b. fst (rcSet E r k b) \<and> fst (rcGet E (snd (rcSet E r k b)) k) = Some b) \<and>
     (\<forall>r k b k'. k' \<noteq> k \<longrightarrow> rcGet E (snd (rcSet E r k b)) k' = (fst (rcGet E r k'), snd (rcSet E r k b))) \<and>
     (\<forall>d. rId d = [] \<longrightarrow> rcUnmarshal E (rcMarshal E d) = d)"

definition goodDoc :: "'r redcli \<Rightarrow> string \<Rightarrow> 'r \<Rightarrow> bool" where
  "goodDoc E uid r \<longleftrightarrow> redcli_ok E \<and> (case offDoc E uid r of None \<Rightarrow> True | Some d \<Rightarrow> rId d = [])"

definition bodyOf :: "'r redcli \<Rightarrow> string \<Rightarrow> 'r \<Rightarrow> RBody" where
  "bodyOf E uid r = (case offDoc E uid r of None \<Rightarrow> rBody zeroOffMsg | Some d \<Rightarrow> rBody d)"

lemma storeOff_ok:
  assumes "redcli_ok E" "rId d = []"
  shows "fst (storeOff E uid d r) = None" "offDoc E uid (snd (storeOff E uid d r)) = Some d"
    "uid' \<noteq> uid \<Longrightarrow> offDoc E uid' (snd (storeOff E uid d r)) = offDoc E uid' r"
proof -
  have "fst (rcSet E r uid (rcMarshal E d))" using assms(1) unfolding redcli_ok_def by blast
  then have s: "storeOff E uid d r = (None, snd (rcSet E r uid (rcMarshal E d)))"
    by (cases "rcSet E r uid (rcMarshal E d)") (simp add: storeOff_def)
  have "rcUnmarshal E (rcMarshal E d) = d"
    "fst (rcGet E (snd (rcSet E r uid (rcMarshal E d))) uid) = Some (rcMarshal E d)"
    "uid' \<noteq> uid \<Longrightarrow> fst (rcGet E (snd (rcSet E r uid (rcMarshal E d))) uid') = fst (rcGet E r uid')"
    using assms unfolding redcli_ok_def by (metis fst_conv)+
  then show "fst (storeOff E uid d r) = None" "offDoc E uid (snd (storeOff E uid d r)) = Some d"
    "uid' \<noteq> uid \<Longrightarrow> offDoc E uid' (snd (storeOff E uid d r)) = offDoc E uid' r"
    by (simp_all add: s offDoc_def)
qed

lemma saveOff_ok:
  assumes "goodDoc E uid r"
  shows "fst (saveOff E uid f r) = None" "goodDoc E uid (snd (saveOff E uid f r))"
    "offDoc E uid (snd (saveOff E uid f r)) \<noteq> None"
    "bodyOf E uid (snd (saveOff E uid f r)) = f (bodyOf E uid r)"
    "uid' \<noteq> uid \<Longrightarrow> offDoc E uid' (snd (saveOff E uid f r)) = offDoc E uid' r"
proof -
  have ok: "redcli_ok E" using assms by (simp add: goodDoc_def)
  define d where "d = (case offDoc E uid r of None \<Rightarrow> zeroOffMsg | Some d \<Rightarrow> d)"
  have d: "rId d = []" "bodyOf E uid r = rBody d"
    using assms by (auto simp: goodDoc_def d_def bodyOf_def zeroOffMsg_def split: option.splits)
  have "loadOff E uid r = (Inr d, r)"
  proof (cases "rcGet E r uid")
    case (Pair b r')
    then have ex: "rcExists E r uid = (Some (b \<noteq> None), r)" "r' = r"
      using ok unfolding redcli_ok_def by (metis fst_conv snd_conv prod.collapse)+
    with Pair show ?thesis by (cases b) (simp_all add: loadOff_def d_def offDoc_def)
  qed
  then have save: "saveOff E uid f r = storeOff E uid (modBody f d) r"
    by (simp add: saveOff_def)
  have id: "rId (modBody f d) = []" using d by (simp add: modBody_def)
  note S = storeOff_ok [OF ok id]
  show "fst (saveOff E uid f r) = None" "goodDoc E uid (snd (saveOff E uid f r))"
    "offDoc E uid (snd (saveOff E uid f r)) \<noteq> None"
    "bodyOf E uid (snd (saveOff E uid f r)) = f (bodyOf E uid r)"
    "uid' \<noteq> uid \<Longrightarrow> offDoc E uid' (snd (saveOff E uid f r)) = offDoc E uid' r"
    using S id ok d by (simp_all add: save goodDoc_def bodyOf_def modBody_def)
qed

lemma takeOff_ok:
  assumes "goodDoc E uid r"
  shows "fst (takeOff E uid none sel f r) = (if offDoc E uid r = None then none else sel (bodyOf E uid r))"
    "goodDoc E uid (snd (takeOff E uid none sel f r))"
    "offDoc E uid (snd (takeOff E uid none sel f r)) = map_option (modBody f) (offDoc E uid r)"
    "uid' \<noteq> uid \<Longrightarrow> offDoc E uid' (snd (takeOff E uid none sel f r)) = offDoc E uid' r"
proof -
  have ok: "redcli_ok E" using assms by (simp add: goodDoc_def)
  obtain b where get: "rcGet E r uid = (b, r)"
    using ok unfolding redcli_ok_def by (metis prod.collapse)
  have "fst (takeOff E uid none sel f r) = (if offDoc E uid r = None then none else sel (bodyOf E uid r)) \<and>
    goodDoc E uid (snd (takeOff E uid none sel f r)) \<and>
    offDoc E uid (snd (takeOff E uid none sel f r)) = map_option (modBody f) (offDoc E uid r) \<and>
    (uid' \<noteq> uid \<longrightarrow> offDoc E uid' (snd (takeOff E uid none sel f r)) = offDoc E uid' r)"
  proof (cases b)
    case None
    with get assms show ?thesis by (simp add: takeOff_def offDoc_def goodDoc_def)
  next
    case (Some t)
    let ?d = "modBody f (rcUnmarshal E t)"
    have "rId ?d = []" using assms get Some by (simp add: goodDoc_def offDoc_def modBody_def)
    note S = storeOff_ok [OF ok this]
    with get Some \<open>rId ?d = []\<close> ok show ?thesis
      by (simp add: takeOff_def goodDoc_def bodyOf_def Let_def) (simp add: offDoc_def)
  qed
  then show "fst (takeOff E uid none sel f r) = (if offDoc E uid r = None then none else sel (bodyOf E uid r))"
    "goodDoc E uid (snd (takeOff E uid none sel f r))"
    "offDoc E uid (snd (takeOff E uid none sel f r)) = map_option (modBody f) (offDoc E uid r)"
    "uid' \<noteq> uid \<Longrightarrow> offDoc E uid' (snd (takeOff E uid none sel f r)) = offDoc E uid' r" by blast+
qed

section \<open>The callback queue of one terminal\<close>

definition redisCallbacks :: "'r redcli \<Rightarrow> string \<Rightarrow> int \<Rightarrow> 'r \<Rightarrow> bytes list" where
  "redisCallbacks E uid plat r = map rMsg (filter (\<lambda>it. rPlat it = plat) (rCallback (bodyOf E uid r)))"

interpretation redisCb: offline_queue "goodDoc E uid" "redisCallbacks E uid plat" "\<lambda>q m. q @ [m]"
  "\<lambda>m r. snd (SaveCallback E uid plat m r)" "GetCallback E uid plat"
  for uid plat and E :: "'r redcli"
proof unfold_locales
  fix r :: 'r and m
  assume good: "goodDoc E uid r"
  show "goodDoc E uid (snd (SaveCallback E uid plat m r))"
    "redisCallbacks E uid plat (snd (SaveCallback E uid plat m r)) = redisCallbacks E uid plat r @ [m]"
    unfolding SaveCallback_def redisCallbacks_def saveOff_ok(4) [OF good] using saveOff_ok(2) [OF good] by simp_all
  show "goodDoc E uid (snd (GetCallback E uid plat r))"
    unfolding GetCallback_def by (rule takeOff_ok(2) [OF good])
  show "fst (GetCallback E uid plat r) = redisCallbacks E uid plat r"
    unfolding GetCallback_def takeOff_ok(1) [OF good]
    by (simp add: redisCallbacks_def bodyOf_def zeroOffMsg_def)
  show "redisCallbacks E uid plat (snd (GetCallback E uid plat r)) = []"
    unfolding GetCallback_def redisCallbacks_def bodyOf_def takeOff_ok(3) [OF good]
    by (auto simp: modBody_def zeroOffMsg_def filter_empty_conv split: option.split)
qed

section \<open>A concrete client\<close>

definition putRItem :: "RItem \<Rightarrow> bytes" where
  "putRItem v = putInt (rPlat v) @ putInt (rWebOnline v) @ putList (\<lambda>b. [b]) (rMsg v)"

definition getRItem :: "bytes \<Rightarrow> (RItem \<times> bytes) option" where
  "getRItem bs = andThen (getInt bs) (\<lambda>p bs. andThen (getInt bs) (\<lambda>w bs.
     andThen (getList getByte bs) (\<lambda>m bs. Some (\<lparr>rPlat = p, rWebOnline = w, rMsg = m\<rparr>, bs))))"

lemma inverts_RItem [simp]: "inverts getRItem putRItem"
  by (rule invertsI) (simp add: getRItem_def putRItem_def)

definition putOff :: "ROffMsg \<Rightarrow> bytes" where
  "putOff d = putNat (unat (rOffline (rPush (rBody d)))) @ putList (\<lambda>b. [b]) (rPushMsg (rPush (rBody d))) @
     putList putRItem (rCallback (rBody d)) @ putList putRItem (rIm (rBody d))"

definition getOff :: "bytes \<Rightarrow> (ROffMsg \<times> bytes) option" where
  "getOff bs = andThen (getNat bs) (\<lambda>n bs. andThen (getList getByte bs) (\<lambda>m bs.
     andThen (getList getRItem bs) (\<lambda>cb bs. andThen (getList getRItem bs) (\<lambda>im bs.
     Some (\<lparr>rId = [], rBody = \<lparr>rPush = \<lparr>rOffline = of_nat n, rPushMsg = m\<rparr>, rCallback = cb, rIm = im\<rparr>\<rparr>, bs)))))"

definition mapRedis :: "(string \<rightharpoonup> bytes) redcli" where
  "mapRedis = \<lparr>rcExists = (\<lambda>r k. (Some (r k \<noteq> None), r)), rcGet = (\<lambda>r k. (r k, r)),
     rcSet = (\<lambda>r k b. (True, r(k \<mapsto> b))), rcMarshal = putOff,
     rcUnmarshal = (\<lambda>b. case getOff b of None \<Rightarrow> zeroOffMsg | Some (d, _) \<Rightarrow> d)\<rparr>"

lemma getOff_putOff:
  assumes "rId d = []"
  shows "getOff (putOff d @ bs) = Some (d, bs)"
  using assms by (cases d) (simp add: getOff_def putOff_def)

lemma mapRedis_ok: "redcli_ok mapRedis"
  using getOff_putOff [where bs = "[]"] by (simp add: redcli_ok_def mapRedis_def)

lemma mapRedis_empty: "goodDoc mapRedis uid Map.empty" "redisCallbacks mapRedis uid plat Map.empty = []"
proof -
  have "offDoc mapRedis uid Map.empty = None" by (simp add: offDoc_def mapRedis_def)
  then show "goodDoc mapRedis uid Map.empty" "redisCallbacks mapRedis uid plat Map.empty = []"
    using mapRedis_ok by (simp_all add: goodDoc_def redisCallbacks_def bodyOf_def zeroOffMsg_def)
qed

section \<open>Properties\<close>

text \<open>With a healthy redis the callbacks saved for one platform come out in order, and only once,
  and the check for duplicates has no effect: a callback saved twice is delivered twice (the
  \<^verbatim>\<open>break\<close> of the check leaves only its own loop).\<close>

theorem redisstore_keeps_duplicate_callbacks:
  assumes "goodDoc E uid r" "redisCallbacks E uid plat r = []"
  shows "fst (GetCallback E uid plat (fold (\<lambda>m r. snd (SaveCallback E uid plat m r)) ms r)) = ms \<and>
    fst (GetCallback E uid plat (snd (GetCallback E uid plat
      (fold (\<lambda>m r. snd (SaveCallback E uid plat m r)) ms r)))) = []"
  using redisCb.drain [OF assms(1), of plat ms] foldl_snoc [where f = id and ms = ms] assms(2) by simp

theorem redisstore_keeps_duplicate_callbacks_witness:
  "fst (GetCallback mapRedis ''u'' 1 (fold (\<lambda>m r. snd (SaveCallback mapRedis ''u'' 1 m r)) [[7], [7]] Map.empty))
     = [[7], [7]] \<and>
   fst (GetCallback mapRedis ''u'' 1 (snd (GetCallback mapRedis ''u'' 1
     (fold (\<lambda>m r. snd (SaveCallback mapRedis ''u'' 1 m r)) [[7], [7]] Map.empty)))) = []"
  by (rule redisstore_keeps_duplicate_callbacks [OF mapRedis_empty])

text \<open>A push stored in this store is delivered with its count and then cleared, and the operations of
  one user never touch another user's document (compare the store of the running system, which
  loses the push).\<close>

theorem redisstore_push_roundtrip:
  assumes "goodDoc E uid r"
  shows "fst (GetPush E uid (snd (SavePush E uid msg r))) = (rOffline (rPush (bodyOf E uid r)) + 1, msg) \<and>
    fst (GetPush E uid (snd (GetPush E uid (snd (SavePush E uid msg r))))) = (0, []) \<and>
    (uid' = uid \<or> offDoc E uid' (snd (GetPush E uid (snd (SavePush E uid msg r)))) = offDoc E uid' r)"
proof -
  let ?save = "\<lambda>b. b\<lparr>rPush := \<lparr>rOffline = rOffline (rPush b) + 1, rPushMsg = msg\<rparr>\<rparr>"
  note S = saveOff_ok [OF assms, where f = ?save]
  have some: "offDoc E uid (snd (SavePush E uid msg r)) \<noteq> None"
    using S(3) by (simp add: SavePush_def)
  let ?r = "snd (SavePush E uid msg r)"
  have good: "goodDoc E uid ?r" and body: "bodyOf E uid ?r = ?save (bodyOf E uid r)"
    using S by (simp_all add: SavePush_def)
  note T = takeOff_ok [OF good, where none = "(0, [])" and sel = "\<lambda>b. (rOffline (rPush b), rPushMsg (rPush b))"
      and f = "\<lambda>b. b\<lparr>rPush := \<lparr>rOffline = 0, rPushMsg = []\<rparr>\<rparr>", folded GetPush_def]
  have first: "fst (GetPush E uid ?r) = (rOffline (rPush (bodyOf E uid r)) + 1, msg)"
    using T(1) some body by simp
  have good2: "goodDoc E uid (snd (GetPush E uid ?r))" by (rule T(2))
  have second: "fst (GetPush E uid (snd (GetPush E uid ?r))) = (0, [])"
    using takeOff_ok(1) [OF good2, where none = "(0, [])" and sel = "\<lambda>b. (rOffline (rPush b), rPushMsg (rPush b))"
      and f = "\<lambda>b. b\<lparr>rPush := \<lparr>rOffline = 0, rPushMsg = []\<rparr>\<rparr>", folded GetPush_def] T(3)
    by (auto simp: bodyOf_def modBody_def split: option.splits)
  have "uid' = uid \<or> offDoc E uid' (snd (GetPush E uid ?r)) = offDoc E uid' r"
    using T(4) [of uid'] S(5) [of uid'] by (auto simp: SavePush_def)
  with first second show ?thesis by simp
qed

theorem redisstore_push_roundtrip_witness:
  "fst (GetPush mapRedis ''u'' (snd (SavePush mapRedis ''u'' [7] Map.empty))) =
     (rOffline (rPush (bodyOf mapRedis ''u'' Map.empty)) + 1, [7]) \<and>
   fst (GetPush mapRedis ''u'' (snd (GetPush mapRedis ''u'' (snd (SavePush mapRedis ''u'' [7] Map.empty))))) = (0, []) \<and>
   (''v'' = ''u'' \<or> offDoc mapRedis ''v'' (snd (GetPush mapRedis ''u'' (snd (SavePush mapRedis ''u'' [7] Map.empty))))
      = offDoc mapRedis ''v'' Map.empty)"
  by (rule redisstore_push_roundtrip [OF mapRedis_empty(1)])

end
