(* ===== verification/MgoStore.thy ===== *)
theory MgoStore
  imports OfflineQueue
begin

text \<open>
  \<^verbatim>\<open>src/internal/mgostore/mgostore.go\<close>: the same offline queues in a MongoDB collection. The
  driver is a parameter: \<open>mgFind\<close>, \<open>mgInsert\<close> and \<open>mgUpdate\<close> act on a collection of any
  type; a find that fails leaves a zero document.
\<close>

record Mpush =
  mOffline :: u16
  mPushMsg :: bytes

record Mitem =
  mPlat :: int
  mMsg :: bytes

record Mbody =
  mPush :: Mpush
  mCallback :: "Mitem list"
  mIm :: "Mitem list"

record MoffMsg =
  mId :: string
  mBody :: Mbody

definition newMsg :: "string \<Rightarrow> MoffMsg" where
  "newMsg uid = \<lparr>mId = uid, mBody = \<lparr>mPush = \<lparr>mOffline = 0, mPushMsg = []\<rparr>, mCallback = [], mIm = []\<rparr>\<rparr>"

record 'r mgo =
  mgFind :: "'r \<Rightarrow> string \<Rightarrow> MoffMsg option \<times> 'r"
  mgInsert :: "'r \<Rightarrow> MoffMsg \<Rightarrow> bool \<times> 'r"
  mgUpdate :: "'r \<Rightarrow> string \<Rightarrow> MoffMsg \<Rightarrow> bool \<times> 'r"

text \<open>\<^verbatim>\<open>GetMsg\<close>: the document of the user, inserted empty when none is found; \<open>None\<close> is the error.\<close>

definition GetMsg :: "'r mgo \<Rightarrow> string \<Rightarrow> 'r \<Rightarrow> MoffMsg option \<times> 'r" where
  "GetMsg E uid r =
     (case mgFind E r uid of
        (Some m, r) \<Rightarrow> (Some m, r)
      | (None, r) \<Rightarrow>
          (case mgInsert E r (newMsg uid) of
             (ok, r) \<Rightarrow> (if ok then Some (newMsg uid) else None, r)))"

definition mModBody :: "(Mbody \<Rightarrow> Mbody) \<Rightarrow> MoffMsg \<Rightarrow> MoffMsg" where
  "mModBody f m = m\<lparr>mBody := f (mBody m)\<rparr>"

text \<open>Load, change, update: the body of the six operations. \<open>True\<close> is the nil error.\<close>

definition mSave :: "'r mgo \<Rightarrow> string \<Rightarrow> (Mbody \<Rightarrow> Mbody) \<Rightarrow> 'r \<Rightarrow> bool \<times> 'r" where
  "mSave E uid f r =
     (case GetMsg E uid r of
        (None, r) \<Rightarrow> (False, r)
      | (Some m, r) \<Rightarrow> mgUpdate E r uid (mModBody f m))"

definition mTake :: "'r mgo \<Rightarrow> string \<Rightarrow> 'a \<Rightarrow> (Mbody \<Rightarrow> 'a) \<Rightarrow> (Mbody \<Rightarrow> Mbody) \<Rightarrow> 'r \<Rightarrow> 'a \<times> 'r" where
  "mTake E uid none sel f r =
     (case GetMsg E uid r of
        (None, r) \<Rightarrow> (none, r)
      | (Some m, r) \<Rightarrow> (sel (mBody m), snd (mgUpdate E r uid (mModBody f m))))"

definition mSavePush :: "'r mgo \<Rightarrow> string \<Rightarrow> bytes \<Rightarrow> 'r \<Rightarrow> bool \<times> 'r" where
  "mSavePush E uid msg =
     mSave E uid (\<lambda>b. b\<lparr>mPush := \<lparr>mOffline = mOffline (mPush b) + 1, mPushMsg = msg\<rparr>\<rparr>)"

definition mSaveCallback :: "'r mgo \<Rightarrow> string \<Rightarrow> int \<Rightarrow> bytes \<Rightarrow> 'r \<Rightarrow> bool \<times> 'r" where
  "mSaveCallback E uid plat msg =
     mSave E uid (\<lambda>b. b\<lparr>mCallback := mCallback b @ [\<lparr>mPlat = plat, mMsg = msg\<rparr>]\<rparr>)"

definition mSaveIm :: "'r mgo \<Rightarrow> string \<Rightarrow> int \<Rightarrow> bytes \<Rightarrow> 'r \<Rightarrow> bool \<times> 'r" where
  "mSaveIm E uid plat msg =
     mSave E uid (\<lambda>b. b\<lparr>mIm := mIm b @ [\<lparr>mPlat = plat, mMsg = msg\<rparr>]\<rparr>)"

definition mGetPush :: "'r mgo \<Rightarrow> string \<Rightarrow> 'r \<Rightarrow> (u16 \<times> bytes) \<times> 'r" where
  "mGetPush E uid =
     mTake E uid (0, []) (\<lambda>b. (mOffline (mPush b), mPushMsg (mPush b)))
       (\<lambda>b. b\<lparr>mPush := \<lparr>mOffline = 0, mPushMsg = []\<rparr>\<rparr>)"

definition mGetCallback :: "'r mgo \<Rightarrow> string \<Rightarrow> int \<Rightarrow> 'r \<Rightarrow> bytes list \<times> 'r" where
  "mGetCallback E uid plat =
     mTake E uid [] (\<lambda>b. map mMsg (filter (\<lambda>it. mPlat it = plat) (mCallback b)))
       (\<lambda>b. b\<lparr>mCallback := filter (\<lambda>it. mPlat it \<noteq> plat) (mCallback b)\<rparr>)"

definition mGetIm :: "'r mgo \<Rightarrow> string \<Rightarrow> int \<Rightarrow> 'r \<Rightarrow> bytes list \<times> 'r" where
  "mGetIm E uid plat =
     mTake E uid [] (\<lambda>b. map mMsg (filter (\<lambda>it. mPlat it = plat) (mIm b)))
       (\<lambda>b. b\<lparr>mIm := filter (\<lambda>it. mPlat it \<noteq> plat) (mIm b)\<rparr>)"

section \<open>A healthy collection\<close>

text \<open>
  Finds change nothing; an insert of a document with a new id and an update of a document that
  is there succeed, are found afterwards and leave the other ids alone.
\<close>

definition mgo_ok :: "'r mgo \<Rightarrow> bool" where
  "mgo_ok E \<longleftrightarrow>
     (\<forall>r k. snd (mgFind E r k) = r) \<and>
     (\<forall>r m. fst (mgFind E r (mId m)) = None \<longrightarrow> fst (mgInsert E r m) \<and>
        fst (mgFind E (snd (mgInsert E r m)) (mId m)) = Some m \<and>
        (\<forall>k. k \<noteq> mId m \<longrightarrow> fst (mgFind E (snd (mgInsert E r m)) k) = fst (mgFind E r k))) \<and>
     (\<forall>r k m. fst (mgFind E r k) \<noteq> None \<longrightarrow> mId m = k \<longrightarrow> fst (mgUpdate E r k m) \<and>
        fst (mgFind E (snd (mgUpdate E r k m)) k) = Some m \<and>
        (\<forall>k'. k' \<noteq> k \<longrightarrow> fst (mgFind E (snd (mgUpdate E r k m)) k') = fst (mgFind E r k')))"

definition mReady :: "'r mgo \<Rightarrow> string \<Rightarrow> 'r \<Rightarrow> bool" where
  "mReady E uid r \<longleftrightarrow> mgo_ok E \<and> (case fst (mgFind E r uid) of None \<Rightarrow> True | Some m \<Rightarrow> mId m = uid)"

definition mBodyOf :: "'r mgo \<Rightarrow> string \<Rightarrow> 'r \<Rightarrow> Mbody" where
  "mBodyOf E uid r = mBody (case fst (mgFind E r uid) of None \<Rightarrow> newMsg uid | Some m \<Rightarrow> m)"

lemma GetMsg_ok:
  assumes "mReady E uid r"
  obtains m r' where "GetMsg E uid r = (Some m, r')" "mId m = uid" "mBody m = mBodyOf E uid r"
    "fst (mgFind E r' uid) = Some m" "\<forall>k. k \<noteq> uid \<longrightarrow> fst (mgFind E r' k) = fst (mgFind E r k)"
proof -
  have ok: "mgo_ok E" using assms by (simp add: mReady_def)
  then have find: "mgFind E r uid = (fst (mgFind E r uid), r)"
    unfolding mgo_ok_def by (metis prod.collapse)
  show thesis
  proof (cases "fst (mgFind E r uid)")
    case None
    have "fst (mgFind E r (mId (newMsg uid))) = None" using None by (simp add: newMsg_def)
    with ok have ins: "fst (mgInsert E r (newMsg uid))"
      "fst (mgFind E (snd (mgInsert E r (newMsg uid))) (mId (newMsg uid))) = Some (newMsg uid)"
      "\<forall>k. k \<noteq> mId (newMsg uid) \<longrightarrow> fst (mgFind E (snd (mgInsert E r (newMsg uid))) k) = fst (mgFind E r k)"
      unfolding mgo_ok_def by blast+
    obtain r' where r': "mgInsert E r (newMsg uid) = (True, r')"
      using ins(1) by (metis prod.collapse)
    have "GetMsg E uid r = (Some (newMsg uid), r')"
      using find None r' by (simp add: GetMsg_def)
    with ins r' None that [of "newMsg uid" r'] show thesis by (simp add: newMsg_def mBodyOf_def)
  next
    case (Some m)
    with find have "GetMsg E uid r = (Some m, r)" by (simp add: GetMsg_def)
    with Some assms that [of m r] show thesis by (simp add: mReady_def mBodyOf_def)
  qed
qed

lemma mSave_ok:
  assumes "mReady E uid r"
  shows "fst (mSave E uid f r)" "mReady E uid (snd (mSave E uid f r))"
    "mBodyOf E uid (snd (mSave E uid f r)) = f (mBodyOf E uid r)"
    "k \<noteq> uid \<Longrightarrow> fst (mgFind E (snd (mSave E uid f r)) k) = fst (mgFind E r k)"
proof -
  have ok: "mgo_ok E" using assms by (simp add: mReady_def)
  from assms obtain m r' where m: "GetMsg E uid r = (Some m, r')" "mId m = uid" "mBody m = mBodyOf E uid r"
    "fst (mgFind E r' uid) = Some m" "\<forall>k. k \<noteq> uid \<longrightarrow> fst (mgFind E r' k) = fst (mgFind E r k)"
    by (rule GetMsg_ok)
  have id: "mId (mModBody f m) = uid" using m(2) by (simp add: mModBody_def)
  have "fst (mgFind E r' uid) \<noteq> None" using m(4) by simp
  with ok id have upd: "fst (mgUpdate E r' uid (mModBody f m))"
    "fst (mgFind E (snd (mgUpdate E r' uid (mModBody f m))) uid) = Some (mModBody f m)"
    "\<forall>k. k \<noteq> uid \<longrightarrow> fst (mgFind E (snd (mgUpdate E r' uid (mModBody f m))) k) = fst (mgFind E r' k)"
    unfolding mgo_ok_def by blast+
  have save: "mSave E uid f r = mgUpdate E r' uid (mModBody f m)" using m(1) by (simp add: mSave_def)
  show "fst (mSave E uid f r)" "mReady E uid (snd (mSave E uid f r))"
    "mBodyOf E uid (snd (mSave E uid f r)) = f (mBodyOf E uid r)"
    "k \<noteq> uid \<Longrightarrow> fst (mgFind E (snd (mSave E uid f r)) k) = fst (mgFind E r k)"
    using upd id ok m(3,5) by (simp_all add: save mReady_def mBodyOf_def) (simp add: mModBody_def)
qed

lemma mTake_mSave:
  assumes "mReady E uid r"
  shows "mTake E uid none sel f r = (sel (mBodyOf E uid r), snd (mSave E uid f r))"
proof -
  from assms obtain m r' where "GetMsg E uid r = (Some m, r')" "mBody m = mBodyOf E uid r"
    by (rule GetMsg_ok)
  then show ?thesis by (simp add: mTake_def mSave_def)
qed

section \<open>The queues of one terminal\<close>

definition mgoCallbacks :: "'r mgo \<Rightarrow> string \<Rightarrow> int \<Rightarrow> 'r \<Rightarrow> bytes list" where
  "mgoCallbacks E uid plat r = map mMsg (filter (\<lambda>it. mPlat it = plat) (mCallback (mBodyOf E uid r)))"

definition mgoMessages :: "'r mgo \<Rightarrow> string \<Rightarrow> int \<Rightarrow> 'r \<Rightarrow> bytes list" where
  "mgoMessages E uid plat r = map mMsg (filter (\<lambda>it. mPlat it = plat) (mIm (mBodyOf E uid r)))"

interpretation mgoCb: offline_queue "mReady E uid" "mgoCallbacks E uid plat" "\<lambda>q m. q @ [m]"
  "\<lambda>m r. snd (mSaveCallback E uid plat m r)" "mGetCallback E uid plat"
  for uid plat and E :: "'r mgo"
proof unfold_locales
  fix r :: 'r and m
  assume ready: "mReady E uid r"
  show "mReady E uid (snd (mSaveCallback E uid plat m r))"
    "mReady E uid (snd (mGetCallback E uid plat r))"
    "fst (mGetCallback E uid plat r) = mgoCallbacks E uid plat r"
    by (simp_all add: mSaveCallback_def mGetCallback_def mTake_mSave [OF ready] mSave_ok(2) [OF ready] mgoCallbacks_def)
  show "mgoCallbacks E uid plat (snd (mSaveCallback E uid plat m r)) = mgoCallbacks E uid plat r @ [m]"
    unfolding mSaveCallback_def mgoCallbacks_def mSave_ok(3) [OF ready] by simp
  show "mgoCallbacks E uid plat (snd (mGetCallback E uid plat r)) = []"
    unfolding mGetCallback_def mTake_mSave [OF ready] snd_conv mgoCallbacks_def mSave_ok(3) [OF ready]
    by (simp add: filter_empty_conv)
qed

interpretation mgoIm: offline_queue "mReady E uid" "mgoMessages E uid plat" "\<lambda>q m. q @ [m]"
  "\<lambda>m r. snd (mSaveIm E uid plat m r)" "mGetIm E uid plat"
  for uid plat and E :: "'r mgo"
proof unfold_locales
  fix r :: 'r and m
  assume ready: "mReady E uid r"
  show "mReady E uid (snd (mSaveIm E uid plat m r))"
    "mReady E uid (snd (mGetIm E uid plat r))"
    "fst (mGetIm E uid plat r) = mgoMessages E uid plat r"
    by (simp_all add: mSaveIm_def mGetIm_def mTake_mSave [OF ready] mSave_ok(2) [OF ready] mgoMessages_def)
  show "mgoMessages E uid plat (snd (mSaveIm E uid plat m r)) = mgoMessages E uid plat r @ [m]"
    unfolding mSaveIm_def mgoMessages_def mSave_ok(3) [OF ready] by simp
  show "mgoMessages E uid plat (snd (mGetIm E uid plat r)) = []"
    unfolding mGetIm_def mTake_mSave [OF ready] snd_conv mgoMessages_def mSave_ok(3) [OF ready]
    by (simp add: filter_empty_conv)
qed

section \<open>Properties\<close>

text \<open>A collection in memory, for the witness.\<close>

definition mapMgo :: "(string \<rightharpoonup> MoffMsg) mgo" where
  "mapMgo = \<lparr>mgFind = (\<lambda>r k. (r k, r)), mgInsert = (\<lambda>r m. (True, r(mId m \<mapsto> m))),
     mgUpdate = (\<lambda>r k m. if r k = None then (False, r) else (True, r(k \<mapsto> m)))\<rparr>"

lemma mapMgo_ready: "mReady mapMgo uid Map.empty"
  by (auto simp: mReady_def mgo_ok_def mapMgo_def)

text \<open>C16: with a healthy collection, callbacks and messages saved for one platform of a user come out
  complete, in order and once, without the limit of the other stores, and saving or taking
  touches no other user.\<close>

theorem mgostore_queues_are_fifo:
  assumes "mReady E uid r"
  shows "fst (mGetCallback E uid plat (fold (\<lambda>m r. snd (mSaveCallback E uid plat m r)) ms r)) =
      mgoCallbacks E uid plat r @ ms \<and>
    fst (mGetIm E uid plat (fold (\<lambda>m r. snd (mSaveIm E uid plat m r)) ms r)) = mgoMessages E uid plat r @ ms \<and>
    fst (mGetIm E uid plat (snd (mGetIm E uid plat (fold (\<lambda>m r. snd (mSaveIm E uid plat m r)) ms r)))) = [] \<and>
    (uid' = uid \<or> fst (mgFind E (snd (mSaveIm E uid plat m r)) uid') = fst (mgFind E r uid'))"
  using mgoCb.drain(1) [OF assms, of plat ms] mgoIm.drain [OF assms, of plat ms]
    foldl_snoc [where f = id and ms = ms] mSave_ok(4) [OF assms, of uid']
  by (auto simp: mSaveIm_def)

theorem mgostore_queues_are_fifo_witness:
  "fst (mGetCallback mapMgo ''u'' 1 (fold (\<lambda>m r. snd (mSaveCallback mapMgo ''u'' 1 m r)) [[1], [2]] Map.empty)) =
      mgoCallbacks mapMgo ''u'' 1 Map.empty @ [[1], [2]] \<and>
    fst (mGetIm mapMgo ''u'' 1 (fold (\<lambda>m r. snd (mSaveIm mapMgo ''u'' 1 m r)) [[1], [2]] Map.empty)) =
      mgoMessages mapMgo ''u'' 1 Map.empty @ [[1], [2]] \<and>
    fst (mGetIm mapMgo ''u'' 1 (snd (mGetIm mapMgo ''u'' 1
      (fold (\<lambda>m r. snd (mSaveIm mapMgo ''u'' 1 m r)) [[1], [2]] Map.empty)))) = [] \<and>
    (''v'' = ''u'' \<or> fst (mgFind mapMgo (snd (mSaveIm mapMgo ''u'' 1 [1] Map.empty)) ''v'') =
      fst (mgFind mapMgo Map.empty ''v''))"
  by (rule mgostore_queues_are_fifo [OF mapMgo_ready])

end
