(* ===== verification/Spec2Isabelle.thy ===== *)
theory Spec2Isabelle
  imports Delivery Dial Producer Web System Sockets EarlyAck Link Boot Config RdsProps Counter RedisStore MgoStore
begin

text \<open>
  galopush is a push proxy of two kinds of processes. A \<^emph>\<open>comet\<close> (\<^verbatim>\<open>src/comet\<close>) holds the
  connections of the clients: binary over TCP, JSON over websockets. The \<^emph>\<open>router\<close>
  (\<^verbatim>\<open>src/router\<close>) takes logins and messages from a message queue, knows which comet a user is
  attached to, and forwards. They talk by RPC (\<^verbatim>\<open>src/internal/rpc\<close>); both keep the users'
  sessions, with the messages that wait for a terminal, in a store over redis
  (\<^verbatim>\<open>src/internal/rds\<close>). Two older stores (\<^verbatim>\<open>redisstore\<close>, \<^verbatim>\<open>mgostore\<close>) are not
  called any more.

  \<^bold>\<open>Theories, and what they model.\<close>

  \<^item> \<open>Prelude\<close>: the state and panic monad \<open>pcd\<close> (a procedure gives a panic or a value, and keeps
    the effects before a panic, as a recovered Go function does), panics, shared lemmas.
  \<^item> \<open>Protocol\<close>, \<open>Codec\<close>, \<open>Binary\<close>, \<open>JsonProto\<close>, \<open>Base64\<close>:
    \<^verbatim>\<open>src/internal/protocol\<close>, the header bit fields on machine words, the in-place body
    codecs, framing, the JSON form. The codec's contract is the locale \<open>body_codec\<close>.
  \<^item> \<open>RdsStore\<close>, \<open>RdsSpec\<close>, \<open>RdsTrace\<close>, \<open>RdsProps\<close>: \<^verbatim>\<open>rds.go\<close>. Sessions,
    terminals and backing arrays live in a heap because the store hands out pointers into its
    cache and Go slices share arrays; \<open>docOf\<close> reads the stored document out of the heap and
    every operation refines a function on documents. \<open>OfflineQueue\<close> is the contract of a
    queue of waiting messages, provided by this store and by \<open>RedisStore\<close> and \<open>MgoStore\<close>.
  \<^item> \<open>Rpc\<close>, \<open>Nsq\<close>, \<open>Link\<close>: requests, RPC client and server, the queue's dispatcher, and
    the comet's link to the router as a state machine.
  \<^item> \<open>Router\<close>, \<open>RouterSpec\<close>, \<open>RouterProps\<close>, \<open>RouterPush\<close>, \<open>RouterReports\<close>: the router
    process and what logins, pushes, reports and the load dispatcher do to documents.
    \<open>RouterInv\<close>: all inputs of the router as one step, its invariant and its histories.
  \<^item> \<open>CometState\<close>, \<open>CometHandlers\<close>, \<open>Apns\<close>: the comet process. Sessions and transactions are
    heap objects; a transaction's goroutine is the step relation \<open>gostep\<close> over its timer, exit
    channel and program counter.
  \<^item> \<open>CometInv\<close>, \<open>CometTrans\<close>, \<open>CometLife\<close>, \<open>CometProps\<close>: the comet as a machine whose
    steps are whole handlers and goroutine steps, its two invariants, and the life of a message.
    \<open>EarlyAck\<close>: the stretches of one send, with an acknowledgement between them.
  \<^item> \<open>Tcp\<close>, \<open>Sockets\<close>: the read loops and the channel from them to the handlers.
  \<^item> \<open>Config\<close>, \<open>Boot\<close>, \<open>Counter\<close>: set-up from the configuration file; starting the servers and
    goroutines of a process, with its one table of HTTP handlers; the statistics counter.
  \<^item> \<open>System\<close>: a comet whose RPC calls run the router's server. What the comet relies on is the
    locale \<open>auth_service\<close>, interpreted on the router.
  \<^item> \<open>Client\<close>, \<open>Web\<close>: the clients under \<^verbatim>\<open>src/ua\<close>, and the comet in front of them.
    \<open>Dial\<close>: how they start, from the router's dispatcher to the registration; what they rely on
    is the locale \<open>address_service\<close>. \<open>Producer\<close>: the program that puts test messages into the queue.
    \<open>Delivery\<close>: the messages that wait for a user, from the store to the client that registers.
  \<^item> \<open>Format\<close>, \<open>TextForm\<close>, \<open>RdsExample\<close>: key formatting, and concrete instances of the
    parameters on which the witnesses are evaluated.

  \<^bold>\<open>What is shown.\<close> Of the protocol: codecs and frames are undone by their decoders, the index
  loops compute list functions, where they panic, and that the read loop of a connection hands on
  exactly the messages that were framed. Of the store: refinement of document functions for
  every run of operations, survival of restarts, order and bounds of the queues, and three ways
  in which messages get lost. Of the router: the effect of a login on the document, that
  authentication follows the history of logins whatever else the router handled, well-formedness
  of every state it can get to (one phone per user in it), which calls a push makes and for whom
  it is stored, which comet the dispatcher chooses for any loads (one of least load only if none
  is idle), and what reports do to its counters. Of the comet: consistency of the pool in every
  reachable state, termination and outcome of every transaction, what becomes of a message that
  nobody acknowledges (stored, or lost if the connection is closed first), ids, registration, and
  four races. Of both: a client gets registered exactly if the
  latest login left its code, and the router then knows where it is; the link between them holds
  one token. Of the whole path: a client that starts is sent to its comet
  or one the balancer chooses and registers there; what the repository's binary client writes is
  read by the comet as meant, and what the comet writes, but for a kick, is read and acknowledged
  by the client, the stored callbacks and instant messages of a user at his registration included
  (a stored push is lost); its websocket client is refused. Of starting
  up: when the router's start ends, and what is answered on which address.

  \<^bold>\<open>Parameters and bounds.\<close> Outside the repository, and arguments of the model: redis and the
  text form of stored data (\<open>env\<close>, laws in \<open>redis_ok\<close>), \<^verbatim>\<open>encoding/json\<close> (\<open>jsonlib\<close>,
  \<open>jsonlib_ok\<close>), the RPC transport, sockets, APNS, the queue client, MongoDB, the parser of
  the configuration file, and the packages the clients import (\<open>uaLib\<close>, \<open>webLib\<close>; the theorems
  about the binary clients put the comet's own package in their place). Machine integers are
  words where the code's width matters (header fields, lengths, the offline counter); platform
  numbers, loads and transaction ids are \<^typ>\<open>int\<close>, the latter with the code's own bound. No
  definition uses fuel: the read loop of a TCP connection terminates by the size of its input
  (\<open>insize\<close>), and goroutines are step relations whose termination is a theorem (at most 13 steps).
  Three loops may run for ever and are partial functions, \<open>None\<close> when they do: the read loop of a client (which
  ends with the comet's package), \<open>tcpServ\<close> and \<open>RouterStart\<close>. Every other loop is structural.

  \<^bold>\<open>Not modelled.\<close> What sockets and HTTP do below listening and accepting, logging, the periodic
  statistics and the service wrapper (pure I/O); interleavings inside one handler (a handler of
  comet or router is one step, a goroutine's statements are separate steps), so data races on the
  heap objects are outside. In particular the write of a tracked message, the booking of its
  transaction and the start of its timer are one step of the comet machine (\<open>sendTracked\<close>), and
  what the machine's theorems say of acknowledgements holds between such steps; \<open>EarlyAck\<close> takes
  the send apart and shows what an acknowledgement in between does. A worker that waits at the
  full exit channel of a transaction counts as finished with its value sent (\<open>sendExit\<close>), so
  that it may panic when the channel is closed under it is outside. The router's goroutine of a
  link holds its comet by pointer: a comet in the pool is read from the pool, one the pool has
  dropped is any comet value (\<open>StaleLinkEvent\<close>), and the room in its state channel is not
  counted. Also left out are the full data channel, which only delays; the format directives in an address the dispatcher prints; the manual test \<^verbatim>\<open>src/test\<close> and
  the unit tests, which need running servers.
\<close>

end
